theory Spec2Isabelle
  imports Main "HOL-Library.Word" "HOL-Library.AList" "HOL-Library.Sublist"
    "HOL-Library.Char_ord" "HOL-Library.List_Lexorder"
begin

unbundle bit_operations_syntax

section \<open>JavaScript values used by the WoW API index\<close>

text \<open>
  The development embeds the annotation parsers (\<^verbatim>\<open>parsers/lua-annotations.mjs\<close>,
  \<^verbatim>\<open>parsers/ts-data.mjs\<close>) and the in-memory index (\<^verbatim>\<open>data-store.mjs\<close>).
  A string is a \<open>char list\<close>, and a \<open>char\<close> is a UTF-16 code unit below 256: the strings
  of the model are the JavaScript strings of Latin-1 text, the character with code \<open>n\<close>
  being \<open>U+00n\<close>. The character classes, \<^verbatim>\<open>trim\<close> and the case mappings below are
  those of JavaScript on these strings.
\<close>

subsection \<open>Character classes of the regular expressions\<close>

definition isDigit :: "char \<Rightarrow> bool" where
  "isDigit c = (48 \<le> (of_char c :: int) \<and> (of_char c :: int) \<le> 57)"

definition isUpper :: "char \<Rightarrow> bool" where
  "isUpper c = (65 \<le> (of_char c :: int) \<and> (of_char c :: int) \<le> 90)"

definition isLower :: "char \<Rightarrow> bool" where
  "isLower c = (97 \<le> (of_char c :: int) \<and> (of_char c :: int) \<le> 122)"

text \<open>\<^verbatim>\<open>\w\<close> is \<^verbatim>\<open>[A-Za-z0-9_]\<close>.\<close>

definition isWord :: "char \<Rightarrow> bool" where
  "isWord c = (isDigit c \<or> isUpper c \<or> isLower c \<or> c = CHR ''_'')"

text \<open>\<^verbatim>\<open>[\w.]\<close>, the characters of a qualified name.\<close>

definition isWordDot :: "char \<Rightarrow> bool" where
  "isWordDot c = (isWord c \<or> c = CHR ''.'')"

text \<open>\<^verbatim>\<open>\s\<close>: tab, line feed, vertical tab, form feed, carriage return, space and the
  no-break space \<open>U+00A0\<close>; the other white space characters of JavaScript have codes
  above 255. \<^verbatim>\<open>String.prototype.trim\<close> removes the same characters.\<close>

definition isSpace :: "char \<Rightarrow> bool" where
  "isSpace c = ((9 \<le> (of_char c :: int) \<and> (of_char c :: int) \<le> 13) \<or> (of_char c :: int) = 32
     \<or> (of_char c :: int) = 160)"

text \<open>\<^verbatim>\<open>.\<close> matches every character but a line terminator.\<close>

definition isLineTerminator :: "char \<Rightarrow> bool" where
  "isLineTerminator c = ((of_char c :: int) = 10 \<or> (of_char c :: int) = 13)"

definition isHexDigit :: "char \<Rightarrow> bool" where
  "isHexDigit c = (isDigit c \<or> (65 \<le> (of_char c :: int) \<and> (of_char c :: int) \<le> 70)
     \<or> (97 \<le> (of_char c :: int) \<and> (of_char c :: int) \<le> 102))"

subsection \<open>String methods\<close>

text \<open>
  The letters that have another case: \<open>A\<close> to \<open>Z\<close> and \<open>U+00C0\<close> to \<open>U+00DE\<close> without the
  multiplication sign \<open>U+00D7\<close>, and their lower case forms in the same order.
\<close>

definition upperCaseLetters :: string where
  "upperCaseLetters = ''ABCDEFGHIJKLMNOPQRSTUVWXYZ'' @
     [CHR 0xC0, CHR 0xC1, CHR 0xC2, CHR 0xC3, CHR 0xC4, CHR 0xC5, CHR 0xC6, CHR 0xC7,
      CHR 0xC8, CHR 0xC9, CHR 0xCA, CHR 0xCB, CHR 0xCC, CHR 0xCD, CHR 0xCE, CHR 0xCF,
      CHR 0xD0, CHR 0xD1, CHR 0xD2, CHR 0xD3, CHR 0xD4, CHR 0xD5, CHR 0xD6, CHR 0xD8,
      CHR 0xD9, CHR 0xDA, CHR 0xDB, CHR 0xDC, CHR 0xDD, CHR 0xDE]"

definition lowerCaseLetters :: string where
  "lowerCaseLetters = ''abcdefghijklmnopqrstuvwxyz'' @
     [CHR 0xE0, CHR 0xE1, CHR 0xE2, CHR 0xE3, CHR 0xE4, CHR 0xE5, CHR 0xE6, CHR 0xE7,
      CHR 0xE8, CHR 0xE9, CHR 0xEA, CHR 0xEB, CHR 0xEC, CHR 0xED, CHR 0xEE, CHR 0xEF,
      CHR 0xF0, CHR 0xF1, CHR 0xF2, CHR 0xF3, CHR 0xF4, CHR 0xF5, CHR 0xF6, CHR 0xF8,
      CHR 0xF9, CHR 0xFA, CHR 0xFB, CHR 0xFC, CHR 0xFD, CHR 0xFE]"

definition toLowerChar :: "char \<Rightarrow> char" where
  "toLowerChar c = (case map_of (zip upperCaseLetters lowerCaseLetters) c of Some d \<Rightarrow> d | None \<Rightarrow> c)"

definition toLowerCase :: "string \<Rightarrow> string" where
  "toLowerCase s = map toLowerChar s"

text \<open>
  \<^verbatim>\<open>toUpperCase\<close> maps the sharp s \<open>U+00DF\<close> to \<^verbatim>\<open>SS\<close>, and the micro sign \<open>U+00B5\<close> and
  \<open>U+00FF\<close> to characters with codes above 255: the upper case form of a string that holds
  one of these two is no string of the model, which is \<open>None\<close>.
\<close>

definition toUpperChar :: "char \<Rightarrow> string option" where
  "toUpperChar c =
     (if c = CHR 0xDF then Some ''SS''
      else if c = CHR 0xB5 \<or> c = CHR 0xFF then None
      else Some [case map_of (zip lowerCaseLetters upperCaseLetters) c of Some d \<Rightarrow> d | None \<Rightarrow> c])"

fun toUpperCase :: "string \<Rightarrow> string option" where
  "toUpperCase [] = Some []"
| "toUpperCase (c # cs) =
     (case toUpperChar c of
        None \<Rightarrow> None
      | Some u \<Rightarrow> (case toUpperCase cs of None \<Rightarrow> None | Some us \<Rightarrow> Some (u @ us)))"

definition trim :: "string \<Rightarrow> string" where
  "trim s = rev (dropWhile isSpace (rev (dropWhile isSpace s)))"

definition startsWith :: "string \<Rightarrow> string \<Rightarrow> bool" where
  "startsWith s p = prefix p s"

text \<open>\<^verbatim>\<open>s.includes(sub)\<close>: \<open>sub\<close> occurs in \<open>s\<close> as a contiguous run.\<close>

fun includesStr :: "string \<Rightarrow> string \<Rightarrow> bool" where
  "includesStr [] sub = (sub = [])"
| "includesStr (c # cs) sub = (prefix sub (c # cs) \<or> includesStr cs sub)"

text \<open>\<^verbatim>\<open>Array.prototype.join\<close>.\<close>

fun join :: "string \<Rightarrow> string list \<Rightarrow> string" where
  "join sep [] = []"
| "join sep [x] = x"
| "join sep (x # y # ys) = x @ sep @ join sep (y # ys)"

text \<open>\<^verbatim>\<open>content.split(/\r?\n/)\<close>: a line ends at a line feed, and a carriage return just
  before that line feed belongs to the separator.\<close>

fun splitLines :: "string \<Rightarrow> string list" where
  "splitLines [] = [[]]"
| "splitLines (c # cs) =
     (if c = CHR 0x0A then [] # splitLines cs
      else if c = CHR 0x0D \<and> (case cs of [] \<Rightarrow> False | d # ds \<Rightarrow> d = CHR 0x0A)
        then [] # splitLines (tl cs)
      else (case splitLines cs of [] \<Rightarrow> [[c]] | l # ls \<Rightarrow> (c # l) # ls))"

text \<open>A string is truthy when it is not empty; \<open>null\<close> and \<open>undefined\<close> are \<open>None\<close>.\<close>

definition truthy :: "string option \<Rightarrow> bool" where
  "truthy s = (case s of None \<Rightarrow> False | Some t \<Rightarrow> t \<noteq> [])"

text \<open>\<^verbatim>\<open>s || null\<close> for a captured group \<open>s\<close> that took part in the match.\<close>

definition orNull :: "string \<Rightarrow> string option" where
  "orNull s = (if s = [] then None else Some s)"

subsection \<open>Map and plain objects\<close>

text \<open>
  A \<^verbatim>\<open>Map\<close> is the list of its entries in insertion order; \<^verbatim>\<open>set\<close> on a key that is
  present replaces the value and keeps the entry's place.
\<close>

type_synonym ('k, 'v) js_map = "('k \<times> 'v) list"

definition map_has :: "('k, 'v) js_map \<Rightarrow> 'k \<Rightarrow> bool" where
  "map_has m k = (map_of m k \<noteq> None)"

definition map_get :: "('k, 'v) js_map \<Rightarrow> 'k \<Rightarrow> 'v option" where
  "map_get m k = map_of m k"

definition map_set :: "'k \<Rightarrow> 'v \<Rightarrow> ('k, 'v) js_map \<Rightarrow> ('k, 'v) js_map" where
  "map_set k v m = AList.update k v m"

definition map_keys :: "('k, 'v) js_map \<Rightarrow> 'k list" where
  "map_keys m = map fst m"

text \<open>
  A plain object used as a dictionary is the list of its own properties in creation order.
  Reading \<^verbatim>\<open>obj[key]\<close> finds an own property first and a member of
  \<^verbatim>\<open>Object.prototype\<close> otherwise; every such member is an object or a function, hence
  truthy. Writing the key \<^verbatim>\<open>__proto__\<close> creates no own property: it is ignored when the
  value is a number and replaces the prototype when the value is an object, which the model
  does not follow; the tables below are those of a corpus that never uses this key for a
  table, an event or a function.
\<close>

type_synonym 'v js_object = "(string \<times> 'v) list"

definition objectPrototypeKeys :: "string list" where
  "objectPrototypeKeys =
     [''constructor'', ''__defineGetter__'', ''__defineSetter__'', ''hasOwnProperty'',
      ''__lookupGetter__'', ''__lookupSetter__'', ''isPrototypeOf'', ''propertyIsEnumerable'',
      ''toString'', ''valueOf'', ''__proto__'', ''toLocaleString'']"

datatype 'v js_prop = Own 'v | Inherited string

definition obj_get :: "'v js_object \<Rightarrow> string \<Rightarrow> 'v js_prop option" where
  "obj_get obj k =
     (case map_of obj k of
        Some v \<Rightarrow> Some (Own v)
      | None \<Rightarrow> if k \<in> set objectPrototypeKeys then Some (Inherited k) else None)"

definition obj_set :: "string \<Rightarrow> 'v \<Rightarrow> 'v js_object \<Rightarrow> 'v js_object" where
  "obj_set k v obj = (if k = ''__proto__'' then obj else AList.update k v obj)"

text \<open>The decimal value of a string of digits.\<close>

definition digitValue :: "char \<Rightarrow> int" where
  "digitValue c = (of_char c :: int) - 48"

definition digitsToInt :: "string \<Rightarrow> int" where
  "digitsToInt ds = foldl (\<lambda>n c. 10 * n + digitValue c) 0 ds"

text \<open>
  \<^verbatim>\<open>Object.entries\<close> and \<^verbatim>\<open>Object.keys\<close> list the keys that are array indices (canonical
  decimal numerals below \<open>2^32 - 1\<close>) first, in ascending numeric order, and then the other
  keys in creation order.
\<close>

definition isArrayIndex :: "string \<Rightarrow> bool" where
  "isArrayIndex k =
     (k \<noteq> [] \<and> list_all isDigit k \<and> (k = ''0'' \<or> take 1 k \<noteq> ''0'') \<and> digitsToInt k < 4294967295)"

definition obj_entries :: "'v js_object \<Rightarrow> (string \<times> 'v) list" where
  "obj_entries obj =
     sort_key (\<lambda>e. digitsToInt (fst e)) (filter (\<lambda>e. isArrayIndex (fst e)) obj) @
     filter (\<lambda>e. \<not> isArrayIndex (fst e)) obj"

subsection \<open>The version bitmask\<close>

text \<open>
  \<^verbatim>\<open>decodeFlavorBitmask\<close>. The operator \<^verbatim>\<open>&\<close> works on the 32-bit two's complement
  value of its operands.
\<close>

definition decodeFlavorBitmask :: "int \<Rightarrow> string list" where
  "decodeFlavorBitmask bitmask =
     (if (word_of_int bitmask :: 32 word) AND 0x1 \<noteq> 0 then [''Mainline''] else []) @
     (if (word_of_int bitmask :: 32 word) AND 0x2 \<noteq> 0 then [''Vanilla''] else []) @
     (if (word_of_int bitmask :: 32 word) AND 0x4 \<noteq> 0 then [''Mists''] else [])"

section \<open>The data model\<close>

text \<open>The entries \<^verbatim>\<open>parseAnnotationBlock\<close> pushes for \<^verbatim>\<open>@param\<close> and \<^verbatim>\<open>@return\<close>
  lines; a class field has the shape of a parameter.\<close>

record param_rec =
  pname :: string
  poptional :: bool
  ptype :: string
  pdescription :: "string option"

record return_rec =
  rtype :: string
  rname :: "string option"
  rdescription :: "string option"

text \<open>
  \<^verbatim>\<open>gameVersions\<close> holds what the flavor table holds under the function's name: an array
  of version names, or a member inherited from \<^verbatim>\<open>Object.prototype\<close>.
\<close>

datatype versions = Versions "string list" | PrototypeMember string

text \<open>
  A function object: the fields of \<^verbatim>\<open>parseFunctionLine\<close> and \<^verbatim>\<open>parseAnnotationBlock\<close>,
  and the three fields the store adds. An absent field, \<open>undefined\<close> and \<open>null\<close> are \<open>None\<close>.
\<close>

record func_rec =
  fullName :: string
  namespace :: "string option"
  name :: string
  args :: string
  isMethod :: bool
  deprecated :: bool
  replacedBy :: "string option"
  replacedByUrl :: "string option"
  wikiUrl :: "string option"
  description :: "string option"
  params :: "param_rec list"
  returns :: "return_rec list"
  deprecatedInPatch :: "string option"
  source :: "string option"
  gameVersions :: "versions option"

record class_rec =
  cname :: string
  inherits :: "string list"
  cfields :: "param_rec list"
  cwikiUrl :: "string option"

record event_rec =
  ename :: string
  payload :: "string option"

section \<open>The annotation parsers\<close>

subsection \<open>Helpers for the regular expressions\<close>

text \<open>
  Every regular expression of the parsers is written out as the function that computes
  its captured groups. Each repetition is greedy and is followed by a character it cannot
  match (or by a repetition of a disjoint class), so that the leftmost choice of the
  backtracking matcher is the longest run; where it is not, the text says so.
\<close>

definition dropPrefix :: "string \<Rightarrow> string \<Rightarrow> string option" where
  "dropPrefix p s = (if prefix p s then Some (drop (length p) s) else None)"

definition notSpace :: "char \<Rightarrow> bool" where
  "notSpace c = (\<not> isSpace c)"

text \<open>\<^verbatim>\<open>s.split(',')\<close> and the like.\<close>

fun splitOn :: "char \<Rightarrow> string \<Rightarrow> string list" where
  "splitOn d [] = [[]]"
| "splitOn d (c # cs) =
     (if c = d then [] # splitOn d cs
      else (case splitOn d cs of [] \<Rightarrow> [[c]] | l # ls \<Rightarrow> (c # l) # ls))"

text \<open>\<^verbatim>\<open>parseInt(digits, 10)\<close> for a string of decimal digits. The number the code
  gets is the double nearest to the value, which is the value itself below \<open>2^53\<close>; the
  model keeps the exact value beyond, and so describes the files whose numbers are below
  \<open>2^53\<close>.\<close>

definition parseIntDec :: "string \<Rightarrow> int" where
  "parseIntDec ds = digitsToInt ds"

subsection \<open>\<^verbatim>\<open>parseFunctionLine\<close>\<close>

text \<open>The identity fields of a function object; the other fields are filled in by
  \<^verbatim>\<open>parseAnnotationBlock\<close> and by the store.\<close>

definition funcInfo :: "string \<Rightarrow> string option \<Rightarrow> string \<Rightarrow> string \<Rightarrow> bool \<Rightarrow> func_rec" where
  "funcInfo fn ns nm ar meth =
     \<lparr>fullName = fn, namespace = ns, name = nm, args = ar, isMethod = meth,
      deprecated = False, replacedBy = None, replacedByUrl = None, wikiUrl = None,
      description = None, params = [], returns = [],
      deprecatedInPatch = None, source = None, gameVersions = None\<rparr>"

text \<open>The tail \<^verbatim>\<open>\s*\(([^)]*)\)\s*end$\<close> of both signature patterns: the captured
  argument text.\<close>

definition matchArgsEnd :: "string \<Rightarrow> string option" where
  "matchArgsEnd s =
     (case dropWhile isSpace s of
        [] \<Rightarrow> None
      | c # r \<Rightarrow>
          if c \<noteq> CHR ''('' then None
          else (case dropWhile (\<lambda>x. x \<noteq> CHR '')'') r of
                  [] \<Rightarrow> None
                | d # r' \<Rightarrow>
                    if dropWhile isSpace r' = ''end''
                    then Some (takeWhile (\<lambda>x. x \<noteq> CHR '')'') r) else None))"

text \<open>\<^verbatim>\<open>^function\s+([\w.]+)\s*\(([^)]*)\)\s*end$\<close>: the qualified name and the arguments.\<close>

definition matchNamespaced :: "string \<Rightarrow> (string \<times> string) option" where
  "matchNamespaced line =
     (case dropPrefix ''function'' line of
        None \<Rightarrow> None
      | Some r0 \<Rightarrow>
          if takeWhile isSpace r0 = [] then None
          else let r1 = dropWhile isSpace r0; fn = takeWhile isWordDot r1 in
            if fn = [] then None
            else (case matchArgsEnd (dropWhile isWordDot r1) of
                    None \<Rightarrow> None
                  | Some ar \<Rightarrow> Some (fn, ar)))"

text \<open>\<^verbatim>\<open>^function\s+([\w.]+):([\w]+)\s*\(([^)]*)\)\s*end$\<close>: owner, method and arguments.\<close>

definition matchMethod :: "string \<Rightarrow> (string \<times> string \<times> string) option" where
  "matchMethod line =
     (case dropPrefix ''function'' line of
        None \<Rightarrow> None
      | Some r0 \<Rightarrow>
          if takeWhile isSpace r0 = [] then None
          else let r1 = dropWhile isSpace r0; owner = takeWhile isWordDot r1 in
            if owner = [] then None
            else (case dropWhile isWordDot r1 of
                    [] \<Rightarrow> None
                  | c # r2 \<Rightarrow>
                      if c \<noteq> CHR '':'' then None
                      else let m = takeWhile isWord r2 in
                        if m = [] then None
                        else (case matchArgsEnd (dropWhile isWord r2) of
                                None \<Rightarrow> None
                              | Some ar \<Rightarrow> Some (owner, m, ar))))"

text \<open>\<^verbatim>\<open>fullName.lastIndexOf('.')\<close>; \<open>None\<close> is \<open>-1\<close>.\<close>

definition lastIndexOfDot :: "string \<Rightarrow> nat option" where
  "lastIndexOfDot s =
     (if CHR ''.'' \<in> set s
      then Some (length s - 1 - length (takeWhile (\<lambda>c. c \<noteq> CHR ''.'') (rev s)))
      else None)"

definition parseFunctionLine :: "string \<Rightarrow> func_rec option" where
  "parseFunctionLine line =
     (case matchNamespaced line of
        Some (fn, ar) \<Rightarrow>
          (case lastIndexOfDot fn of
             Some dotIdx \<Rightarrow> Some (funcInfo fn (Some (take dotIdx fn)) (drop (dotIdx + 1) fn) ar False)
           | None \<Rightarrow> Some (funcInfo fn None fn ar False))
      | None \<Rightarrow>
          (case matchMethod line of
             Some (owner, m, ar) \<Rightarrow> Some (funcInfo (owner @ '':'' @ m) (Some owner) m ar True)
           | None \<Rightarrow> None))"

subsection \<open>\<^verbatim>\<open>parseAnnotationBlock\<close>\<close>

text \<open>\<^verbatim>\<open>line.replace(/^---\s?/, '')\<close>.\<close>

definition stripMarker :: "string \<Rightarrow> string" where
  "stripMarker line =
     (case dropPrefix ''---'' line of
        None \<Rightarrow> line
      | Some r \<Rightarrow> (case r of [] \<Rightarrow> [] | c # r' \<Rightarrow> if isSpace c then r' else r))"

text \<open>A group \<^verbatim>\<open>\(([^)]+)\)\<close> whose opening parenthesis has been read: the text up to
  the closing parenthesis, which is there and not the next character.\<close>

definition matchUrl :: "string \<Rightarrow> string option" where
  "matchUrl s =
     (let u = takeWhile (\<lambda>c. c \<noteq> CHR '')'') s in
      if u = [] \<or> dropWhile (\<lambda>c. c \<noteq> CHR '')'') s = [] then None else Some u)"

text \<open>\<^verbatim>\<open>^Deprecated by \[([^\]]+)\]\(([^)]+)\)\<close>: replacement name and URL.\<close>

definition matchDeprecatedBy :: "string \<Rightarrow> (string \<times> string) option" where
  "matchDeprecatedBy s =
     (case dropPrefix ''Deprecated by ['' s of
        None \<Rightarrow> None
      | Some r \<Rightarrow>
          let n = takeWhile (\<lambda>c. c \<noteq> CHR '']'') r in
          if n = [] then None
          else (case dropPrefix '']('' (dropWhile (\<lambda>c. c \<noteq> CHR '']'') r) of
                  None \<Rightarrow> None
                | Some r' \<Rightarrow> (case matchUrl r' of None \<Rightarrow> None | Some u \<Rightarrow> Some (n, u))))"

text \<open>\<^verbatim>\<open>^\[Documentation\]\(([^)]+)\)\<close>, after the prefix \<open>pre\<close> (empty, or the comment
  marker when the pattern is applied to a whole line).\<close>

definition matchDocumentation :: "string \<Rightarrow> string \<Rightarrow> string option" where
  "matchDocumentation pre s =
     (case dropPrefix (pre @ ''[Documentation]('') s of None \<Rightarrow> None | Some r \<Rightarrow> matchUrl r)"

text \<open>
  \<^verbatim>\<open>^@param\s+(\w+)(\?)?\s+(\S+)\s*(.*)?$\<close>, and the same pattern with
  \<^verbatim>\<open>---@field\<close> for \<open>tag\<close>. The last group cannot cross a line terminator, and no
  other choice of the earlier groups lets the match reach the end of the text.
\<close>

definition matchParam :: "string \<Rightarrow> string \<Rightarrow> param_rec option" where
  "matchParam tag s =
     (case dropPrefix tag s of
        None \<Rightarrow> None
      | Some r0 \<Rightarrow>
          if takeWhile isSpace r0 = [] then None
          else let r1 = dropWhile isSpace r0; nm = takeWhile isWord r1; r2 = dropWhile isWord r1;
                   opt = (take 1 r2 = ''?'');
                   r3 = (if opt then drop 1 r2 else r2);
                   r4 = dropWhile isSpace r3;
                   ty = takeWhile notSpace r4;
                   d = dropWhile isSpace (dropWhile notSpace r4) in
            if nm = [] \<or> takeWhile isSpace r3 = [] \<or> ty = [] \<or> list_ex isLineTerminator d
            then None
            else Some \<lparr>pname = nm, poptional = opt, ptype = ty, pdescription = orNull d\<rparr>)"

text \<open>\<^verbatim>\<open>^@return\s+(\S+)\s*(\w+)?\s*(.*)?$\<close>.\<close>

definition matchReturn :: "string \<Rightarrow> return_rec option" where
  "matchReturn s =
     (case dropPrefix ''@return'' s of
        None \<Rightarrow> None
      | Some r0 \<Rightarrow>
          if takeWhile isSpace r0 = [] then None
          else let r1 = dropWhile isSpace r0; ty = takeWhile notSpace r1;
                   r2 = dropWhile isSpace (dropWhile notSpace r1);
                   nm = takeWhile isWord r2;
                   d = dropWhile isSpace (dropWhile isWord r2) in
            if ty = [] \<or> list_ex isLineTerminator d then None
            else Some \<lparr>rtype = ty, rname = orNull nm, rdescription = orNull d\<rparr>)"

text \<open>One line of the block, in the order of the tests of the source; \<open>descParts\<close> is
  the second component of the state.\<close>

definition annotationLine :: "string \<Rightarrow> func_rec \<times> string list \<Rightarrow> func_rec \<times> string list" where
  "annotationLine line acc =
     (let result = fst acc; descParts = snd acc; txt = stripMarker line in
      if txt = ''@deprecated'' then (result\<lparr>deprecated := True\<rparr>, descParts)
      else case matchDeprecatedBy txt of
        Some (n, u) \<Rightarrow> (result\<lparr>replacedBy := Some n, replacedByUrl := Some u\<rparr>, descParts)
      | None \<Rightarrow>
      (case matchDocumentation [] txt of
        Some u \<Rightarrow> (result\<lparr>wikiUrl := Some u\<rparr>, descParts)
      | None \<Rightarrow>
      (case matchParam ''@param'' txt of
        Some p \<Rightarrow> (result\<lparr>params := params result @ [p]\<rparr>, descParts)
      | None \<Rightarrow>
      (case matchReturn txt of
        Some r \<Rightarrow> (result\<lparr>returns := returns result @ [r]\<rparr>, descParts)
      | None \<Rightarrow>
          if startsWith txt ''@'' \<or> startsWith txt ''#'' then (result, descParts)
          else if trim txt \<noteq> [] then (result, descParts @ [trim txt])
          else (result, descParts)))))"

text \<open>\<^verbatim>\<open>{ ...funcInfo, ...annotation }\<close>: the block's fields written into the identity
  fields \<open>info\<close> of the function.\<close>

definition parseAnnotationBlock :: "string list \<Rightarrow> func_rec \<Rightarrow> func_rec" where
  "parseAnnotationBlock lines info =
     (let acc = fold annotationLine lines (info, []) in
      (fst acc)\<lparr>description := (if snd acc \<noteq> [] then Some (join '' '' (snd acc)) else None)\<rparr>)"

subsection \<open>\<^verbatim>\<open>parseLuaFile\<close>\<close>

text \<open>\<^verbatim>\<open>[\w.,\s]\<close>, the characters of a parent list.\<close>

definition isParentChar :: "char \<Rightarrow> bool" where
  "isParentChar c = (isWord c \<or> c = CHR ''.'' \<or> c = CHR '','' \<or> isSpace c)"

text \<open>
  The optional group \<^verbatim>\<open>(?:\s*:\s*([\w.,\s]+))?\<close> after the class name. White space
  belongs to the class of the captured group: when nothing of that class follows the white
  space after the colon, the matcher gives the last white space character back to the
  group.
\<close>

definition matchParents :: "string \<Rightarrow> string option" where
  "matchParents s =
     (case dropWhile isSpace s of
        [] \<Rightarrow> None
      | c # r \<Rightarrow>
          if c \<noteq> CHR '':'' then None
          else let ws = takeWhile isSpace r; g = takeWhile isParentChar (dropWhile isSpace r) in
            if g \<noteq> [] then Some g
            else if ws \<noteq> [] then Some [last ws]
            else None)"

text \<open>\<^verbatim>\<open>^---@class\s+([\w.]+)(?:\s*:\s*([\w.,\s]+))?\<close>: the class name and the text of
  the parent list.\<close>

definition matchClass :: "string \<Rightarrow> (string \<times> string option) option" where
  "matchClass aLine =
     (case dropPrefix ''---@class'' aLine of
        None \<Rightarrow> None
      | Some r0 \<Rightarrow>
          if takeWhile isSpace r0 = [] then None
          else let r1 = dropWhile isSpace r0; nm = takeWhile isWordDot r1 in
            if nm = [] then None
            else Some (nm, matchParents (dropWhile isWordDot r1)))"

text \<open>The inner loop over the block: the fields and the documentation link.\<close>

definition classFieldLine :: "string \<Rightarrow> class_rec \<Rightarrow> class_rec" where
  "classFieldLine fLine classDef =
     (let c1 = (case matchParam ''---@field'' fLine of
                  Some f \<Rightarrow> classDef\<lparr>cfields := cfields classDef @ [f]\<rparr>
                | None \<Rightarrow> classDef) in
      case matchDocumentation ''---'' fLine of
        Some u \<Rightarrow> c1\<lparr>cwikiUrl := Some u\<rparr>
      | None \<Rightarrow> c1)"

definition classLine :: "string list \<Rightarrow> string \<Rightarrow> class_rec list \<Rightarrow> class_rec list" where
  "classLine annotationLines aLine classes =
     (case matchClass aLine of
        None \<Rightarrow> classes
      | Some (nm, parents) \<Rightarrow>
          classes @
          [fold classFieldLine annotationLines
             \<lparr>cname = nm,
              inherits = (case parents of
                            Some ps \<Rightarrow> map trim (splitOn (CHR '','') ps)
                          | None \<Rightarrow> []),
              cfields = [], cwikiUrl = None\<rparr>])"

text \<open>The result of \<^verbatim>\<open>parseLuaFile\<close>; its third component \<^verbatim>\<open>enums\<close> is never
  written.\<close>

record parsed_file =
  p_functions :: "func_rec list"
  p_classes :: "class_rec list"
  p_enums :: "unit list"

text \<open>The state of the loop over the lines: the two result lists and the pending
  comment block.\<close>

record lua_state =
  l_functions :: "func_rec list"
  l_classes :: "class_rec list"
  l_annotationLines :: "string list"

definition luaLine :: "string \<Rightarrow> lua_state \<Rightarrow> lua_state" where
  "luaLine rawLine ls =
     (let line = trim rawLine in
      if startsWith line ''---'' then ls\<lparr>l_annotationLines := l_annotationLines ls @ [line]\<rparr>
      else if startsWith line ''function '' then
        (case parseFunctionLine line of
           Some info \<Rightarrow>
             ls\<lparr>l_functions := l_functions ls @ [parseAnnotationBlock (l_annotationLines ls) info],
                l_annotationLines := []\<rparr>
         | None \<Rightarrow> ls\<lparr>l_annotationLines := []\<rparr>)
      else
        ls\<lparr>l_classes := fold (classLine (l_annotationLines ls)) (l_annotationLines ls) (l_classes ls),
           l_annotationLines := []\<rparr>)"

definition parseLuaLines :: "string list \<Rightarrow> parsed_file" where
  "parseLuaLines lines =
     (let ls = fold luaLine lines \<lparr>l_functions = [], l_classes = [], l_annotationLines = []\<rparr> in
      \<lparr>p_functions = l_functions ls, p_classes = l_classes ls, p_enums = []\<rparr>)"

text \<open>\<^verbatim>\<open>parseLuaFile\<close>, applied to the content of the file.\<close>

definition parseLuaFile :: "string \<Rightarrow> parsed_file" where
  "parseLuaFile content = parseLuaLines (splitLines content)"

subsection \<open>\<^verbatim>\<open>parseEnumFile\<close>\<close>

text \<open>\<^verbatim>\<open>^---@enum\s+([\w.]+)\<close>.\<close>

definition matchEnumStart :: "string \<Rightarrow> string option" where
  "matchEnumStart line =
     (case dropPrefix ''---@enum'' line of
        None \<Rightarrow> None
      | Some r0 \<Rightarrow>
          if takeWhile isSpace r0 = [] then None
          else let nm = takeWhile isWordDot (dropWhile isSpace r0) in
            if nm = [] then None else Some nm)"

text \<open>\<^verbatim>\<open>^[\w.]+ = \{$\<close>.\<close>

definition matchOpenBrace :: "string \<Rightarrow> bool" where
  "matchOpenBrace line = (takeWhile isWordDot line \<noteq> [] \<and> dropWhile isWordDot line = '' = {'')"

text \<open>\<^verbatim>\<open>^(\w+)\s*=\s*(\d+),?$\<close>: the member's name and its digits.\<close>

definition matchKeyValue :: "string \<Rightarrow> (string \<times> string) option" where
  "matchKeyValue line =
     (let k = takeWhile isWord line in
      if k = [] then None
      else (case dropWhile isSpace (dropWhile isWord line) of
              [] \<Rightarrow> None
            | c # r \<Rightarrow>
                if c \<noteq> CHR ''='' then None
                else let r1 = dropWhile isSpace r; ds = takeWhile isDigit r1; r2 = dropWhile isDigit r1 in
                  if ds \<noteq> [] \<and> (r2 = [] \<or> r2 = '','') then Some (k, ds) else None))"

text \<open>The state of the loop: \<^verbatim>\<open>enums\<close>, \<^verbatim>\<open>currentEnum\<close> and \<^verbatim>\<open>currentValues\<close>.\<close>

record enum_state =
  e_enums :: "int js_object js_object"
  currentEnum :: "string option"
  currentValues :: "int js_object"

definition enumLine :: "string \<Rightarrow> enum_state \<Rightarrow> enum_state" where
  "enumLine rawLine es =
     (let line = trim rawLine in
      case matchEnumStart line of
        Some nm \<Rightarrow> es\<lparr>currentEnum := Some nm, currentValues := []\<rparr>
      | None \<Rightarrow>
          (case currentEnum es of
             None \<Rightarrow> es
           | Some cur \<Rightarrow>
               if cur = [] then es
               else if matchOpenBrace line then es
               else if line = ''}'' then
                 es\<lparr>e_enums := obj_set cur (currentValues es) (e_enums es),
                    currentEnum := None, currentValues := []\<rparr>
               else (case matchKeyValue line of
                       Some (k, ds) \<Rightarrow> es\<lparr>currentValues := obj_set k (parseIntDec ds) (currentValues es)\<rparr>
                     | None \<Rightarrow> es)))"

definition parseEnumLines :: "string list \<Rightarrow> int js_object js_object" where
  "parseEnumLines lines =
     e_enums (fold enumLine lines \<lparr>e_enums = [], currentEnum = None, currentValues = []\<rparr>)"

definition parseEnumFile :: "string \<Rightarrow> int js_object js_object" where
  "parseEnumFile content = parseEnumLines (splitLines content)"

subsection \<open>\<^verbatim>\<open>parseEventFile\<close> and \<^verbatim>\<open>parseCVarFile\<close>\<close>

text \<open>\<^verbatim>\<open>^\s*---\|"([^"]+)"\<close>: the quoted name, and the text after the closing quote.\<close>

definition matchQuotedAlias :: "string \<Rightarrow> (string \<times> string) option" where
  "matchQuotedAlias line =
     (case dropPrefix (''---|'' @ [CHR 0x22]) (dropWhile isSpace line) of
        None \<Rightarrow> None
      | Some r \<Rightarrow>
          let nm = takeWhile (\<lambda>c. c \<noteq> CHR 0x22) r in
          (case dropWhile (\<lambda>c. c \<noteq> CHR 0x22) r of
             [] \<Rightarrow> None
           | q # r' \<Rightarrow> if nm = [] then None else Some (nm, r')))"

text \<open>The optional group \<^verbatim>\<open>(?:\s*#\s*`([^`]*)`)?\<close>: the text between the back-ticks.\<close>

definition matchPayload :: "string \<Rightarrow> string option" where
  "matchPayload s =
     (case dropWhile isSpace s of
        [] \<Rightarrow> None
      | c # r \<Rightarrow>
          if c \<noteq> CHR ''#'' then None
          else (case dropWhile isSpace r of
                  [] \<Rightarrow> None
                | b # r' \<Rightarrow>
                    if b \<noteq> CHR 0x60 then None
                    else if dropWhile (\<lambda>x. x \<noteq> CHR 0x60) r' = [] then None
                    else Some (takeWhile (\<lambda>x. x \<noteq> CHR 0x60) r')))"

definition eventLine :: "string \<Rightarrow> event_rec js_object \<Rightarrow> event_rec js_object" where
  "eventLine line evs =
     (case matchQuotedAlias line of
        None \<Rightarrow> evs
      | Some (nm, r) \<Rightarrow>
          obj_set nm \<lparr>ename = nm,
                      payload = (case matchPayload r of None \<Rightarrow> None | Some pl \<Rightarrow> orNull pl)\<rparr> evs)"

definition parseEventFile :: "string \<Rightarrow> event_rec js_object" where
  "parseEventFile content = fold eventLine (splitLines content) []"

definition cvarLine :: "string \<Rightarrow> string list \<Rightarrow> string list" where
  "cvarLine line cvs =
     (case matchQuotedAlias line of None \<Rightarrow> cvs | Some (nm, r) \<Rightarrow> cvs @ [nm])"

definition parseCVarFile :: "string \<Rightarrow> string list" where
  "parseCVarFile content = fold cvarLine (splitLines content) []"

subsection \<open>\<^verbatim>\<open>extractPatchFromFilename\<close>\<close>

text \<open>\<^verbatim>\<open>Deprecated_(\d+)_(\d+)_(\d+)\<close> at the start of \<open>s\<close>: the three groups.\<close>

definition matchPatchHere :: "string \<Rightarrow> (string \<times> string \<times> string) option" where
  "matchPatchHere s =
     (case dropPrefix ''Deprecated_'' s of
        None \<Rightarrow> None
      | Some r0 \<Rightarrow>
          let a = takeWhile isDigit r0 in
          (case dropPrefix ''_'' (dropWhile isDigit r0) of
             None \<Rightarrow> None
           | Some r1 \<Rightarrow>
               let b = takeWhile isDigit r1 in
               (case dropPrefix ''_'' (dropWhile isDigit r1) of
                  None \<Rightarrow> None
                | Some r2 \<Rightarrow>
                    let c = takeWhile isDigit r2 in
                    if a = [] \<or> b = [] \<or> c = [] then None else Some (a, b, c))))"

text \<open>The pattern is not anchored: the match is the leftmost one.\<close>

fun extractPatchFromFilename :: "string \<Rightarrow> string option" where
  "extractPatchFromFilename [] = None"
| "extractPatchFromFilename (x # xs) =
     (case matchPatchHere (x # xs) of
        Some (a, b, c) \<Rightarrow> Some (a @ ''.'' @ b @ ''.'' @ c)
      | None \<Rightarrow> extractPatchFromFilename xs)"

subsection \<open>\<^verbatim>\<open>parseFlavorFile\<close> and \<^verbatim>\<open>parseDeprecatedFile\<close>\<close>

definition hexValue :: "char \<Rightarrow> int" where
  "hexValue c =
     (if isDigit c then (of_char c :: int) - 48
      else if isUpper c then (of_char c :: int) - 55
      else (of_char c :: int) - 87)"

text \<open>\<^verbatim>\<open>parseInt(text)\<close> for a text the pattern \<^verbatim>\<open>0x[0-9a-fA-F]+|\d+\<close> has matched: base
  16 after the prefix \<^verbatim>\<open>0x\<close>, base 10 otherwise (exact where a JavaScript number is).\<close>

definition parseIntAuto :: "string \<Rightarrow> int" where
  "parseIntAuto t =
     (case dropPrefix ''0x'' t of
        Some h \<Rightarrow> foldl (\<lambda>n c. 16 * n + hexValue c) 0 h
      | None \<Rightarrow> parseIntDec t)"

text \<open>
  \<^verbatim>\<open>\["([^"]+)"\]\s*:\s*(0x[0-9a-fA-F]+|\d+)\<close> at the start of \<open>s\<close>: the name, the text
  of the number and what follows the match. The first alternative is tried first.
\<close>

definition matchFlavorHere :: "string \<Rightarrow> (string \<times> string \<times> string) option" where
  "matchFlavorHere s =
     (case dropPrefix (''['' @ [CHR 0x22]) s of
        None \<Rightarrow> None
      | Some r0 \<Rightarrow>
          let nm = takeWhile (\<lambda>c. c \<noteq> CHR 0x22) r0 in
          if nm = [] then None
          else (case dropPrefix ([CHR 0x22] @ '']'') (dropWhile (\<lambda>c. c \<noteq> CHR 0x22) r0) of
                  None \<Rightarrow> None
                | Some r1 \<Rightarrow>
                    (case dropWhile isSpace r1 of
                       [] \<Rightarrow> None
                     | c # r2 \<Rightarrow>
                         if c \<noteq> CHR '':'' then None
                         else let r3 = dropWhile isSpace r2 in
                           (case dropPrefix ''0x'' r3 of
                              Some h \<Rightarrow>
                                if takeWhile isHexDigit h \<noteq> []
                                then Some (nm, ''0x'' @ takeWhile isHexDigit h, dropWhile isHexDigit h)
                                else Some (nm, takeWhile isDigit r3, dropWhile isDigit r3)
                            | None \<Rightarrow>
                                if takeWhile isDigit r3 \<noteq> []
                                then Some (nm, takeWhile isDigit r3, dropWhile isDigit r3)
                                else None))))"

text \<open>The \<^verbatim>\<open>exec\<close> loop of the global pattern: every match from left to right, the
  search going on where the last match ended. \<open>skip\<close> counts the characters of the last
  match that are still to be passed over.\<close>

fun flavorScan :: "nat \<Rightarrow> string \<Rightarrow> (string \<times> string) list" where
  "flavorScan skip [] = []"
| "flavorScan (Suc skip) (c # cs) = flavorScan skip cs"
| "flavorScan 0 (c # cs) =
     (case matchFlavorHere (c # cs) of
        Some (nm, num, rest) \<Rightarrow> (nm, num) # flavorScan (length cs - length rest) cs
      | None \<Rightarrow> flavorScan 0 cs)"

definition flavorMatches :: "string \<Rightarrow> (string \<times> string) list" where
  "flavorMatches content = flavorScan 0 content"

definition parseFlavorFile :: "string \<Rightarrow> string list js_object" where
  "parseFlavorFile content =
     fold (\<lambda>m. obj_set (fst m) (decodeFlavorBitmask (parseIntAuto (snd m)))) (flavorMatches content) []"

text \<open>\<^verbatim>\<open>"([^"]+)"\<close> at the start of \<open>s\<close>: the quoted text and what follows the match.\<close>

definition matchQuotedHere :: "string \<Rightarrow> (string \<times> string) option" where
  "matchQuotedHere s =
     (case s of
        [] \<Rightarrow> None
      | q # r \<Rightarrow>
          if q \<noteq> CHR 0x22 then None
          else (case dropWhile (\<lambda>c. c \<noteq> CHR 0x22) r of
                  [] \<Rightarrow> None
                | q' # r' \<Rightarrow>
                    if takeWhile (\<lambda>c. c \<noteq> CHR 0x22) r = [] then None
                    else Some (takeWhile (\<lambda>c. c \<noteq> CHR 0x22) r, r')))"

fun quotedScan :: "nat \<Rightarrow> string \<Rightarrow> string list" where
  "quotedScan skip [] = []"
| "quotedScan (Suc skip) (c # cs) = quotedScan skip cs"
| "quotedScan 0 (c # cs) =
     (case matchQuotedHere (c # cs) of
        Some (nm, rest) \<Rightarrow> nm # quotedScan (length cs - length rest) cs
      | None \<Rightarrow> quotedScan 0 cs)"

definition quotedMatches :: "string \<Rightarrow> string list" where
  "quotedMatches content = quotedScan 0 content"

definition parseDeprecatedFile :: "string \<Rightarrow> string list" where
  "parseDeprecatedFile content =
     filter (\<lambda>nm. nm \<noteq> ''__esModule'' \<and> nm \<noteq> ''use strict'') (quotedMatches content)"

text \<open>
  Function objects are shared: the function index, the namespace lists and the method
  lists of the widgets hold references to the same objects, and the last step of
  \<^verbatim>\<open>load\<close> writes to them. The store keeps the objects in a heap; a reference is the
  position of the object in the heap.
\<close>

type_synonym ref = nat

record widget_rec =
  classInfo :: "class_rec option"
  methods :: "ref list"

record store =
  heap :: "func_rec list"
  functionIndex :: "(string, ref) js_map"
  namespaces :: "(string, ref list) js_map"
  widgets :: "(string, widget_rec) js_map"
  enums :: "int js_object js_object"
  events :: "event_rec js_object"
  cvars :: "string list"
  deprecatedList :: "string list"
  flavorMap :: "string list js_object"
  extensionVersion :: "string option"

text \<open>The store the constructor builds.\<close>

definition emptyStore :: store where
  "emptyStore = \<lparr>heap = [], functionIndex = [], namespaces = [], widgets = [], enums = [],
     events = [], cvars = [], deprecatedList = [], flavorMap = [], extensionVersion = None\<rparr>"

definition obj :: "store \<Rightarrow> ref \<Rightarrow> func_rec" where
  "obj st r = heap st ! r"

section \<open>Query methods\<close>

text \<open>\<^verbatim>\<open>func.name || key\<close>.\<close>

definition shortNameOf :: "func_rec \<Rightarrow> string \<Rightarrow> string" where
  "shortNameOf func key = (if name func \<noteq> [] then name func else key)"

definition lookupApi :: "store \<Rightarrow> string \<Rightarrow> ref list" where
  "lookupApi st nm =
     (case map_get (functionIndex st) nm of
        Some func \<Rightarrow> [func]
      | None \<Rightarrow>
         (case find (\<lambda>e. toLowerCase (fst e) = toLowerCase nm) (functionIndex st) of
            Some e \<Rightarrow> [snd e]
          | None \<Rightarrow>
             take 25 (map snd (filter
               (\<lambda>e. toLowerCase (shortNameOf (obj st (snd e)) (fst e)) = toLowerCase nm
                    \<or> includesStr (toLowerCase (fst e)) (toLowerCase nm))
               (functionIndex st)))))"

text \<open>\<^verbatim>\<open>[func.fullName, func.name, func.description].filter(Boolean).join(' ').toLowerCase()\<close>.\<close>

definition searchable :: "func_rec \<Rightarrow> string" where
  "searchable func =
     toLowerCase (join '' '' (filter (\<lambda>s. s \<noteq> [])
       ([fullName func, name func] @ (case description func of None \<Rightarrow> [] | Some d \<Rightarrow> [d]))))"

definition searchApi :: "store \<Rightarrow> string \<Rightarrow> ref list" where
  "searchApi st query =
     take 50 (map snd (filter
       (\<lambda>e. includesStr (searchable (obj st (snd e))) (toLowerCase query)) (functionIndex st)))"


text \<open>\<^verbatim>\<open>listDeprecated\<close>; \<open>None\<close> is a call without the filter.\<close>

definition listDeprecated :: "store \<Rightarrow> string option \<Rightarrow> ref list" where
  "listDeprecated st namespaceFilter =
     map snd (filter
       (\<lambda>e. let func = obj st (snd e) in
          deprecated func
          \<and> \<not> (truthy namespaceFilter \<and> truthy (namespace func)
               \<and> \<not> includesStr (toLowerCase (case namespace func of Some ns \<Rightarrow> ns | None \<Rightarrow> []))
                                 (toLowerCase (case namespaceFilter of Some f \<Rightarrow> f | None \<Rightarrow> [])))
          \<and> \<not> (truthy namespaceFilter \<and> \<not> truthy (namespace func)
               \<and> \<not> includesStr (toLowerCase (fullName func))
                                 (toLowerCase (case namespaceFilter of Some f \<Rightarrow> f | None \<Rightarrow> []))))
       (functionIndex st))"

definition getNamespace :: "store \<Rightarrow> string \<Rightarrow> ref list" where
  "getNamespace st nm =
     (case map_get (namespaces st) nm of
        Some funcs \<Rightarrow> funcs
      | None \<Rightarrow>
          (case find (\<lambda>e. toLowerCase (fst e) = toLowerCase nm) (namespaces st) of
             Some e \<Rightarrow> snd e
           | None \<Rightarrow> []))"

text \<open>\<^verbatim>\<open>[...keys].sort()\<close>: the keys in the order of their code units.\<close>

definition listNamespaces :: "store \<Rightarrow> string list" where
  "listNamespaces st = sort (map_keys (namespaces st))"

definition getWidgetMethods :: "store \<Rightarrow> string \<Rightarrow> widget_rec option" where
  "getWidgetMethods st widgetType =
     (case map_get (widgets st) widgetType of
        Some w \<Rightarrow> Some w
      | None \<Rightarrow>
          (case find (\<lambda>e. toLowerCase (fst e) = toLowerCase widgetType) (widgets st) of
             Some e \<Rightarrow> Some (snd e)
           | None \<Rightarrow> None))"

definition listWidgets :: "store \<Rightarrow> string list" where
  "listWidgets st = sort (map_keys (widgets st))"

text \<open>
  What \<^verbatim>\<open>getEnum\<close> returns: the table \<^verbatim>\<open>this.enums[name]\<close>, which is a member of
  \<^verbatim>\<open>Object.prototype\<close> when \<open>name\<close> is no enum but the name of such a member; or the object
  \<^verbatim>\<open>{ [key]: values }\<close>; or \<open>null\<close>, which is \<open>None\<close>.
\<close>

datatype enum_result =
  EnumTable "int js_object"
| EnumEntry string "int js_object"
| EnumInherited string

definition getEnum :: "store \<Rightarrow> string \<Rightarrow> enum_result option" where
  "getEnum st nm =
     (case obj_get (enums st) nm of
        Some (Own vs) \<Rightarrow> Some (EnumTable vs)
      | Some (Inherited k) \<Rightarrow> Some (EnumInherited k)
      | None \<Rightarrow>
          (case find (\<lambda>e. toLowerCase (fst e) = toLowerCase nm
                          \<or> includesStr (toLowerCase (fst e)) (toLowerCase nm))
                  (obj_entries (enums st)) of
             Some e \<Rightarrow> Some (EnumEntry (fst e) (snd e))
           | None \<Rightarrow> None))"

definition searchEnums :: "store \<Rightarrow> string \<Rightarrow> int js_object js_object" where
  "searchEnums st query =
     fold (\<lambda>e results. if includesStr (toLowerCase (fst e)) (toLowerCase query)
                        then obj_set (fst e) (snd e) results else results)
       (obj_entries (enums st)) []"

text \<open>
  \<^verbatim>\<open>getEvent\<close>. An upper case form with a character above 255 is no key of the table
  and part of no key, so that the lookup and the search both fail.
\<close>

datatype event_result =
  EventRecord event_rec
| EventList "event_rec list"
| EventInherited string

definition getEvent :: "store \<Rightarrow> string \<Rightarrow> event_result option" where
  "getEvent st nm =
     (case toUpperCase nm of
        None \<Rightarrow> None
      | Some upperName \<Rightarrow>
          (case obj_get (events st) upperName of
             Some (Own ev) \<Rightarrow> Some (EventRecord ev)
           | Some (Inherited k) \<Rightarrow> Some (EventInherited k)
           | None \<Rightarrow>
               (let results = map snd (filter (\<lambda>e. includesStr (fst e) upperName)
                                         (obj_entries (events st))) in
                if results \<noteq> [] then Some (EventList results) else None)))"

record stats =
  s_extensionVersion :: "string option"
  totalFunctions :: nat
  deprecatedFunctions :: nat
  s_namespaces :: nat
  widgetTypes :: nat
  s_enums :: nat
  s_events :: nat
  s_cvars :: nat

definition getStats :: "store \<Rightarrow> stats" where
  "getStats st =
     \<lparr>s_extensionVersion = extensionVersion st,
      totalFunctions = length (functionIndex st),
      deprecatedFunctions = length (filter (\<lambda>e. deprecated (obj st (snd e))) (functionIndex st)),
      s_namespaces = length (namespaces st),
      widgetTypes = length (widgets st),
      s_enums = length (obj_entries (enums st)),
      s_events = length (obj_entries (events st)),
      s_cvars = length (cvars st)\<rparr>"

section \<open>Loading the index\<close>

text \<open>
  What \<^verbatim>\<open>load\<close> reads below the extension directory: the version of
  \<^verbatim>\<open>package.json\<close> (\<open>None\<close> when the file cannot be read or parsed), the content of each
  single file (\<open>None\<close> when the file does not exist), and for each directory the paths and
  contents of the files \<^verbatim>\<open>findLuaFiles\<close> returns, in its order; the files of the five
  FrameXML directories are listed one directory after the other.
\<close>

record corpus =
  packageVersion :: "string option option"
  flavorJs :: "string option"
  deprecatedJs :: "string option"
  blizzardDocFiles :: "(string \<times> string) list"
  deprecatedFiles :: "(string \<times> string) list"
  wikiLua :: "string option"
  widgetFiles :: "(string \<times> string) list"
  frameXmlFiles :: "(string \<times> string) list"
  enumLua :: "string option"
  eventLua :: "string option"
  cvarLua :: "string option"

text \<open>The parser's objects are values until they are indexed; indexing puts the object
  into the heap, at the next free position.\<close>

definition newRef :: "store \<Rightarrow> ref" where
  "newRef st = length (heap st)"

text \<open>\<^verbatim>\<open>this.namespaces.get(ns).push(func)\<close>, after the list has been created when absent.\<close>

definition pushNamespace :: "string \<Rightarrow> ref \<Rightarrow> (string, ref list) js_map \<Rightarrow> (string, ref list) js_map" where
  "pushNamespace ns r m =
     (case map_get m ns of
        None \<Rightarrow> map_set ns [r] m
      | Some rs \<Rightarrow> map_set ns (rs @ [r]) m)"

text \<open>The first two statements of \<^verbatim>\<open>_indexFunction\<close>: the provenance tag, and an empty
  version list when the object has none.\<close>

definition stampSource :: "func_rec \<Rightarrow> string \<Rightarrow> func_rec" where
  "stampSource func src =
     func\<lparr>source := Some src,
          gameVersions := (case gameVersions func of
                             None \<Rightarrow> Some (Versions [])
                           | Some v \<Rightarrow> Some v)\<rparr>"

text \<open>\<^verbatim>\<open>_indexFunction\<close>.\<close>

definition indexFunction :: "func_rec \<Rightarrow> string \<Rightarrow> store \<Rightarrow> store" where
  "indexFunction func src st =
     (let func1 = stampSource func src;
          r = newRef st;
          st1 = st\<lparr>heap := heap st @ [func1],
                   functionIndex := map_set (fullName func1) r (functionIndex st)\<rparr>
      in if truthy (namespace func1) \<and> \<not> isMethod func1
         then st1\<lparr>namespaces :=
                    pushNamespace (case namespace func1 of Some ns \<Rightarrow> ns | None \<Rightarrow> []) r (namespaces st1)\<rparr>
         else st1)"

text \<open>\<^verbatim>\<open>_indexClass\<close>.\<close>

definition indexClass :: "class_rec \<Rightarrow> store \<Rightarrow> store" where
  "indexClass cls st =
     (case map_get (widgets st) (cname cls) of
        None \<Rightarrow> st\<lparr>widgets := map_set (cname cls) \<lparr>classInfo = Some cls, methods = []\<rparr> (widgets st)\<rparr>
      | Some w \<Rightarrow> st\<lparr>widgets := map_set (cname cls) (w\<lparr>classInfo := Some cls\<rparr>) (widgets st)\<rparr>)"

text \<open>Step 2: the names of the deprecated list, added to a \<^verbatim>\<open>Set\<close>.\<close>

definition addDeprecatedName :: "string \<Rightarrow> store \<Rightarrow> store" where
  "addDeprecatedName nm st =
     (if nm \<in> set (deprecatedList st) then st
      else st\<lparr>deprecatedList := deprecatedList st @ [nm]\<rparr>)"

text \<open>Step 3: a file of the official documentation.\<close>

definition blizzardFile :: "string \<times> string \<Rightarrow> store \<Rightarrow> store" where
  "blizzardFile file st =
     (let parsed = parseLuaFile (snd file) in
      fold indexClass (p_classes parsed)
        (fold (\<lambda>func. indexFunction func ''blizzard'') (p_functions parsed) st))"

text \<open>Step 4: a file of the deprecated API.\<close>

definition deprecatedFunction :: "string option \<Rightarrow> func_rec \<Rightarrow> store \<Rightarrow> store" where
  "deprecatedFunction patchVersion func st =
     indexFunction (func\<lparr>deprecatedInPatch := patchVersion, deprecated := True\<rparr>) ''deprecated'' st"

definition deprecatedFile :: "string \<times> string \<Rightarrow> store \<Rightarrow> store" where
  "deprecatedFile file st =
     (let patchVersion = extractPatchFromFilename (fst file);
          parsed = parseLuaFile (snd file) in
      fold (deprecatedFunction patchVersion) (p_functions parsed) st)"

text \<open>Step 5: a function of the Wiki file.\<close>

definition wikiFunction :: "func_rec \<Rightarrow> store \<Rightarrow> store" where
  "wikiFunction func st =
     (let func1 = (if shortNameOf func (fullName func) \<in> set (deprecatedList st)
                   then func\<lparr>deprecated := True\<rparr> else func) in
      if \<not> map_has (functionIndex st) (fullName func1)
      then indexFunction func1 ''wiki'' st
      else st)"

definition wikiFile :: "string \<Rightarrow> store \<Rightarrow> store" where
  "wikiFile content st = fold wikiFunction (p_functions (parseLuaFile content)) st"

text \<open>Step 6: a file of the widget API. A method is also pushed to the method list of
  its owner.\<close>

definition pushMethod :: "string \<Rightarrow> ref \<Rightarrow> (string, widget_rec) js_map \<Rightarrow> (string, widget_rec) js_map" where
  "pushMethod ns r m =
     (case map_get m ns of
        None \<Rightarrow> map_set ns \<lparr>classInfo = None, methods = [r]\<rparr> m
      | Some w \<Rightarrow> map_set ns (w\<lparr>methods := methods w @ [r]\<rparr>) m)"

definition widgetFunction :: "func_rec \<Rightarrow> store \<Rightarrow> store" where
  "widgetFunction func st =
     (let r = newRef st;
          st1 = indexFunction func ''widget'' st
      in if isMethod func \<and> truthy (namespace func)
         then st1\<lparr>widgets := pushMethod (case namespace func of Some ns \<Rightarrow> ns | None \<Rightarrow> []) r (widgets st1)\<rparr>
         else st1)"

definition widgetFile :: "string \<times> string \<Rightarrow> store \<Rightarrow> store" where
  "widgetFile file st =
     (let parsed = parseLuaFile (snd file) in
      fold widgetFunction (p_functions parsed) (fold indexClass (p_classes parsed) st))"

text \<open>Step 7: a file of the FrameXML directories.\<close>

definition frameXmlFunction :: "func_rec \<Rightarrow> store \<Rightarrow> store" where
  "frameXmlFunction func st =
     (if \<not> map_has (functionIndex st) (fullName func)
      then indexFunction func ''framexml'' st
      else st)"

definition frameXmlFile :: "string \<times> string \<Rightarrow> store \<Rightarrow> store" where
  "frameXmlFile file st =
     (let parsed = parseLuaFile (snd file) in
      fold frameXmlFunction (p_functions parsed) (fold indexClass (p_classes parsed) st))"

text \<open>The last step: the flavor data, written into the indexed function objects.\<close>

definition versionsOf :: "string list js_prop \<Rightarrow> versions" where
  "versionsOf v = (case v of Own vs \<Rightarrow> Versions vs | Inherited k \<Rightarrow> PrototypeMember k)"

definition applyFlavor :: "string \<times> ref \<Rightarrow> store \<Rightarrow> store" where
  "applyFlavor e st =
     (let func = obj st (snd e);
          shortName = shortNameOf func (fst e)
      in case obj_get (flavorMap st) shortName of
           Some v \<Rightarrow> st\<lparr>heap := (heap st)[snd e := func\<lparr>gameVersions := Some (versionsOf v)\<rparr>]\<rparr>
         | None \<Rightarrow>
             (case obj_get (flavorMap st) (fst e) of
                Some v \<Rightarrow> st\<lparr>heap := (heap st)[snd e := func\<lparr>gameVersions := Some (versionsOf v)\<rparr>]\<rparr>
              | None \<Rightarrow> st))"

text \<open>The steps of \<^verbatim>\<open>load\<close>, in order, once the extension directory is found.\<close>

definition loadVersion :: "corpus \<Rightarrow> store \<Rightarrow> store" where
  "loadVersion c st =
     st\<lparr>extensionVersion := (case packageVersion c of None \<Rightarrow> Some ''unknown'' | Some v \<Rightarrow> v)\<rparr>"

definition loadFlavor :: "corpus \<Rightarrow> store \<Rightarrow> store" where
  "loadFlavor c st =
     (case flavorJs c of None \<Rightarrow> st | Some content \<Rightarrow> st\<lparr>flavorMap := parseFlavorFile content\<rparr>)"

definition loadDeprecatedList :: "corpus \<Rightarrow> store \<Rightarrow> store" where
  "loadDeprecatedList c st =
     (case deprecatedJs c of
        None \<Rightarrow> st
      | Some content \<Rightarrow> fold addDeprecatedName (parseDeprecatedFile content) st)"

definition loadWiki :: "corpus \<Rightarrow> store \<Rightarrow> store" where
  "loadWiki c st = (case wikiLua c of None \<Rightarrow> st | Some content \<Rightarrow> wikiFile content st)"

definition loadData :: "corpus \<Rightarrow> store \<Rightarrow> store" where
  "loadData c st =
     (let st1 = (case enumLua c of None \<Rightarrow> st | Some content \<Rightarrow> st\<lparr>enums := parseEnumFile content\<rparr>);
          st2 = (case eventLua c of None \<Rightarrow> st1 | Some content \<Rightarrow> st1\<lparr>events := parseEventFile content\<rparr>)
      in case cvarLua c of None \<Rightarrow> st2 | Some content \<Rightarrow> st2\<lparr>cvars := parseCVarFile content\<rparr>)"

definition applyFlavors :: "store \<Rightarrow> store" where
  "applyFlavors st = fold applyFlavor (functionIndex st) st"

definition loadPasses :: "corpus \<Rightarrow> store \<Rightarrow> store" where
  "loadPasses c st =
     fold frameXmlFile (frameXmlFiles c)
       (fold widgetFile (widgetFiles c)
         (loadWiki c
           (fold deprecatedFile (deprecatedFiles c)
             (fold blizzardFile (blizzardDocFiles c)
               (loadDeprecatedList c (loadFlavor c (loadVersion c st)))))))"

definition loadFrom :: "corpus \<Rightarrow> store \<Rightarrow> store" where
  "loadFrom c st = applyFlavors (loadData c (loadPasses c st))"

text \<open>\<^verbatim>\<open>load\<close>: \<open>None\<close> is the case where \<^verbatim>\<open>findExtensionPath\<close> finds no extension, the
  only error the method throws of its own.\<close>

datatype load_error = ExtensionNotFound

definition load :: "corpus option \<Rightarrow> store \<Rightarrow> load_error + store" where
  "load ext st = (case ext of None \<Rightarrow> Inl ExtensionNotFound | Some c \<Rightarrow> Inr (loadFrom c st))"

section \<open>Invariants of the store and notions of the properties\<close>

text \<open>Every entry of the function index refers to an object of the heap whose qualified
  name is the entry's key.\<close>

definition index_ok :: "store \<Rightarrow> bool" where
  "index_ok st =
     list_all (\<lambda>e. snd e < length (heap st) \<and> fullName (obj st (snd e)) = fst e) (functionIndex st)"

text \<open>Every reference in the list of a namespace refers to an object of the heap that is
  no method and whose namespace is the key of the list.\<close>

definition namespaces_ok :: "store \<Rightarrow> bool" where
  "namespaces_ok st =
     list_all (\<lambda>e. list_all (\<lambda>r. r < length (heap st) \<and> \<not> isMethod (obj st r)
                                  \<and> namespace (obj st r) = Some (fst e)) (snd e))
       (namespaces st)"

definition wf_store :: "store \<Rightarrow> bool" where
  "wf_store st = (index_ok st \<and> namespaces_ok st)"

text \<open>The index holds the reference \<open>r\<close> under the key \<open>k\<close>, and \<open>r\<close> refers to the
  object \<open>f\<close>.\<close>

definition keeps :: "string \<Rightarrow> ref \<Rightarrow> func_rec \<Rightarrow> store \<Rightarrow> bool" where
  "keeps k r f st = (map_get (functionIndex st) k = Some r \<and> r < length (heap st) \<and> obj st r = f)"

text \<open>The parent list of a class record, from the text the class pattern captured.\<close>

definition parentList :: "string option \<Rightarrow> string list" where
  "parentList parents = (case parents of None \<Rightarrow> [] | Some ps \<Rightarrow> map trim (splitOn (CHR '','') ps))"

text \<open>
  The text of a parent list: the names \<open>ps\<close>, separated by commas; \<open>seps\<close> gives, comma by
  comma, the white space before and after it (none where \<open>seps\<close> has run out).
\<close>

fun parentsText :: "string list \<Rightarrow> (string \<times> string) list \<Rightarrow> string" where
  "parentsText [] seps = []"
| "parentsText [p] seps = p"
| "parentsText (p # q # ps) [] = p @ CHR '','' # parentsText (q # ps) []"
| "parentsText (p # q # ps) (sep # seps) = p @ fst sep @ CHR '','' # snd sep @ parentsText (q # ps) seps"

text \<open>The functions a pass parses from its files, in the order of the pass.\<close>

definition passFunctions :: "(string \<times> string) list \<Rightarrow> func_rec list" where
  "passFunctions files = concat (map (\<lambda>file. p_functions (parseLuaFile (snd file))) files)"

text \<open>The object step 4 puts into the heap for a function of the file at \<open>path\<close>.\<close>

definition deprecatedObject :: "string \<Rightarrow> func_rec \<Rightarrow> func_rec" where
  "deprecatedObject path func =
     stampSource (func\<lparr>deprecatedInPatch := extractPatchFromFilename path, deprecated := True\<rparr>) ''deprecated''"

text \<open>
  The name of a file is the part of its path after the last separator, and the directory
  part is the rest, with that separator.
\<close>

definition isPathSeparator :: "char \<Rightarrow> bool" where
  "isPathSeparator c = (c = CHR ''/'' \<or> c = CHR 0x5C)"

definition baseName :: "string \<Rightarrow> string" where
  "baseName path = rev (takeWhile (\<lambda>c. \<not> isPathSeparator c) (rev path))"

definition dirName :: "string \<Rightarrow> string" where
  "dirName path = rev (dropWhile (\<lambda>c. \<not> isPathSeparator c) (rev path))"

text \<open>The index holds the reference \<open>r\<close> under the key \<open>k\<close>, and \<open>r\<close> refers to an object
  that differs from \<open>g\<close> in its version list at most.\<close>

definition holdsUpTo :: "string \<Rightarrow> ref \<Rightarrow> func_rec \<Rightarrow> store \<Rightarrow> bool" where
  "holdsUpTo k r g st =
     (map_get (functionIndex st) k = Some r \<and> r < length (heap st)
      \<and> (obj st r)\<lparr>gameVersions := None\<rparr> = g\<lparr>gameVersions := None\<rparr>)"

section \<open>The load as a sequence of steps\<close>

text \<open>
  What the queries see of the function index: its entries in order, each key with the
  object it refers to.
\<close>

definition fview :: "store \<Rightarrow> (string \<times> func_rec) list" where
  "fview st = map (\<lambda>e. (fst e, obj st (snd e))) (functionIndex st)"

text \<open>
  An indexing step on such a list of entries: \<^verbatim>\<open>this.functions.set(func.fullName, func)\<close>,
  guarded by \<^verbatim>\<open>!this.functions.has(func.fullName)\<close> when the flag is set. The steps of a
  load, in order.
\<close>

definition applyOp :: "bool \<times> func_rec \<Rightarrow> (string \<times> func_rec) list \<Rightarrow> (string \<times> func_rec) list" where
  "applyOp op m =
     (if fst op \<and> map_of m (fullName (snd op)) \<noteq> None then m
      else AList.update (fullName (snd op)) (snd op) m)"

definition runOps :: "(bool \<times> func_rec) list \<Rightarrow> (string \<times> func_rec) list \<Rightarrow> (string \<times> func_rec) list" where
  "runOps ops m = fold applyOp ops m"

text \<open>The cross-reference of the Wiki pass with the deprecated list \<open>D\<close>.\<close>

definition markDeprecated :: "string list \<Rightarrow> func_rec \<Rightarrow> func_rec" where
  "markDeprecated D func =
     (if shortNameOf func (fullName func) \<in> set D then func\<lparr>deprecated := True\<rparr> else func)"

text \<open>The functions of the deprecated pass and of the Wiki pass, as they are handed to
  \<^verbatim>\<open>_indexFunction\<close>.\<close>

definition deprecatedPassFunctions :: "(string \<times> string) list \<Rightarrow> func_rec list" where
  "deprecatedPassFunctions files =
     concat (map (\<lambda>file. map (\<lambda>func. func\<lparr>deprecatedInPatch := extractPatchFromFilename (fst file),
                                                deprecated := True\<rparr>)
                            (p_functions (parseLuaFile (snd file)))) files)"

definition wikiFunctions :: "corpus \<Rightarrow> func_rec list" where
  "wikiFunctions c = (case wikiLua c of None \<Rightarrow> [] | Some content \<Rightarrow> p_functions (parseLuaFile content))"

text \<open>The indexing steps of the five passes, in the order of \<^verbatim>\<open>load\<close>; the Wiki pass and
  the FrameXML pass are the guarded ones.\<close>

definition loadOps :: "corpus \<Rightarrow> string list \<Rightarrow> (bool \<times> func_rec) list" where
  "loadOps c D =
     map (\<lambda>f. (False, stampSource f ''blizzard'')) (passFunctions (blizzardDocFiles c)) @
     map (\<lambda>f. (False, stampSource f ''deprecated'')) (deprecatedPassFunctions (deprecatedFiles c)) @
     map (\<lambda>f. (True, stampSource (markDeprecated D f) ''wiki'')) (wikiFunctions c) @
     map (\<lambda>f. (False, stampSource f ''widget'')) (passFunctions (widgetFiles c)) @
     map (\<lambda>f. (True, stampSource f ''framexml'')) (passFunctions (frameXmlFiles c))"

text \<open>The last step of \<^verbatim>\<open>load\<close> on one entry and on all entries, with the flavor table
  \<open>fm\<close>.\<close>

definition enrich :: "string list js_object \<Rightarrow> string \<Rightarrow> func_rec \<Rightarrow> func_rec" where
  "enrich fm k func =
     (case obj_get fm (shortNameOf func k) of
        Some v \<Rightarrow> func\<lparr>gameVersions := Some (versionsOf v)\<rparr>
      | None \<Rightarrow>
          (case obj_get fm k of
             Some v \<Rightarrow> func\<lparr>gameVersions := Some (versionsOf v)\<rparr>
           | None \<Rightarrow> func))"

definition enrichAll :: "string list js_object \<Rightarrow> (string \<times> func_rec) list \<Rightarrow> (string \<times> func_rec) list" where
  "enrichAll fm m = map (\<lambda>e. (fst e, enrich fm (fst e) (snd e))) m"

text \<open>What the passes keep: the index refers into the heap, and the deprecated list and
  the flavor table are those read by steps 1 and 2.\<close>

definition passInv :: "string list \<Rightarrow> string list js_object \<Rightarrow> store \<Rightarrow> bool" where
  "passInv D fm st = (index_ok st \<and> deprecatedList st = D \<and> flavorMap st = fm)"

text \<open>The steps before the passes: the version, the flavor table, the deprecated list.\<close>

definition sideStore :: "corpus \<Rightarrow> store \<Rightarrow> store" where
  "sideStore c st = loadDeprecatedList c (loadFlavor c (loadVersion c st))"

text \<open>The value that a sequence of steps leaves under the key \<open>k\<close> when the key is present
  from the start and holds \<open>v\<close>: a guarded step never writes.\<close>

definition final :: "(bool \<times> func_rec) list \<Rightarrow> string \<Rightarrow> func_rec \<Rightarrow> func_rec" where
  "final ops k v = fold (\<lambda>op v. if fullName (snd op) = k \<and> \<not> fst op then snd op else v) ops v"

text \<open>\<^verbatim>\<open>lookupApi\<close>, \<^verbatim>\<open>searchApi\<close> and \<^verbatim>\<open>listDeprecated\<close> as functions of the entries
  the queries see.\<close>

definition lookupRecords :: "(string \<times> func_rec) list \<Rightarrow> string \<Rightarrow> func_rec list" where
  "lookupRecords fv nm =
     (case map_of fv nm of
        Some func \<Rightarrow> [func]
      | None \<Rightarrow>
         (case find (\<lambda>e. toLowerCase (fst e) = toLowerCase nm) fv of
            Some e \<Rightarrow> [snd e]
          | None \<Rightarrow>
             take 25 (map snd (filter
               (\<lambda>e. toLowerCase (shortNameOf (snd e) (fst e)) = toLowerCase nm
                    \<or> includesStr (toLowerCase (fst e)) (toLowerCase nm)) fv))))"

definition searchRecords :: "(string \<times> func_rec) list \<Rightarrow> string \<Rightarrow> func_rec list" where
  "searchRecords fv query =
     take 50 (map snd (filter (\<lambda>e. includesStr (searchable (snd e)) (toLowerCase query)) fv))"

definition deprecatedRecords :: "(string \<times> func_rec) list \<Rightarrow> string option \<Rightarrow> func_rec list" where
  "deprecatedRecords fv namespaceFilter =
     map snd (filter
       (\<lambda>e. let func = snd e in
          deprecated func
          \<and> \<not> (truthy namespaceFilter \<and> truthy (namespace func)
               \<and> \<not> includesStr (toLowerCase (case namespace func of Some ns \<Rightarrow> ns | None \<Rightarrow> []))
                                 (toLowerCase (case namespaceFilter of Some f \<Rightarrow> f | None \<Rightarrow> [])))
          \<and> \<not> (truthy namespaceFilter \<and> \<not> truthy (namespace func)
               \<and> \<not> includesStr (toLowerCase (fullName func))
                                 (toLowerCase (case namespaceFilter of Some f \<Rightarrow> f | None \<Rightarrow> []))))
       fv)"

text \<open>
  The keys of the three maps, in order: the function index, the namespaces, the widgets.
  A \<^verbatim>\<open>set\<close> adds the key at the end unless the map has it.
\<close>

type_synonym key_lists = "string list \<times> string list \<times> string list"

definition keysOf :: "store \<Rightarrow> key_lists" where
  "keysOf st = (map fst (functionIndex st), map fst (namespaces st), map fst (widgets st))"

definition addKey :: "string \<Rightarrow> string list \<Rightarrow> string list" where
  "addKey k ks = (if k \<in> set ks then ks else ks @ [k])"

text \<open>
  What a step of a pass does to the keys: indexing a function (guarded or not), which
  also adds the namespace of a function that is no method; \<^verbatim>\<open>_indexClass\<close>; and the
  method list of the widget pass.
\<close>

datatype keyOp = KFunction bool func_rec | KClass string | KMethod func_rec

definition namespaceKey :: "func_rec \<Rightarrow> string" where
  "namespaceKey func = (case namespace func of Some ns \<Rightarrow> ns | None \<Rightarrow> [])"

fun keyStep :: "keyOp \<Rightarrow> key_lists \<Rightarrow> key_lists" where
  "keyStep (KFunction cond func) (F, N, W) =
     (if cond \<and> fullName func \<in> set F then (F, N, W)
      else (addKey (fullName func) F,
            if truthy (namespace func) \<and> \<not> isMethod func then addKey (namespaceKey func) N else N,
            W))"
| "keyStep (KClass nm) (F, N, W) = (F, N, addKey nm W)"
| "keyStep (KMethod func) (F, N, W) =
     (F, N, if isMethod func \<and> truthy (namespace func) then addKey (namespaceKey func) W else W)"

text \<open>A step is settled when the keys it would add are present: it changes nothing.\<close>

fun settled :: "keyOp \<Rightarrow> key_lists \<Rightarrow> bool" where
  "settled (KFunction cond func) (F, N, W) =
     (fullName func \<in> set F
      \<and> (cond \<or> \<not> (truthy (namespace func) \<and> \<not> isMethod func) \<or> namespaceKey func \<in> set N))"
| "settled (KClass nm) (F, N, W) = (nm \<in> set W)"
| "settled (KMethod func) (F, N, W) =
     (\<not> (isMethod func \<and> truthy (namespace func)) \<or> namespaceKey func \<in> set W)"

text \<open>A part of the load acts on the keys as a sequence of such steps.\<close>

definition keyPass :: "(store \<Rightarrow> store) \<Rightarrow> bool" where
  "keyPass F = (\<exists>ops. \<forall>st. keysOf (F st) = fold keyStep ops (keysOf st))"

text \<open>The tables the passes do not write to, and a part of the load that keeps them.\<close>

definition tablesOf :: "store \<Rightarrow> int js_object js_object \<times> event_rec js_object \<times> string list \<times> string option" where
  "tablesOf st = (enums st, events st, cvars st, extensionVersion st)"

definition tablePass :: "(store \<Rightarrow> store) \<Rightarrow> bool" where
  "tablePass F = (\<forall>st. tablesOf (F st) = tablesOf st)"

section \<open>Example inputs\<close>

text \<open>A file with the given lines.\<close>

definition fileOf :: "string list \<Rightarrow> string" where
  "fileOf lines = join [CHR 0x0A] lines"

text \<open>An extension directory with nothing but \<^verbatim>\<open>package.json\<close>.\<close>

definition emptyCorpus :: corpus where
  "emptyCorpus =
     \<lparr>packageVersion = Some (Some ''0.1.0''), flavorJs = None, deprecatedJs = None,
      blizzardDocFiles = [], deprecatedFiles = [], wikiLua = None, widgetFiles = [],
      frameXmlFiles = [], enumLua = None, eventLua = None, cvarLua = None\<rparr>"

text \<open>
  A namespace \<^verbatim>\<open>Frame\<close> with one function, two qualified names that differ in case
  only, and a widget \<^verbatim>\<open>Frame\<close> with one method.
\<close>

definition frameCorpus :: corpus where
  "frameCorpus = emptyCorpus
     \<lparr>blizzardDocFiles :=
        [(''Blizzard_APIDocumentationGenerated/FrameDocumentation.lua'',
          fileOf [''---@meta'',
                  ''function frame.create(kind) end'',
                  ''---Creates a frame.'',
                  ''function Frame.Create(kind) end''])],
      widgetFiles :=
        [(''Widget/Frame.lua'',
          fileOf [''---@class Frame : Region'',
                  ''local Frame = {}'',
                  ''function Frame:Show() end''])]\<rparr>"

text \<open>A Wiki file that documents \<^verbatim>\<open>Frame.Create\<close> again, with another description and
  a parameter, and a function of its own.\<close>

definition wikiExample :: string where
  "wikiExample =
     fileOf [''---Makes a new frame of the given kind.'',
             ''---@param kind string'',
             ''function Frame.Create(kind) end'',
             ''function NewGlobal() end'']"

text \<open>The enum file of five lines; the annotation \<^verbatim>\<open>@enum\<close> stands behind the comment
  marker \<^verbatim>\<open>---\<close>, as every annotation does.\<close>

definition enumExample :: string where
  "enumExample = fileOf [''---@enum Enum.Foo'', ''Enum.Foo = {'', ''A = 0,'', ''B = 1,'', ''}'']"

text \<open>
  A function of the official documentation that a file of the deprecated API documents
  again: in a file named after a patch, in a file with another name, and with a widget
  file that declares the same name once more.
\<close>

definition spellBookDoc :: "string \<times> string" where
  "spellBookDoc =
     (''Blizzard_APIDocumentationGenerated/SpellBookDocumentation.lua'',
      fileOf [''---Returns whether the spell is known.'',
              ''function IsSpellKnown(spellID) end''])"

definition deprecatedBody :: string where
  "deprecatedBody =
     fileOf [''---@deprecated'',
             ''---Deprecated by [C_SpellBook.IsSpellInSpellBook](https://x)'',
             ''function IsSpellKnown(spellID) end'']"

definition patchCorpus :: corpus where
  "patchCorpus = emptyCorpus
     \<lparr>blizzardDocFiles := [spellBookDoc],
      deprecatedFiles := [(''FrameXML/Blizzard_Deprecated/Deprecated_11_0_5.lua'', deprecatedBody)]\<rparr>"

definition noPatchCorpus :: corpus where
  "noPatchCorpus = emptyCorpus
     \<lparr>blizzardDocFiles := [spellBookDoc],
      deprecatedFiles := [(''FrameXML/Blizzard_Deprecated/Deprecated_SpellBook.lua'', deprecatedBody)]\<rparr>"

definition widgetOverCorpus :: corpus where
  "widgetOverCorpus = patchCorpus
     \<lparr>widgetFiles := [(''Widget/Misc.lua'', fileOf [''function IsSpellKnown(spellID) end''])]\<rparr>"

section \<open>Properties of the version bitmask\<close>

lemma word_and_pow_iff:
  "k < 32 \<Longrightarrow> ((word_of_int n :: 32 word) AND 2 ^ k \<noteq> 0) = bit n k"
  by (simp add: and_exp_eq_0_iff_not_bit bit_word_of_int_iff)

lemma decodeFlavorBitmask_bit:
  "decodeFlavorBitmask n =
     (if bit n 0 then [''Mainline''] else []) @
     (if bit n 1 then [''Vanilla''] else []) @
     (if bit n 2 then [''Mists''] else [])"
  using word_and_pow_iff[of 0 n] word_and_pow_iff[of 1 n] word_and_pow_iff[of 2 n]
  by (simp add: decodeFlavorBitmask_def)

text \<open>
  C7. The bitmask \<open>0x5\<close> decodes to exactly the tags of bit 0 and bit 2, Mainline and
  Mists; \<open>0x0\<close> decodes to no tag; and for every integer the decoded tags are those of its
  three lowest bits, so that a bit above bit 2 contributes nothing.
\<close>

theorem decodeFlavorBitmask_low_bits:
  "decodeFlavorBitmask 0x5 = [''Mainline'', ''Mists'']
   \<and> decodeFlavorBitmask 0x0 = []
   \<and> decodeFlavorBitmask n = decodeFlavorBitmask (n mod 8)
   \<and> decodeFlavorBitmask n =
       (if bit n 0 then [''Mainline''] else []) @
       (if bit n 1 then [''Vanilla''] else []) @
       (if bit n 2 then [''Mists''] else [])"
proof -
  have low: "n mod 8 = take_bit 3 n"
    by (simp add: take_bit_eq_mod)
  have "decodeFlavorBitmask n = decodeFlavorBitmask (n mod 8)"
    unfolding low decodeFlavorBitmask_bit by (simp add: bit_take_bit_iff)
  moreover have "decodeFlavorBitmask 0x5 = [''Mainline'', ''Mists'']"
    by (simp add: decodeFlavorBitmask_def)
  moreover have "decodeFlavorBitmask 0x0 = []"
    by (simp add: decodeFlavorBitmask_def)
  ultimately show ?thesis
    using decodeFlavorBitmask_bit[of n] by simp
qed

theorem decodeFlavorBitmask_low_bits_witness:
  "decodeFlavorBitmask 0xFD = decodeFlavorBitmask (0xFD mod 8)
   \<and> decodeFlavorBitmask 0xFD = [''Mainline'', ''Mists'']"
proof -
  have "decodeFlavorBitmask 0xFD = decodeFlavorBitmask (0xFD mod 8)"
    using decodeFlavorBitmask_low_bits[of "0xFD"] by blast
  moreover have "decodeFlavorBitmask (0xFD mod 8) = [''Mainline'', ''Mists'']"
    by (simp add: decodeFlavorBitmask_def)
  ultimately show ?thesis by simp
qed

section \<open>Properties of the queries\<close>

text \<open>
  C4. For every store and every query string, \<^verbatim>\<open>searchApi\<close> returns at most 50
  references, and \<^verbatim>\<open>lookupApi\<close> returns at most 25, on the partial-match path as on
  the two exact paths.
\<close>

theorem query_result_caps:
  "length (searchApi st query) \<le> 50 \<and> length (lookupApi st query) \<le> 25"
  by (simp add: searchApi_def lookupApi_def split: option.split)


section \<open>The invariants hold after every step of the load\<close>

lemma set_update_subset: "set (AList.update k v al) \<subseteq> insert (k, v) (set al)"
  by (induction al) auto

lemma stampSource_id [simp]:
  "fullName (stampSource func src) = fullName func"
  "namespace (stampSource func src) = namespace func"
  "name (stampSource func src) = name func"
  "isMethod (stampSource func src) = isMethod func"
  "deprecated (stampSource func src) = deprecated func"
  "deprecatedInPatch (stampSource func src) = deprecatedInPatch func"
  "source (stampSource func src) = Some src"
  by (simp_all add: stampSource_def)

lemma indexFunction_heap [simp]:
  "heap (indexFunction func src st) = heap st @ [stampSource func src]"
  by (simp add: indexFunction_def Let_def)

lemma indexFunction_functionIndex [simp]:
  "functionIndex (indexFunction func src st) = map_set (fullName func) (length (heap st)) (functionIndex st)"
  by (simp add: indexFunction_def Let_def newRef_def)

lemma indexFunction_namespaces:
  "namespaces (indexFunction func src st) =
     (if truthy (namespace func) \<and> \<not> isMethod func
      then pushNamespace (case namespace func of Some ns \<Rightarrow> ns | None \<Rightarrow> []) (length (heap st)) (namespaces st)
      else namespaces st)"
  by (simp add: indexFunction_def Let_def newRef_def)

lemma indexFunction_rest [simp]:
  "widgets (indexFunction func src st) = widgets st"
  "enums (indexFunction func src st) = enums st"
  "events (indexFunction func src st) = events st"
  "cvars (indexFunction func src st) = cvars st"
  "deprecatedList (indexFunction func src st) = deprecatedList st"
  "flavorMap (indexFunction func src st) = flavorMap st"
  "extensionVersion (indexFunction func src st) = extensionVersion st"
  by (simp_all add: indexFunction_def Let_def)

lemma in_pushNamespace:
  "(K, rs) \<in> set (pushNamespace ns r m) \<Longrightarrow>
     (K, rs) \<in> set m \<or> (K = ns \<and> (rs = [r] \<or> (\<exists>rs0. (ns, rs0) \<in> set m \<and> rs = rs0 @ [r])))"
  using set_update_subset[of ns _ m]
  by (auto simp: pushNamespace_def map_set_def map_get_def split: option.splits dest: map_of_SomeD)

lemma index_ok_indexFunction: "index_ok st \<Longrightarrow> index_ok (indexFunction func src st)"
  using set_update_subset[of "fullName func" "length (heap st)" "functionIndex st"]
  by (auto simp: index_ok_def list_all_iff obj_def map_set_def nth_append)

lemma namespaces_ok_indexFunction:
  assumes "namespaces_ok st"
  shows "namespaces_ok (indexFunction func src st)"
proof -
  have old: "\<And>K rs r. (K, rs) \<in> set (namespaces st) \<Longrightarrow> r \<in> set rs \<Longrightarrow>
      r < length (heap st) \<and> \<not> isMethod (heap st ! r) \<and> namespace (heap st ! r) = Some K"
    using assms by (auto simp: namespaces_ok_def list_all_iff obj_def)
  show ?thesis
  proof (cases "truthy (namespace func) \<and> \<not> isMethod func")
    case False
    then show ?thesis
      using old by (auto simp: namespaces_ok_def list_all_iff obj_def indexFunction_namespaces nth_append)
  next
    case True
    then obtain ns where ns: "namespace func = Some ns" "\<not> isMethod func"
      by (auto simp: truthy_def split: option.splits)
    show ?thesis
      using old ns True
      by (auto simp: namespaces_ok_def list_all_iff obj_def indexFunction_namespaces nth_append
          dest!: in_pushNamespace)
  qed
qed


lemma wf_store_cong:
  "heap st' = heap st \<Longrightarrow> functionIndex st' = functionIndex st \<Longrightarrow> namespaces st' = namespaces st
   \<Longrightarrow> wf_store st' = wf_store st"
  by (simp add: wf_store_def index_ok_def namespaces_ok_def obj_def)

lemma wf_store_empty: "wf_store emptyStore"
  by (simp add: wf_store_def index_ok_def namespaces_ok_def emptyStore_def)

lemma wf_store_indexFunction: "wf_store st \<Longrightarrow> wf_store (indexFunction func src st)"
  by (simp add: wf_store_def index_ok_indexFunction namespaces_ok_indexFunction)

lemma indexClass_core [simp]:
  "heap (indexClass cls st) = heap st"
  "functionIndex (indexClass cls st) = functionIndex st"
  "namespaces (indexClass cls st) = namespaces st"
  by (simp_all add: indexClass_def split: option.splits)

lemma wf_store_indexClass: "wf_store st \<Longrightarrow> wf_store (indexClass cls st)"
  by (simp add: wf_store_cong[of "indexClass cls st" st])

lemma addDeprecatedName_core [simp]:
  "heap (addDeprecatedName nm st) = heap st"
  "functionIndex (addDeprecatedName nm st) = functionIndex st"
  "namespaces (addDeprecatedName nm st) = namespaces st"
  by (simp_all add: addDeprecatedName_def)

lemma wf_store_addDeprecatedName: "wf_store st \<Longrightarrow> wf_store (addDeprecatedName nm st)"
  by (simp add: wf_store_cong[of "addDeprecatedName nm st" st])

lemma wf_store_fold:
  assumes "\<And>x s. wf_store s \<Longrightarrow> wf_store (f x s)" and "wf_store st"
  shows "wf_store (fold f xs st)"
  using assms(2) by (induction xs arbitrary: st) (simp_all add: assms(1))

lemma wf_store_blizzardFile: "wf_store st \<Longrightarrow> wf_store (blizzardFile file st)"
  by (simp add: blizzardFile_def Let_def wf_store_fold wf_store_indexFunction wf_store_indexClass)

lemma wf_store_deprecatedFile: "wf_store st \<Longrightarrow> wf_store (deprecatedFile file st)"
  by (simp add: deprecatedFile_def deprecatedFunction_def Let_def wf_store_fold wf_store_indexFunction)

lemma wf_store_wikiFunction: "wf_store st \<Longrightarrow> wf_store (wikiFunction func st)"
  by (simp add: wikiFunction_def Let_def wf_store_indexFunction)

lemma wf_store_wikiFile: "wf_store st \<Longrightarrow> wf_store (wikiFile content st)"
  by (simp add: wikiFile_def wf_store_fold wf_store_wikiFunction)

lemma wf_store_widgetFunction: "wf_store st \<Longrightarrow> wf_store (widgetFunction func st)"
  using wf_store_cong[of "(indexFunction func ''widget'' st)\<lparr>widgets := w\<rparr>" "indexFunction func ''widget'' st" for w]
  by (simp add: widgetFunction_def Let_def wf_store_indexFunction)

lemma wf_store_widgetFile: "wf_store st \<Longrightarrow> wf_store (widgetFile file st)"
  by (simp add: widgetFile_def Let_def wf_store_fold wf_store_widgetFunction wf_store_indexClass)

lemma wf_store_frameXmlFunction: "wf_store st \<Longrightarrow> wf_store (frameXmlFunction func st)"
  by (simp add: frameXmlFunction_def wf_store_indexFunction)

lemma wf_store_frameXmlFile: "wf_store st \<Longrightarrow> wf_store (frameXmlFile file st)"
  by (simp add: frameXmlFile_def Let_def wf_store_fold wf_store_frameXmlFunction wf_store_indexClass)

lemma wf_store_loadPasses: "wf_store st \<Longrightarrow> wf_store (loadPasses c st)"
proof -
  assume a: "wf_store st"
  have 1: "wf_store (loadVersion c st)"
    using a by (simp add: loadVersion_def wf_store_cong[of "st\<lparr>extensionVersion := v\<rparr>" st for v])
  have 2: "wf_store (loadFlavor c (loadVersion c st))"
    using 1 by (simp add: loadFlavor_def wf_store_cong[of "s\<lparr>flavorMap := v\<rparr>" s for v s] split: option.splits)
  have 3: "wf_store (loadDeprecatedList c (loadFlavor c (loadVersion c st)))"
    using 2 by (simp add: loadDeprecatedList_def wf_store_fold wf_store_addDeprecatedName split: option.splits)
  have 4: "wf_store (fold deprecatedFile (deprecatedFiles c) (fold blizzardFile (blizzardDocFiles c)
             (loadDeprecatedList c (loadFlavor c (loadVersion c st)))))"
    using 3 by (simp add: wf_store_fold wf_store_deprecatedFile wf_store_blizzardFile)
  have 5: "wf_store (loadWiki c s)" if "wf_store s" for s
    using that by (simp add: loadWiki_def wf_store_wikiFile split: option.splits)
  show ?thesis
    unfolding loadPasses_def
    by (intro wf_store_fold wf_store_frameXmlFile wf_store_widgetFile 5 4)
qed

lemma wf_store_loadData: "wf_store st \<Longrightarrow> wf_store (loadData c st)"
  by (simp add: loadData_def Let_def wf_store_cong[of "s\<lparr>enums := v\<rparr>" s for v s]
      wf_store_cong[of "s\<lparr>events := v\<rparr>" s for v s] wf_store_cong[of "s\<lparr>cvars := v\<rparr>" s for v s]
      split: option.splits)

lemma nth_update_gameVersions:
  "fullName (h[r := (h ! r)\<lparr>gameVersions := v\<rparr>] ! i) = fullName (h ! i)
   \<and> isMethod (h[r := (h ! r)\<lparr>gameVersions := v\<rparr>] ! i) = isMethod (h ! i)
   \<and> namespace (h[r := (h ! r)\<lparr>gameVersions := v\<rparr>] ! i) = namespace (h ! i)
   \<and> name (h[r := (h ! r)\<lparr>gameVersions := v\<rparr>] ! i) = name (h ! i)"
proof (cases "i = r \<and> r < length h")
  case True
  then show ?thesis by simp
next
  case False
  then have "h[r := (h ! r)\<lparr>gameVersions := v\<rparr>] ! i = h ! i"
    by (cases "r < length h") (auto simp: list_update_beyond)
  then show ?thesis by simp
qed

lemma wf_store_heap_update:
  assumes "wf_store st"
  shows "wf_store (st\<lparr>heap := (heap st)[r := (obj st r)\<lparr>gameVersions := v\<rparr>]\<rparr>)"
  using assms
  by (simp add: wf_store_def index_ok_def namespaces_ok_def obj_def nth_update_gameVersions)

lemma wf_store_applyFlavor: "wf_store st \<Longrightarrow> wf_store (applyFlavor e st)"
  by (auto simp: applyFlavor_def Let_def wf_store_heap_update split: option.splits)

lemma applyFlavor_functionIndex [simp]: "functionIndex (applyFlavor e st) = functionIndex st"
  by (auto simp: applyFlavor_def Let_def split: option.splits)

lemma wf_store_applyFlavors: "wf_store st \<Longrightarrow> wf_store (applyFlavors st)"
  unfolding applyFlavors_def by (rule wf_store_fold) (auto intro: wf_store_applyFlavor)

lemma wf_store_loadFrom: "wf_store st \<Longrightarrow> wf_store (loadFrom c st)"
  by (simp add: loadFrom_def wf_store_applyFlavors wf_store_loadData wf_store_loadPasses)

lemma lookupApi_exact_key:
  assumes "wf_store st" and "map_has (functionIndex st) nm"
  shows "\<exists>r. lookupApi st nm = [r] \<and> map_get (functionIndex st) nm = Some r
             \<and> r < length (heap st) \<and> fullName (obj st r) = nm"
proof -
  from assms(2) obtain r where r: "map_of (functionIndex st) nm = Some r"
    by (auto simp: map_has_def)
  then have "(nm, r) \<in> set (functionIndex st)"
    by (rule map_of_SomeD)
  with assms(1) have "r < length (heap st) \<and> fullName (obj st r) = nm"
    by (auto simp: wf_store_def index_ok_def list_all_iff)
  with r show ?thesis
    by (simp add: lookupApi_def map_get_def)
qed

lemma load_Inr: "load ext st0 = Inr st \<Longrightarrow> \<exists>c. ext = Some c \<and> st = loadFrom c st0"
  by (auto simp: load_def split: option.splits)

text \<open>
  C1. After \<^verbatim>\<open>load\<close> has completed on the store the constructor builds (or on any store
  that satisfies the invariants), \<^verbatim>\<open>lookupApi\<close> called with a key of the function index
  returns exactly one reference; it is the entry of that very key, whatever other keys
  match without regard to case, and the object it refers to has the key as its qualified
  name.
\<close>

theorem lookupApi_exact_name:
  assumes "wf_store st0" and "load ext st0 = Inr st" and "map_has (functionIndex st) nm"
  shows "\<exists>r. lookupApi st nm = [r] \<and> map_get (functionIndex st) nm = Some r
             \<and> r < length (heap st) \<and> fullName (obj st r) = nm"
proof -
  from assms(2) obtain c where "st = loadFrom c st0"
    using load_Inr by blast
  with assms(1) have "wf_store st"
    by (simp add: wf_store_loadFrom)
  then show ?thesis
    using assms(3) by (rule lookupApi_exact_key)
qed

theorem lookupApi_exact_name_witness:
  "wf_store emptyStore
   \<and> load (Some frameCorpus) emptyStore = Inr (loadFrom frameCorpus emptyStore)
   \<and> map_keys (functionIndex (loadFrom frameCorpus emptyStore))
       = [''frame.create'', ''Frame.Create'', ''Frame:Show'']
   \<and> map_has (functionIndex (loadFrom frameCorpus emptyStore)) ''Frame.Create''
   \<and> (\<exists>r. lookupApi (loadFrom frameCorpus emptyStore) ''Frame.Create'' = [r]
          \<and> map_get (functionIndex (loadFrom frameCorpus emptyStore)) ''Frame.Create'' = Some r
          \<and> r < length (heap (loadFrom frameCorpus emptyStore))
          \<and> fullName (obj (loadFrom frameCorpus emptyStore) r) = ''Frame.Create'')"
proof -
  have l: "load (Some frameCorpus) emptyStore = Inr (loadFrom frameCorpus emptyStore)"
    by (simp add: load_def)
  have k: "map_keys (functionIndex (loadFrom frameCorpus emptyStore))
       = [''frame.create'', ''Frame.Create'', ''Frame:Show'']"
    by code_simp
  have h: "map_has (functionIndex (loadFrom frameCorpus emptyStore)) ''Frame.Create''"
    by code_simp
  show ?thesis
    using lookupApi_exact_name[OF wf_store_empty l h] wf_store_empty l k h by blast
qed

lemma getNamespace_cases:
  "getNamespace st q = [] \<or> (\<exists>K. (K, getNamespace st q) \<in> set (namespaces st))"
proof (cases "map_get (namespaces st) q")
  case (Some rs)
  then have "(q, rs) \<in> set (namespaces st)"
    by (auto simp: map_get_def dest: map_of_SomeD)
  with Some show ?thesis
    by (auto simp: getNamespace_def)
next
  case None
  show ?thesis
  proof (cases "find (\<lambda>e. toLowerCase (fst e) = toLowerCase q) (namespaces st)")
    case None
    with \<open>map_get (namespaces st) q = None\<close> show ?thesis
      by (simp add: getNamespace_def)
  next
    case (Some e)
    then have "e \<in> set (namespaces st)"
      by (auto simp: find_Some_iff)
    with Some \<open>map_get (namespaces st) q = None\<close> show ?thesis
      by (cases e) (auto simp: getNamespace_def)
  qed
qed

lemma getNamespace_no_method:
  assumes "namespaces_ok st"
  shows "list_all (\<lambda>r. r < length (heap st) \<and> \<not> isMethod (obj st r)) (getNamespace st q)"
  using assms getNamespace_cases[of st q]
  by (auto simp: namespaces_ok_def list_all_iff)

text \<open>
  C10. The invariant of the namespace table: every reference stored under a namespace key
  refers to an object that is no method and whose namespace is that key. It holds in the
  store the constructor builds, every call of \<^verbatim>\<open>_indexFunction\<close> preserves it, and so does
  the whole of \<^verbatim>\<open>load\<close>; hence \<^verbatim>\<open>getNamespace\<close> never returns a method.
\<close>

theorem namespace_table_invariant:
  assumes "wf_store st0" and "load ext st0 = Inr st"
  shows "namespaces_ok (indexFunction func src st0)
         \<and> namespaces_ok st
         \<and> list_all (\<lambda>r. r < length (heap st) \<and> \<not> isMethod (obj st r)) (getNamespace st q)"
proof -
  from assms(2) obtain c where "st = loadFrom c st0"
    using load_Inr by blast
  with assms(1) have "wf_store st"
    by (simp add: wf_store_loadFrom)
  then have "namespaces_ok st"
    by (simp add: wf_store_def)
  moreover have "namespaces_ok (indexFunction func src st0)"
    using assms(1) by (simp add: wf_store_def namespaces_ok_indexFunction)
  ultimately show ?thesis
    by (simp add: getNamespace_no_method)
qed

theorem namespace_table_invariant_witness:
  "wf_store emptyStore
   \<and> load (Some frameCorpus) emptyStore = Inr (loadFrom frameCorpus emptyStore)
   \<and> namespaces_ok (loadFrom frameCorpus emptyStore)
   \<and> map (\<lambda>r. (fullName (obj (loadFrom frameCorpus emptyStore) r),
                 isMethod (obj (loadFrom frameCorpus emptyStore) r)))
        (getNamespace (loadFrom frameCorpus emptyStore) ''Frame'') = [(''Frame.Create'', False)]
   \<and> map (\<lambda>r. (fullName (obj (loadFrom frameCorpus emptyStore) r),
                 namespace (obj (loadFrom frameCorpus emptyStore) r),
                 isMethod (obj (loadFrom frameCorpus emptyStore) r)))
        (lookupApi (loadFrom frameCorpus emptyStore) ''Frame:Show'')
       = [(''Frame:Show'', Some ''Frame'', True)]"
proof -
  have l: "load (Some frameCorpus) emptyStore = Inr (loadFrom frameCorpus emptyStore)"
    by (simp add: load_def)
  have g: "map (\<lambda>r. (fullName (obj (loadFrom frameCorpus emptyStore) r),
                 isMethod (obj (loadFrom frameCorpus emptyStore) r)))
        (getNamespace (loadFrom frameCorpus emptyStore) ''Frame'') = [(''Frame.Create'', False)]"
    by code_simp
  have m: "map (\<lambda>r. (fullName (obj (loadFrom frameCorpus emptyStore) r),
                 namespace (obj (loadFrom frameCorpus emptyStore) r),
                 isMethod (obj (loadFrom frameCorpus emptyStore) r)))
        (lookupApi (loadFrom frameCorpus emptyStore) ''Frame:Show'')
       = [(''Frame:Show'', Some ''Frame'', True)]"
    by code_simp
  show ?thesis
    using namespace_table_invariant[OF wf_store_empty l] wf_store_empty l g m by blast
qed

section \<open>The Wiki pass\<close>

lemma fold_invariant:
  assumes "P s" and "\<And>x s. P s \<Longrightarrow> P (f x s)"
  shows "P (fold f xs s)"
  using assms(1) by (induction xs arbitrary: s) (auto intro: assms(2))

lemma map_of_update_other: "k' \<noteq> k \<Longrightarrow> map_of (AList.update k' v al) k = map_of al k"
  by (simp add: update_conv')

lemma wikiFunction_present:
  "map_has (functionIndex st) (fullName func) \<Longrightarrow> wikiFunction func st = st"
  by (simp add: wikiFunction_def Let_def)

lemma wikiFunction_absent:
  "\<not> map_has (functionIndex st) (fullName func) \<Longrightarrow>
   wikiFunction func st =
     indexFunction (if shortNameOf func (fullName func) \<in> set (deprecatedList st)
                    then func\<lparr>deprecated := True\<rparr> else func) ''wiki'' st"
  by (simp add: wikiFunction_def Let_def)

lemma keeps_indexFunction_other:
  "keeps k r f st \<Longrightarrow> fullName func \<noteq> k \<Longrightarrow> keeps k r f (indexFunction func src st)"
  by (simp add: keeps_def map_get_def map_set_def obj_def nth_append map_of_update_other)

lemma keeps_wikiFunction: "keeps k r f st \<Longrightarrow> keeps k r f (wikiFunction func st)"
proof (cases "map_has (functionIndex st) (fullName func)")
  case True
  assume "keeps k r f st"
  with True show ?thesis by (simp add: wikiFunction_present)
next
  case False
  assume a: "keeps k r f st"
  with False have "fullName func \<noteq> k"
    by (auto simp: keeps_def map_has_def map_get_def)
  with a False show ?thesis
    by (simp add: wikiFunction_absent keeps_indexFunction_other)
qed

lemma keeps_wikiFile: "keeps k r f st \<Longrightarrow> keeps k r f (wikiFile content st)"
  unfolding wikiFile_def by (rule fold_invariant) (auto intro: keeps_wikiFunction)

text \<open>
  C3. Let the function index hold a reference under the qualified name \<open>k\<close> before the
  Wiki pass. A function of the Wiki file with that qualified name leaves the store as it
  is, whatever its description and parameters; every other function of the pass, indexed
  or not, leaves the entry of \<open>k\<close> and every field of its object unchanged; and so does
  the whole pass. A function is indexed by the pass only when its name is no key yet.
\<close>

theorem wiki_pass_does_not_overwrite:
  assumes "map_get (functionIndex st) k = Some r" and "r < length (heap st)"
  shows "(fullName func = k \<longrightarrow> wikiFunction func st = st)
         \<and> (wikiFunction func st \<noteq> st \<longrightarrow> \<not> map_has (functionIndex st) (fullName func))
         \<and> map_get (functionIndex (wikiFunction func st)) k = Some r
         \<and> obj (wikiFunction func st) r = obj st r
         \<and> map_get (functionIndex (wikiFile content st)) k = Some r
         \<and> obj (wikiFile content st) r = obj st r
         \<and> map_get (functionIndex (loadWiki c st)) k = Some r
         \<and> obj (loadWiki c st) r = obj st r"
proof -
  have k: "keeps k r (obj st r) st"
    using assms by (simp add: keeps_def)
  have "keeps k r (obj st r) (loadWiki c st)"
    using k by (simp add: loadWiki_def keeps_wikiFile split: option.splits)
  moreover have "fullName func = k \<longrightarrow> wikiFunction func st = st"
    using assms(1) by (auto simp: wikiFunction_present map_has_def map_get_def)
  moreover have "wikiFunction func st \<noteq> st \<longrightarrow> \<not> map_has (functionIndex st) (fullName func)"
    using wikiFunction_present by blast
  ultimately show ?thesis
    using keeps_wikiFunction[OF k, of func] keeps_wikiFile[OF k, of content]
    by (simp add: keeps_def)
qed

theorem wiki_pass_does_not_overwrite_witness:
  "map_get (functionIndex (loadFrom frameCorpus emptyStore)) ''Frame.Create'' = Some 1
   \<and> 1 < length (heap (loadFrom frameCorpus emptyStore))
   \<and> map fullName (p_functions (parseLuaFile wikiExample)) = [''Frame.Create'', ''NewGlobal'']
   \<and> map description (p_functions (parseLuaFile wikiExample))
       = [Some ''Makes a new frame of the given kind.'', None]
   \<and> map_get (functionIndex (wikiFile wikiExample (loadFrom frameCorpus emptyStore))) ''Frame.Create'' = Some 1
   \<and> obj (wikiFile wikiExample (loadFrom frameCorpus emptyStore)) 1 = obj (loadFrom frameCorpus emptyStore) 1
   \<and> description (obj (wikiFile wikiExample (loadFrom frameCorpus emptyStore)) 1) = Some ''Creates a frame.''
   \<and> map_keys (functionIndex (wikiFile wikiExample (loadFrom frameCorpus emptyStore)))
       = [''frame.create'', ''Frame.Create'', ''Frame:Show'', ''NewGlobal'']"
proof -
  have a: "map_get (functionIndex (loadFrom frameCorpus emptyStore)) ''Frame.Create'' = Some 1"
    by code_simp
  have b: "1 < length (heap (loadFrom frameCorpus emptyStore))"
    by code_simp
  have c: "map fullName (p_functions (parseLuaFile wikiExample)) = [''Frame.Create'', ''NewGlobal'']"
    by code_simp
  have d: "map description (p_functions (parseLuaFile wikiExample))
       = [Some ''Makes a new frame of the given kind.'', None]"
    by code_simp
  have e: "description (obj (loadFrom frameCorpus emptyStore) 1) = Some ''Creates a frame.''"
    by code_simp
  have f: "map_keys (functionIndex (wikiFile wikiExample (loadFrom frameCorpus emptyStore)))
       = [''frame.create'', ''Frame.Create'', ''Frame:Show'', ''NewGlobal'']"
    by code_simp
  show ?thesis
    using wiki_pass_does_not_overwrite[OF a b, of _ wikiExample] a b c d e f by simp
qed

section \<open>The enum table\<close>

lemma applyFlavor_heap_only: "applyFlavor e st = st\<lparr>heap := heap (applyFlavor e st)\<rparr>"
  by (simp add: applyFlavor_def Let_def split: option.splits)

lemma applyFlavors_heap_only: "applyFlavors st = st\<lparr>heap := heap (applyFlavors st)\<rparr>"
proof -
  have "fold applyFlavor es s = s\<lparr>heap := heap (fold applyFlavor es s)\<rparr>" for es s
  proof (induction es arbitrary: s)
    case Nil
    show ?case by simp
  next
    case (Cons e es)
    have "fold applyFlavor (e # es) s = (applyFlavor e s)\<lparr>heap := heap (fold applyFlavor (e # es) s)\<rparr>"
      using Cons[of "applyFlavor e s"] by simp
    also have "\<dots> = s\<lparr>heap := heap (fold applyFlavor (e # es) s)\<rparr>"
      by (subst applyFlavor_heap_only) simp
    finally show ?case .
  qed
  then show ?thesis by (simp add: applyFlavors_def)
qed

lemma enums_applyFlavors: "enums (applyFlavors st) = enums st"
  by (subst applyFlavors_heap_only) simp

lemma enums_loadData:
  "enums (loadData c st) = (case enumLua c of None \<Rightarrow> enums st | Some content \<Rightarrow> parseEnumFile content)"
  by (simp add: loadData_def Let_def split: option.splits)

lemma enums_loadFrom:
  "enumLua c = Some content \<Longrightarrow> enums (loadFrom c st) = parseEnumFile content"
  by (simp add: loadFrom_def enums_applyFlavors enums_loadData)

lemma getEnum_enums: "enums st = es \<Longrightarrow> getEnum st nm = getEnum (emptyStore\<lparr>enums := es\<rparr>) nm"
  by (simp add: getEnum_def cong: option.case_cong)

lemma parseEnumFile_example: "parseEnumFile enumExample = [(''Enum.Foo'', [(''A'', 0), (''B'', 1)])]"
  by code_simp

text \<open>
  C5. The enum file holds the five lines \<^verbatim>\<open>@enum Enum.Foo\<close> (the annotation, behind the
  comment marker \<^verbatim>\<open>---\<close>), \<^verbatim>\<open>Enum.Foo = {\<close>, \<^verbatim>\<open>A = 0,\<close>, \<^verbatim>\<open>B = 1,\<close>, \<^verbatim>\<open>}\<close>. The enum
  parser turns them into the table with the one enum \<^verbatim>\<open>Enum.Foo\<close>, and after loading,
  whatever else the extension directory holds and whatever the store held before,
  \<^verbatim>\<open>getEnum("Enum.Foo")\<close> returns the mapping with exactly \<open>A = 0\<close> and \<open>B = 1\<close>.
\<close>

theorem enum_round_trip:
  assumes "enumLua c = Some enumExample"
  shows "parseEnumFile enumExample = [(''Enum.Foo'', [(''A'', 0), (''B'', 1)])]
         \<and> getEnum (loadFrom c st) ''Enum.Foo'' = Some (EnumTable [(''A'', 0), (''B'', 1)])"
proof -
  have "enums (loadFrom c st) = [(''Enum.Foo'', [(''A'', 0), (''B'', 1)])]"
    using assms by (simp add: enums_loadFrom parseEnumFile_example)
  then have "getEnum (loadFrom c st) ''Enum.Foo''
      = getEnum (emptyStore\<lparr>enums := [(''Enum.Foo'', [(''A'', 0), (''B'', 1)])]\<rparr>) ''Enum.Foo''"
    by (rule getEnum_enums)
  also have "\<dots> = Some (EnumTable [(''A'', 0), (''B'', 1)])"
    by code_simp
  finally show ?thesis
    by (simp add: parseEnumFile_example)
qed

theorem enum_round_trip_witness:
  "enumLua (emptyCorpus\<lparr>enumLua := Some enumExample\<rparr>) = Some enumExample
   \<and> getEnum (loadFrom (emptyCorpus\<lparr>enumLua := Some enumExample\<rparr>) emptyStore) ''Enum.Foo''
       = Some (EnumTable [(''A'', 0), (''B'', 1)])"
  using enum_round_trip[of "emptyCorpus\<lparr>enumLua := Some enumExample\<rparr>" emptyStore]
  by simp

section \<open>Look-ups in the tables that are plain objects\<close>

text \<open>
  C8 does not hold of \<^verbatim>\<open>getEnum\<close>. No query method raises: each is a total function of
  the store and of its arguments. But the enum table is a plain object, and \<^verbatim>\<open>getEnum\<close>
  reads it with \<^verbatim>\<open>this.enums[name]\<close>: for a name that is no enum of the table but the name
  of a member of \<^verbatim>\<open>Object.prototype\<close>, such as \<^verbatim>\<open>constructor\<close>, the method returns
  that member and not \<open>null\<close>, whatever the table holds under other names.
\<close>

theorem getEnum_prototype_member:
  assumes "k \<in> set objectPrototypeKeys" and "map_of (enums st) k = None"
  shows "getEnum st k = Some (EnumInherited k)"
  using assms by (simp add: getEnum_def obj_get_def)

text \<open>After a load of the enum file of five lines: \<^verbatim>\<open>getEnum("constructor")\<close> finds a
  member of the prototype, where the look-ups that read a \<^verbatim>\<open>Map\<close>, the search and the
  event look-up find nothing.\<close>

theorem getEnum_prototype_member_witness:
  "''constructor'' \<in> set objectPrototypeKeys
   \<and> map_of (enums (loadFrom (emptyCorpus\<lparr>enumLua := Some enumExample\<rparr>) emptyStore)) ''constructor'' = None
   \<and> getEnum (loadFrom (emptyCorpus\<lparr>enumLua := Some enumExample\<rparr>) emptyStore) ''constructor''
       = Some (EnumInherited ''constructor'')
   \<and> (let st = loadFrom (emptyCorpus\<lparr>enumLua := Some enumExample\<rparr>) emptyStore in
        (searchEnums st ''constructor'', getNamespace st ''constructor'',
         getWidgetMethods st ''constructor'', getEvent st ''constructor''))
       = ([], [], None, None)"
proof -
  have a: "''constructor'' \<in> set objectPrototypeKeys"
    by (simp add: objectPrototypeKeys_def)
  have b: "map_of (enums (loadFrom (emptyCorpus\<lparr>enumLua := Some enumExample\<rparr>) emptyStore)) ''constructor'' = None"
    by (simp add: enums_loadFrom parseEnumFile_example)
  have c: "(let st = loadFrom (emptyCorpus\<lparr>enumLua := Some enumExample\<rparr>) emptyStore in
        (searchEnums st ''constructor'', getNamespace st ''constructor'',
         getWidgetMethods st ''constructor'', getEvent st ''constructor''))
       = ([], [], None, None)"
    by code_simp
  show ?thesis
    using getEnum_prototype_member[OF a b] a b c by simp
qed

section \<open>Class declarations\<close>

lemma fold_luaLine_comments:
  "list_all (\<lambda>l. startsWith (trim l) ''---'') block \<Longrightarrow>
   fold luaLine block ls = ls\<lparr>l_annotationLines := l_annotationLines ls @ map trim block\<rparr>"
  by (induction block arbitrary: ls) (simp_all add: luaLine_def Let_def)

lemma classFieldLine_id [simp]:
  "cname (classFieldLine fLine c) = cname c" "inherits (classFieldLine fLine c) = inherits c"
  by (simp_all add: classFieldLine_def Let_def split: option.splits)

lemma fold_classFieldLine_id [simp]:
  "cname (fold classFieldLine ls c) = cname c \<and> inherits (fold classFieldLine ls c) = inherits c"
  by (induction ls arbitrary: c) simp_all

lemma classLine_grows: "set cs \<subseteq> set (classLine A a cs)"
  by (auto simp: classLine_def split: option.splits)

lemma fold_classLine_grows: "set cs \<subseteq> set (fold (classLine A) B cs)"
proof (induction B arbitrary: cs)
  case Nil
  show ?case by simp
next
  case (Cons b B)
  show ?case
    using classLine_grows[of cs A b] Cons[of "classLine A b cs"] by auto
qed

lemma classLine_adds:
  "matchClass a = Some (nm, parents) \<Longrightarrow>
   \<exists>cls \<in> set (classLine A a cs). cname cls = nm \<and> inherits cls = parentList parents"
  by (simp add: classLine_def parentList_def)

lemma fold_classLine_adds:
  "a \<in> set B \<Longrightarrow> matchClass a = Some (nm, parents) \<Longrightarrow>
   \<exists>cls \<in> set (fold (classLine A) B cs). cname cls = nm \<and> inherits cls = parentList parents"
proof (induction B arbitrary: cs)
  case Nil
  then show ?case by simp
next
  case (Cons b B)
  show ?case
  proof (cases "a = b")
    case True
    with Cons.prems(2) obtain cls where "cls \<in> set (classLine A b cs)"
        "cname cls = nm \<and> inherits cls = parentList parents"
      using classLine_adds by blast
    then show ?thesis
      using fold_classLine_grows[of "classLine A b cs" A B] by auto
  next
    case False
    with Cons.prems have "a \<in> set B" by simp
    then show ?thesis
      using Cons.IH[OF _ Cons.prems(2)] by simp
  qed
qed

lemma luaLine_classes_grow: "set (l_classes ls) \<subseteq> set (l_classes (luaLine l ls))"
  using fold_classLine_grows
  by (auto simp: luaLine_def Let_def split: option.splits)

lemma fold_luaLine_classes_grow: "set (l_classes ls) \<subseteq> set (l_classes (fold luaLine ls' ls))"
proof (induction ls' arbitrary: ls)
  case Nil
  show ?case by simp
next
  case (Cons l ls')
  show ?case
    using luaLine_classes_grow[of ls l] Cons[of "luaLine l ls"] by auto
qed

lemma luaLine_closes_block:
  assumes "\<not> startsWith (trim nxt) ''---''" and "\<not> startsWith (trim nxt) ''function ''"
    and "a \<in> set (l_annotationLines ls)" and "matchClass a = Some (nm, parents)"
  shows "\<exists>cls \<in> set (l_classes (luaLine nxt ls)). cname cls = nm \<and> inherits cls = parentList parents"
  using assms fold_classLine_adds[of a "l_annotationLines ls" nm parents "l_annotationLines ls" "l_classes ls"]
  by (simp add: luaLine_def Let_def)

lemma class_block_parsed:
  assumes "list_all (\<lambda>l. startsWith (trim l) ''---'') block"
    and "aLine \<in> set block"
    and "matchClass (trim aLine) = Some (nm, parents)"
    and "\<not> startsWith (trim nxt) ''---''" and "\<not> startsWith (trim nxt) ''function ''"
  shows "\<exists>cls \<in> set (p_classes (parseLuaLines (pre @ block @ nxt # post))).
           cname cls = nm \<and> inherits cls = parentList parents"
proof -
  define ls0 where "ls0 = fold luaLine pre \<lparr>l_functions = [], l_classes = [], l_annotationLines = []\<rparr>"
  define ls1 where "ls1 = fold luaLine block ls0"
  have "l_annotationLines ls1 = l_annotationLines ls0 @ map trim block"
    unfolding ls1_def using assms(1) by (simp add: fold_luaLine_comments)
  with assms(2) have "trim aLine \<in> set (l_annotationLines ls1)"
    by auto
  then obtain cls where cls: "cls \<in> set (l_classes (luaLine nxt ls1))"
      "cname cls = nm \<and> inherits cls = parentList parents"
    using luaLine_closes_block[OF assms(4) assms(5) _ assms(3)] by blast
  have "cls \<in> set (l_classes (fold luaLine post (luaLine nxt ls1)))"
    using cls(1) fold_luaLine_classes_grow by blast
  moreover have "p_classes (parseLuaLines (pre @ block @ nxt # post))
      = l_classes (fold luaLine post (luaLine nxt ls1))"
    by (simp add: parseLuaLines_def Let_def ls1_def ls0_def)
  ultimately show ?thesis
    using cls(2) by auto
qed


lemma isWordDot_notSpace: "isWordDot c \<Longrightarrow> \<not> isSpace c"
  by (auto simp: isWordDot_def isWord_def isDigit_def isUpper_def isLower_def isSpace_def)

lemma class_char_facts [simp]:
  "isSpace (CHR '' '')" "\<not> isWordDot (CHR '' '')" "\<not> isSpace (CHR '':'')" "\<not> isWordDot (CHR '':'')"
  "isParentChar (CHR '','')" "isParentChar (CHR '' '')" "\<not> isWordDot (CHR '','')"
  by (simp_all add: isWordDot_def isWord_def isDigit_def isUpper_def isLower_def isSpace_def isParentChar_def)

lemma isWordDot_isParentChar: "isWordDot c \<Longrightarrow> isParentChar c"
  by (auto simp: isWordDot_def isParentChar_def)

lemma takeWhile_all: "list_all P xs \<Longrightarrow> takeWhile P xs = xs"
  by (induction xs) auto

lemma dropWhile_all: "list_all P xs \<Longrightarrow> dropWhile P xs = []"
  by (induction xs) auto

lemma takeWhile_stop: "list_all P xs \<Longrightarrow> \<not> P y \<Longrightarrow> takeWhile P (xs @ y # ys) = xs"
  by (induction xs) auto

lemma dropWhile_stop: "list_all P xs \<Longrightarrow> \<not> P y \<Longrightarrow> dropWhile P (xs @ y # ys) = y # ys"
  by (induction xs) auto

lemma list_all_weaken: "list_all P xs \<Longrightarrow> (\<And>x. P x \<Longrightarrow> Q x) \<Longrightarrow> list_all Q xs"
  by (induction xs) auto

lemma splitOn_nonempty: "splitOn d s \<noteq> []"
  by (induction s) (auto split: list.splits)

lemma splitOn_no_sep: "d \<notin> set s \<Longrightarrow> splitOn d s = [s]"
  by (induction s) auto

lemma splitOn_at_sep: "d \<notin> set p \<Longrightarrow> splitOn d (p @ d # r) = p # splitOn d r"
  by (induction p) auto

lemma dropWhile_id: "xs \<noteq> [] \<Longrightarrow> \<not> P (hd xs) \<Longrightarrow> dropWhile P xs = xs"
  by (cases xs) auto

lemma trim_name: "list_all isWordDot p \<Longrightarrow> trim p = p"
proof (cases "p = []")
  case True
  then show ?thesis by (simp add: trim_def)
next
  case False
  assume a: "list_all isWordDot p"
  from False a have "\<not> isSpace (hd p)" "\<not> isSpace (last p)"
    by (auto simp: list_all_iff isWordDot_notSpace)
  then have "\<not> isSpace (hd p)" "\<not> isSpace (hd (rev p))"
    by (simp_all add: hd_rev)
  with False have "dropWhile isSpace p = p" "dropWhile isSpace (rev p) = rev p"
    by (simp_all add: dropWhile_id)
  then show ?thesis by (simp add: trim_def)
qed

lemma no_comma_in_name: "list_all isWordDot p \<Longrightarrow> CHR '','' \<notin> set p"
  by (auto simp: list_all_iff)

lemma space_char_facts:
  "isSpace c \<Longrightarrow> \<not> isWordDot c" "isSpace c \<Longrightarrow> c \<noteq> CHR '',''" "isSpace c \<Longrightarrow> c \<noteq> CHR '':''"
  "isSpace c \<Longrightarrow> isParentChar c"
  by (auto simp: isWordDot_def isWord_def isDigit_def isUpper_def isLower_def isSpace_def isParentChar_def)

lemma run_then_stop:
  "list_all P xs \<Longrightarrow> ys = [] \<or> \<not> P (hd ys) \<Longrightarrow>
   takeWhile P (xs @ ys) = xs \<and> dropWhile P (xs @ ys) = ys"
proof (induction xs)
  case Nil
  then show ?case by (cases ys) auto
next
  case (Cons x xs)
  then show ?case by simp
qed

lemma no_comma_in_spaces: "list_all isSpace w \<Longrightarrow> CHR '','' \<notin> set w"
  by (auto simp: list_all_iff isSpace_def)

lemma matchClass_general:
  assumes "ws1 \<noteq> []" and "list_all isSpace ws1" and "nm \<noteq> []" and "list_all isWordDot nm"
    and "r = [] \<or> \<not> isWordDot (hd r)"
  shows "matchClass (''---@class'' @ ws1 @ nm @ r) = Some (nm, matchParents r)"
proof -
  have "\<not> isSpace (hd (nm @ r))"
    using assms(3,4) by (cases nm) (auto simp: isWordDot_notSpace)
  then have s: "takeWhile isSpace (ws1 @ nm @ r) = ws1" "dropWhile isSpace (ws1 @ nm @ r) = nm @ r"
    using run_then_stop[of isSpace ws1 "nm @ r"] assms(2) by auto
  have n: "takeWhile isWordDot (nm @ r) = nm" "dropWhile isWordDot (nm @ r) = r"
    using run_then_stop[of isWordDot nm r] assms(4,5) by auto
  show ?thesis
    using assms(1,3) s n by (simp add: matchClass_def dropPrefix_def Let_def)
qed

lemma matchParents_general:
  assumes "list_all isSpace ws2" and "list_all isSpace ws3"
    and "g \<noteq> []" and "\<not> isSpace (hd g)" and "list_all isParentChar g"
  shows "matchParents (ws2 @ CHR '':'' # ws3 @ g) = Some g"
proof -
  have a: "dropWhile isSpace (ws2 @ CHR '':'' # ws3 @ g) = CHR '':'' # ws3 @ g"
    using run_then_stop[of isSpace ws2 "CHR '':'' # ws3 @ g"] assms(1) by simp
  have b: "dropWhile isSpace (ws3 @ g) = g"
    using run_then_stop[of isSpace ws3 g] assms(2,4) by simp
  have c: "takeWhile isParentChar g = g"
    using assms(5) by (rule takeWhile_all)
  show ?thesis
    by (simp add: matchParents_def Let_def a b c assms(3))
qed

lemma parentsText_chars:
  "list_all (\<lambda>p. p \<noteq> [] \<and> list_all isWordDot p) ps \<Longrightarrow>
   list_all (\<lambda>sep. list_all isSpace (fst sep) \<and> list_all isSpace (snd sep)) seps \<Longrightarrow>
   list_all isParentChar (parentsText ps seps)"
proof (induction ps seps rule: parentsText.induct)
  case (1 seps)
  show ?case by simp
next
  case (2 p seps)
  then show ?case by (auto intro: list_all_weaken isWordDot_isParentChar)
next
  case (3 p q ps)
  then have "list_all isParentChar p"
    by (auto intro: list_all_weaken isWordDot_isParentChar)
  with 3 show ?case by simp
next
  case (4 p q ps sep seps)
  then have "list_all isParentChar p" "list_all isParentChar (fst sep)" "list_all isParentChar (snd sep)"
    by (auto intro: list_all_weaken isWordDot_isParentChar space_char_facts(4))
  with 4 show ?case by simp
qed

lemma parentsText_starts_with_name:
  assumes "ps \<noteq> []" and "list_all (\<lambda>p. p \<noteq> [] \<and> list_all isWordDot p) ps"
  shows "parentsText ps seps \<noteq> [] \<and> isWordDot (hd (parentsText ps seps))"
proof -
  obtain p qs where ps: "ps = p # qs"
    using assms(1) by (cases ps) auto
  with assms(2) obtain c r where p: "p = c # r" "isWordDot c"
    by (cases p) auto
  show ?thesis
    using ps p by (cases qs; cases seps) auto
qed

lemma trim_pad:
  assumes "list_all isSpace a" and "list_all isSpace b" and "p \<noteq> []" and "list_all isWordDot p"
  shows "trim (a @ p @ b) = p"
proof -
  have h: "\<not> isSpace (hd (p @ b))" "\<not> isSpace (hd (rev p))"
    using assms(3,4) by (auto simp: hd_append hd_rev list_all_iff isWordDot_notSpace)
  have 1: "dropWhile isSpace (a @ p @ b) = p @ b"
    using run_then_stop[of isSpace a "p @ b"] assms(1) h(1) by simp
  have "list_all isSpace (rev b)"
    using assms(2) by (simp add: list_all_iff)
  then have 2: "dropWhile isSpace (rev b @ rev p) = rev p"
    using run_then_stop[of isSpace "rev b" "rev p"] h(2) by simp
  show ?thesis
    by (simp add: trim_def 1 2)
qed

lemma split_parentsText:
  "ps \<noteq> [] \<Longrightarrow> list_all (\<lambda>p. p \<noteq> [] \<and> list_all isWordDot p) ps \<Longrightarrow>
   list_all (\<lambda>sep. list_all isSpace (fst sep) \<and> list_all isSpace (snd sep)) seps \<Longrightarrow>
   list_all isSpace w0 \<Longrightarrow>
   map trim (splitOn (CHR '','') (w0 @ parentsText ps seps)) = ps"
proof (induction ps seps arbitrary: w0 rule: parentsText.induct)
  case (1 seps)
  then show ?case by simp
next
  case (2 p seps)
  then have "CHR '','' \<notin> set (w0 @ p)"
    using no_comma_in_spaces[of w0] no_comma_in_name[of p] by simp
  then have "splitOn (CHR '','') (w0 @ p) = [w0 @ p]"
    by (rule splitOn_no_sep)
  moreover have "trim (w0 @ p) = p"
    using trim_pad[of w0 "[]" p] 2 by simp
  ultimately show ?case by simp
next
  case (3 p q ps)
  then have "CHR '','' \<notin> set (w0 @ p)"
    using no_comma_in_spaces[of w0] no_comma_in_name[of p] by simp
  then have "splitOn (CHR '','') ((w0 @ p) @ CHR '','' # parentsText (q # ps) [])
      = (w0 @ p) # splitOn (CHR '','') (parentsText (q # ps) [])"
    by (rule splitOn_at_sep)
  moreover have "trim (w0 @ p) = p"
    using trim_pad[of w0 "[]" p] 3 by simp
  moreover have "map trim (splitOn (CHR '','') ([] @ parentsText (q # ps) [])) = q # ps"
    using 3 by (intro "3.IH") simp_all
  ultimately show ?case by simp
next
  case (4 p q ps sep seps)
  then have "CHR '','' \<notin> set (w0 @ p @ fst sep)"
    using no_comma_in_spaces[of w0] no_comma_in_name[of p] no_comma_in_spaces[of "fst sep"] by simp
  then have "splitOn (CHR '','') ((w0 @ p @ fst sep) @ CHR '','' # snd sep @ parentsText (q # ps) seps)
      = (w0 @ p @ fst sep) # splitOn (CHR '','') (snd sep @ parentsText (q # ps) seps)"
    by (rule splitOn_at_sep)
  moreover have "trim (w0 @ p @ fst sep) = p"
    using trim_pad[of w0 "fst sep" p] 4 by simp
  moreover have "map trim (splitOn (CHR '','') (snd sep @ parentsText (q # ps) seps)) = q # ps"
    using 4 by (intro "4.IH") simp_all
  ultimately show ?case by simp
qed

lemma classLine_append: "classLine A a cs = cs @ classLine A a []"
  by (simp add: classLine_def split: option.splits)

lemma fold_classLine_append: "fold (classLine A) B cs = cs @ fold (classLine A) B []"
proof (induction B arbitrary: cs)
  case Nil
  show ?case by simp
next
  case (Cons b B)
  have "fold (classLine A) (b # B) cs = classLine A b cs @ fold (classLine A) B []"
    using Cons[of "classLine A b cs"] by simp
  also have "\<dots> = cs @ classLine A b [] @ fold (classLine A) B []"
    using classLine_append[of A b cs] by simp
  also have "\<dots> = cs @ fold (classLine A) (b # B) []"
    using Cons[of "classLine A b []"] by simp
  finally show ?case .
qed

lemma luaLine_same_block:
  assumes "l_annotationLines ls = l_annotationLines ls'"
  shows "l_annotationLines (luaLine l ls) = l_annotationLines (luaLine l ls')
         \<and> (\<exists>X. l_classes (luaLine l ls) = l_classes ls @ X \<and> l_classes (luaLine l ls') = l_classes ls' @ X)"
  using assms fold_classLine_append[of "l_annotationLines ls'" "l_annotationLines ls'" "l_classes ls"]
    fold_classLine_append[of "l_annotationLines ls'" "l_annotationLines ls'" "l_classes ls'"]
  by (auto simp: luaLine_def Let_def split: option.splits)

lemma fold_luaLine_same_block:
  "l_annotationLines ls = l_annotationLines ls' \<Longrightarrow>
   \<exists>X. l_classes (fold luaLine xs ls) = l_classes ls @ X \<and> l_classes (fold luaLine xs ls') = l_classes ls' @ X"
proof (induction xs arbitrary: ls ls')
  case Nil
  show ?case by simp
next
  case (Cons x xs)
  from luaLine_same_block[OF Cons.prems, of x] obtain X where
    a: "l_annotationLines (luaLine x ls) = l_annotationLines (luaLine x ls')"
    and X: "l_classes (luaLine x ls) = l_classes ls @ X" "l_classes (luaLine x ls') = l_classes ls' @ X"
    by blast
  from Cons.IH[OF a] obtain Y where
    Y: "l_classes (fold luaLine xs (luaLine x ls)) = l_classes (luaLine x ls) @ Y"
       "l_classes (fold luaLine xs (luaLine x ls')) = l_classes (luaLine x ls') @ Y"
    by blast
  show ?case
    using X Y by simp
qed

lemma classes_after_closed_block:
  assumes "l_annotationLines ls = []"
  shows "l_classes (fold luaLine xs ls) = l_classes ls @ p_classes (parseLuaLines xs)"
proof -
  let ?init = "\<lparr>l_functions = [], l_classes = [], l_annotationLines = []\<rparr>"
  have "l_annotationLines ls = l_annotationLines ?init"
    using assms by simp
  from fold_luaLine_same_block[OF this, of xs] show ?thesis
    by (auto simp: parseLuaLines_def Let_def)
qed

lemma function_line_no_comment: "startsWith s ''function '' \<Longrightarrow> \<not> startsWith s ''---''"
  by (auto simp: startsWith_def prefix_def)

lemma luaLine_function:
  "startsWith (trim nxt) ''function '' \<Longrightarrow>
   l_classes (luaLine nxt ls) = l_classes ls \<and> l_annotationLines (luaLine nxt ls) = []"
  using function_line_no_comment[of "trim nxt"]
  by (simp add: luaLine_def Let_def split: option.splits)

lemma class_block_consumed:
  assumes "list_all (\<lambda>l. startsWith (trim l) ''---'') block"
  shows "(startsWith (trim nxt) ''function '' \<longrightarrow>
            p_classes (parseLuaLines (pre @ block @ nxt # post))
              = p_classes (parseLuaLines pre) @ p_classes (parseLuaLines post))
         \<and> p_classes (parseLuaLines (pre @ block)) = p_classes (parseLuaLines pre)"
proof -
  define ls0 where "ls0 = fold luaLine pre \<lparr>l_functions = [], l_classes = [], l_annotationLines = []\<rparr>"
  define ls1 where "ls1 = fold luaLine block ls0"
  have c1: "l_classes ls1 = l_classes ls0"
    unfolding ls1_def using assms by (simp add: fold_luaLine_comments)
  have p0: "p_classes (parseLuaLines pre) = l_classes ls0"
    by (simp add: parseLuaLines_def Let_def ls0_def)
  have "p_classes (parseLuaLines (pre @ block)) = l_classes ls1"
    by (simp add: parseLuaLines_def Let_def ls1_def ls0_def)
  with c1 p0 have third: "p_classes (parseLuaLines (pre @ block)) = p_classes (parseLuaLines pre)"
    by simp
  have second: "p_classes (parseLuaLines (pre @ block @ nxt # post))
              = p_classes (parseLuaLines pre) @ p_classes (parseLuaLines post)"
    if f: "startsWith (trim nxt) ''function ''"
  proof -
    have "l_classes (luaLine nxt ls1) = l_classes ls0" "l_annotationLines (luaLine nxt ls1) = []"
      using luaLine_function[OF f, of ls1] c1 by simp_all
    then have "l_classes (fold luaLine post (luaLine nxt ls1)) = l_classes ls0 @ p_classes (parseLuaLines post)"
      using classes_after_closed_block[of "luaLine nxt ls1" post] by simp
    moreover have "p_classes (parseLuaLines (pre @ block @ nxt # post))
        = l_classes (fold luaLine post (luaLine nxt ls1))"
      by (simp add: parseLuaLines_def Let_def ls1_def ls0_def)
    ultimately show ?thesis
      using p0 by simp
  qed
  from second third show ?thesis by blast
qed

lemma splitLines_final_line_feed:
  "\<exists>ls. ls \<noteq> [] \<and> splitLines (s @ [CHR 0x0A]) = ls @ [[]]"
proof (induction s rule: length_induct)
  case (1 s)
  show ?case
  proof (cases s)
    case Nil
    have "splitLines [CHR 0x0A] = [[]] @ [[]]" by simp
    with Nil show ?thesis by auto
  next
    case (Cons c cs)
    have "length cs < length s"
      using Cons by simp
    with 1 have "\<exists>ls. ls \<noteq> [] \<and> splitLines (cs @ [CHR 0x0A]) = ls @ [[]]"
      by blast
    then obtain ls where ls: "ls \<noteq> []" "splitLines (cs @ [CHR 0x0A]) = ls @ [[]]"
      by blast
    show ?thesis
    proof (cases "c = CHR 0x0A")
      case True
      then have "splitLines (s @ [CHR 0x0A]) = ([] # ls) @ [[]]"
        using Cons ls by simp
      then show ?thesis by blast
    next
      case nlf: False
      show ?thesis
      proof (cases "c = CHR 0x0D \<and> (case cs @ [CHR 0x0A] of [] \<Rightarrow> False | d # ds \<Rightarrow> d = CHR 0x0A)")
        case True
        show ?thesis
        proof (cases cs)
          case Nil
          then have "splitLines (s @ [CHR 0x0A]) = [[]] @ [[]]"
            using Cons True by simp
          then show ?thesis by blast
        next
          case c2: (Cons d ds)
          have "length ds < length s"
            using Cons c2 by simp
          with 1 have "\<exists>ms. ms \<noteq> [] \<and> splitLines (ds @ [CHR 0x0A]) = ms @ [[]]"
            by blast
          then obtain ms where ms: "ms \<noteq> []" "splitLines (ds @ [CHR 0x0A]) = ms @ [[]]"
            by blast
          have "splitLines (s @ [CHR 0x0A]) = ([] # ms) @ [[]]"
            using Cons c2 True ms by simp
          then show ?thesis by blast
        qed
      next
        case False
        from ls(1) obtain l ls' where l: "ls = l # ls'"
          by (cases ls) auto
        have "splitLines (s @ [CHR 0x0A]) = ((c # l) # ls') @ [[]]"
          using Cons nlf False ls(2) l by simp
        then show ?thesis by blast
      qed
    qed
  qed
qed

text \<open>
  C6, as the code has it. A pending comment block is a run of lines that begin with the
  comment marker once trimmed. Let such a block hold, at any place, a line that reads, once
  trimmed, \<^verbatim>\<open>@class Name\<close> or \<^verbatim>\<open>@class Name: Parent1, Parent2, ...\<close> behind the comment
  marker, with white space \<open>ws1\<close> after \<^verbatim>\<open>@class\<close> and any white space, or none, before the
  colon (\<open>ws2\<close>), after it (\<open>ws3\<close>) and around each comma (\<open>seps\<close>). Then

  \<^item> when the line after the block is neither a comment line nor begins with
    \<^verbatim>\<open>function \<close>, the parser produces a class record with that name and exactly these
    parents (none when the list is absent), whatever lines come before the block and
    after that line;

  \<^item> when the line after the block begins with \<^verbatim>\<open>function \<close>, the block is the
    annotation of that function: the class records of the file are those of the lines
    before the block and those of the lines after the function line, and the block
    yields none;

  \<^item> when no line follows the block, the class records of the file are those of the
    lines before the block.

  The lines of a file that ends in a line feed end with an empty line: a block before that
  line feed is followed by a line, which is neither a comment line nor begins with
  \<^verbatim>\<open>function \<close>.
\<close>

theorem class_declaration_parsed:
  assumes "list_all (\<lambda>l. startsWith (trim l) ''---'') block"
    and "aLine \<in> set block"
    and "trim aLine = ''---@class'' @ ws1 @ nm @
           (if ps = [] then [] else ws2 @ CHR '':'' # ws3 @ parentsText ps seps)"
    and "ws1 \<noteq> []" and "list_all isSpace ws1" and "list_all isSpace ws2" and "list_all isSpace ws3"
    and "list_all (\<lambda>sep. list_all isSpace (fst sep) \<and> list_all isSpace (snd sep)) seps"
    and "nm \<noteq> []" and "list_all isWordDot nm"
    and "list_all (\<lambda>p. p \<noteq> [] \<and> list_all isWordDot p) ps"
  shows "(\<not> startsWith (trim nxt) ''---'' \<and> \<not> startsWith (trim nxt) ''function '' \<longrightarrow>
            (\<exists>cls \<in> set (p_classes (parseLuaLines (pre @ block @ nxt # post))).
               cname cls = nm \<and> inherits cls = ps))
         \<and> (startsWith (trim nxt) ''function '' \<longrightarrow>
              p_classes (parseLuaLines (pre @ block @ nxt # post))
                = p_classes (parseLuaLines pre) @ p_classes (parseLuaLines post))
         \<and> p_classes (parseLuaLines (pre @ block)) = p_classes (parseLuaLines pre)
         \<and> (\<exists>ls. ls \<noteq> [] \<and> splitLines (content @ [CHR 0x0A]) = ls @ [[]])"
proof -
  have m: "matchClass (trim aLine) = Some (nm, if ps = [] then None else Some (parentsText ps seps))"
  proof (cases "ps = []")
    case True
    then show ?thesis
      using assms(3) matchClass_general[OF assms(4,5,9,10), of "[]"]
      by (simp add: matchParents_def)
  next
    case False
    let ?g = "parentsText ps seps"
    have g: "?g \<noteq> []" "isWordDot (hd ?g)"
      using parentsText_starts_with_name[OF False assms(11)] by simp_all
    have "matchParents (ws2 @ CHR '':'' # ws3 @ ?g) = Some ?g"
      using matchParents_general[OF assms(6,7) g(1) _ parentsText_chars[OF assms(11,8)]] g(2)
      by (simp add: isWordDot_notSpace)
    moreover have "ws2 @ CHR '':'' # ws3 @ ?g = [] \<or> \<not> isWordDot (hd (ws2 @ CHR '':'' # ws3 @ ?g))"
      using assms(6) by (cases ws2) (auto simp: space_char_facts(1))
    ultimately show ?thesis
      using assms(3) False matchClass_general[OF assms(4,5,9,10), of "ws2 @ CHR '':'' # ws3 @ ?g"]
      by simp
  qed
  have p: "parentList (if ps = [] then None else Some (parentsText ps seps)) = ps"
    using split_parentsText[OF _ assms(11,8), of "[]"]
    by (simp add: parentList_def)
  have first: "\<exists>cls \<in> set (p_classes (parseLuaLines (pre @ block @ nxt # post))).
               cname cls = nm \<and> inherits cls = ps"
    if "\<not> startsWith (trim nxt) ''---''" "\<not> startsWith (trim nxt) ''function ''"
    using class_block_parsed[OF assms(1,2) m that] p by simp
  show ?thesis
    using first class_block_consumed[OF assms(1), of nxt pre post]
      splitLines_final_line_feed[of content] by blast
qed


theorem class_declaration_parsed_witness:
  "list_all (\<lambda>l. startsWith (trim l) ''---'')
     [''---A frame.'', ''  ---@class Frame: Region, ScriptObject'', ''---@field x number'']
   \<and> trim ''  ---@class Frame: Region, ScriptObject''
       = ''---@class'' @ '' '' @ ''Frame'' @ [] @ CHR '':'' # '' '' @
         parentsText [''Region'', ''ScriptObject''] [([], '' '')]
   \<and> list_all isSpace '' ''
   \<and> list_all isWordDot ''Frame''
   \<and> list_all (\<lambda>p. p \<noteq> [] \<and> list_all isWordDot p) [''Region'', ''ScriptObject'']
   \<and> \<not> startsWith (trim ''local Frame = {}'') ''---''
   \<and> \<not> startsWith (trim ''local Frame = {}'') ''function ''
   \<and> (\<exists>cls \<in> set (p_classes (parseLuaLines
          ([''---@meta'', []] @
           [''---A frame.'', ''  ---@class Frame: Region, ScriptObject'', ''---@field x number''] @
           ''local Frame = {}'' # [''function Frame:Show() end'']))).
          cname cls = ''Frame'' \<and> inherits cls = [''Region'', ''ScriptObject''])
   \<and> startsWith (trim ''function Frame:Show() end'') ''function ''
   \<and> p_classes (parseLuaLines
          ([''---@meta'', []] @
           [''---A frame.'', ''  ---@class Frame: Region, ScriptObject'', ''---@field x number''] @
           ''function Frame:Show() end'' # [''local Frame = {}'']))
       = p_classes (parseLuaLines [''---@meta'', []]) @ p_classes (parseLuaLines [''local Frame = {}''])
   \<and> p_classes (parseLuaLines
          ([''---@meta'', []] @
           [''---A frame.'', ''  ---@class Frame: Region, ScriptObject'', ''---@field x number'']))
       = p_classes (parseLuaLines [''---@meta'', []])"
proof -
  let ?block = "[''---A frame.'', ''  ---@class Frame: Region, ScriptObject'', ''---@field x number'']"
  have b: "list_all (\<lambda>l. startsWith (trim l) ''---'') ?block"
    by code_simp
  have m: "''  ---@class Frame: Region, ScriptObject'' \<in> set ?block"
    by simp
  have t: "trim ''  ---@class Frame: Region, ScriptObject''
       = ''---@class'' @ '' '' @ ''Frame'' @ [] @ CHR '':'' # '' '' @
         parentsText [''Region'', ''ScriptObject''] [([], '' '')]"
    by code_simp
  then have f: "trim ''  ---@class Frame: Region, ScriptObject''
       = ''---@class'' @ '' '' @ ''Frame'' @
         (if [''Region'', ''ScriptObject''] = [] then []
          else [] @ CHR '':'' # '' '' @ parentsText [''Region'', ''ScriptObject''] [([], '' '')])"
    by simp
  have s1: "'' '' \<noteq> []" "list_all isSpace '' ''" "list_all isSpace []"
    by simp_all
  have sp: "list_all (\<lambda>sep. list_all isSpace (fst sep) \<and> list_all isSpace (snd sep)) [([], '' '')]"
    by simp
  have n: "''Frame'' \<noteq> []"
    by simp
  have w: "list_all isWordDot ''Frame''"
    by code_simp
  have q: "list_all (\<lambda>p. p \<noteq> [] \<and> list_all isWordDot p) [''Region'', ''ScriptObject'']"
    by code_simp
  have x: "\<not> startsWith (trim ''local Frame = {}'') ''---''"
    by code_simp
  have y: "\<not> startsWith (trim ''local Frame = {}'') ''function ''"
    by code_simp
  have z: "startsWith (trim ''function Frame:Show() end'') ''function ''"
    by code_simp
  have first: "\<exists>cls \<in> set (p_classes (parseLuaLines
          ([''---@meta'', []] @ ?block @ ''local Frame = {}'' # [''function Frame:Show() end'']))).
          cname cls = ''Frame'' \<and> inherits cls = [''Region'', ''ScriptObject'']"
    using class_declaration_parsed[where nxt = "''local Frame = {}''" and pre = "[''---@meta'', []]"
        and post = "[''function Frame:Show() end'']", OF b m f s1(1) s1(2) s1(3) s1(2) sp n w q] x y
    by blast
  have second: "p_classes (parseLuaLines
          ([''---@meta'', []] @ ?block @ ''function Frame:Show() end'' # [''local Frame = {}'']))
       = p_classes (parseLuaLines [''---@meta'', []]) @ p_classes (parseLuaLines [''local Frame = {}''])"
    and third: "p_classes (parseLuaLines ([''---@meta'', []] @ ?block))
       = p_classes (parseLuaLines [''---@meta'', []])"
    using class_declaration_parsed[where nxt = "''function Frame:Show() end''" and pre = "[''---@meta'', []]"
        and post = "[''local Frame = {}'']", OF b m f s1(1) s1(2) s1(3) s1(2) sp n w q] z
    by blast+
  show ?thesis
    using b t s1(2) w q x y first z second third by blast
qed

text \<open>
  C6, as it is stated, fails: the record does depend on the line after the block. A block
  followed by a line that begins with \<^verbatim>\<open>function \<close> is taken as the annotation of that
  function and yields no class record, and neither does a block with which the file ends.
  The same block followed by an assignment yields the record, and so does the block
  followed by the empty last line of a file that ends in a line feed.
\<close>

theorem class_block_before_function:
  "p_classes (parseLuaFile (fileOf [''---@class Foo: Bar'', ''function Foo:Baz() end'', []])) = []
   \<and> p_classes (parseLuaFile (fileOf [''---@class Foo: Bar''])) = []
   \<and> map (\<lambda>c. (cname c, inherits c))
        (p_classes (parseLuaFile (fileOf [''---@class Foo: Bar'', ''local Foo = {}''])))
       = [(''Foo'', [''Bar''])]
   \<and> map (\<lambda>c. (cname c, inherits c))
        (p_classes (parseLuaFile (fileOf [''---@class Foo: Bar'', []])))
       = [(''Foo'', [''Bar''])]"
  by code_simp

section \<open>The deprecated pass\<close>

lemma holdsUpTo_indexFunction_other:
  "holdsUpTo k r g st \<Longrightarrow> fullName func \<noteq> k \<Longrightarrow> holdsUpTo k r g (indexFunction func src st)"
  by (simp add: holdsUpTo_def map_get_def map_set_def obj_def nth_append map_of_update_other)

lemma holdsUpTo_indexFunction_same:
  "fullName func = k \<Longrightarrow> holdsUpTo k (length (heap st)) (stampSource func src) (indexFunction func src st)"
  by (simp add: holdsUpTo_def map_get_def map_set_def obj_def update_conv')

lemma holdsUpTo_cong:
  "heap st' = heap st \<Longrightarrow> functionIndex st' = functionIndex st \<Longrightarrow> holdsUpTo k r g st' = holdsUpTo k r g st"
  by (simp add: holdsUpTo_def obj_def)

lemma holdsUpTo_fold:
  assumes "\<And>x s. x \<in> set xs \<Longrightarrow> holdsUpTo k r g s \<Longrightarrow> holdsUpTo k r g (f x s)" and "holdsUpTo k r g st"
  shows "holdsUpTo k r g (fold f xs st)"
  using assms by (induction xs arbitrary: st) simp_all

lemma holdsUpTo_indexClass: "holdsUpTo k r g st \<Longrightarrow> holdsUpTo k r g (indexClass cls st)"
  by (simp add: holdsUpTo_cong[of "indexClass cls st" st])

lemma holdsUpTo_conditional:
  assumes "holdsUpTo k r g st"
  shows "holdsUpTo k r g (if \<not> map_has (functionIndex st) (fullName func) then indexFunction func src st else st)"
proof (cases "map_has (functionIndex st) (fullName func)")
  case True
  with assms show ?thesis by simp
next
  case False
  with assms have "fullName func \<noteq> k"
    by (auto simp: holdsUpTo_def map_has_def map_get_def)
  with assms False show ?thesis
    by (simp add: holdsUpTo_indexFunction_other)
qed

lemma holdsUpTo_wikiFunction: "holdsUpTo k r g st \<Longrightarrow> holdsUpTo k r g (wikiFunction func st)"
  using holdsUpTo_conditional[of k r g st "if shortNameOf func (fullName func) \<in> set (deprecatedList st)
                   then func\<lparr>deprecated := True\<rparr> else func" "''wiki''"]
  by (simp add: wikiFunction_def Let_def split: if_splits)

lemma holdsUpTo_loadWiki: "holdsUpTo k r g st \<Longrightarrow> holdsUpTo k r g (loadWiki c st)"
  by (simp add: loadWiki_def wikiFile_def holdsUpTo_fold holdsUpTo_wikiFunction split: option.splits)

lemma holdsUpTo_frameXmlFile: "holdsUpTo k r g st \<Longrightarrow> holdsUpTo k r g (frameXmlFile file st)"
  using holdsUpTo_conditional[of k r g _ _ "''framexml''"]
  by (simp add: frameXmlFile_def frameXmlFunction_def Let_def holdsUpTo_fold holdsUpTo_indexClass)

lemma holdsUpTo_widgetFunction:
  "holdsUpTo k r g st \<Longrightarrow> fullName func \<noteq> k \<Longrightarrow> holdsUpTo k r g (widgetFunction func st)"
  using holdsUpTo_cong[of "(indexFunction func ''widget'' st)\<lparr>widgets := w\<rparr>" "indexFunction func ''widget'' st" for w]
  by (simp add: widgetFunction_def Let_def holdsUpTo_indexFunction_other)

lemma holdsUpTo_widgetFile:
  assumes "holdsUpTo k r g st" and "k \<notin> set (map fullName (p_functions (parseLuaFile (snd file))))"
  shows "holdsUpTo k r g (widgetFile file st)"
  unfolding widgetFile_def Let_def
proof (rule holdsUpTo_fold)
  show "holdsUpTo k r g (fold indexClass (p_classes (parseLuaFile (snd file))) st)"
    using assms(1) by (simp add: holdsUpTo_fold holdsUpTo_indexClass)
next
  fix x s
  assume "x \<in> set (p_functions (parseLuaFile (snd file)))" and "holdsUpTo k r g s"
  with assms(2) show "holdsUpTo k r g (widgetFunction x s)"
    by (auto intro: holdsUpTo_widgetFunction)
qed

lemma holdsUpTo_widgetFiles:
  assumes "holdsUpTo k r g st" and "k \<notin> set (map fullName (passFunctions files))"
  shows "holdsUpTo k r g (fold widgetFile files st)"
proof (rule holdsUpTo_fold)
  show "holdsUpTo k r g st" by (rule assms(1))
next
  fix x s
  assume "x \<in> set files" and "holdsUpTo k r g s"
  with assms(2) show "holdsUpTo k r g (widgetFile x s)"
    by (intro holdsUpTo_widgetFile) (auto simp: passFunctions_def)
qed

lemma holdsUpTo_loadData: "holdsUpTo k r g st \<Longrightarrow> holdsUpTo k r g (loadData c st)"
  by (simp add: loadData_def Let_def holdsUpTo_cong[of "s\<lparr>enums := v\<rparr>" s for v s]
      holdsUpTo_cong[of "s\<lparr>events := v\<rparr>" s for v s] holdsUpTo_cong[of "s\<lparr>cvars := v\<rparr>" s for v s]
      split: option.splits)

lemma nth_update_upto:
  "(h[r' := (h ! r')\<lparr>gameVersions := v\<rparr>] ! r)\<lparr>gameVersions := None\<rparr> = (h ! r)\<lparr>gameVersions := None\<rparr>"
proof (cases "r = r' \<and> r' < length h")
  case True
  then show ?thesis by simp
next
  case False
  then have "h[r' := (h ! r')\<lparr>gameVersions := v\<rparr>] ! r = h ! r"
    by (cases "r' < length h") (auto simp: list_update_beyond)
  then show ?thesis by simp
qed

lemma holdsUpTo_applyFlavor: "holdsUpTo k r g st \<Longrightarrow> holdsUpTo k r g (applyFlavor e st)"
  by (simp add: applyFlavor_def Let_def holdsUpTo_def obj_def nth_update_upto split: option.splits)

lemma holdsUpTo_applyFlavors: "holdsUpTo k r g st \<Longrightarrow> holdsUpTo k r g (applyFlavors st)"
  by (simp add: applyFlavors_def holdsUpTo_fold holdsUpTo_applyFlavor)

lemma holdsUpTo_deprecatedFunction_other:
  "holdsUpTo k r g st \<Longrightarrow> fullName func \<noteq> k \<Longrightarrow> holdsUpTo k r g (deprecatedFunction pv func st)"
  by (simp add: deprecatedFunction_def holdsUpTo_indexFunction_other)

lemma deprecated_functions_set:
  assumes "k \<in> set (map fullName funcs)"
  shows "\<exists>r func. func \<in> set funcs \<and> fullName func = k
           \<and> holdsUpTo k r (deprecatedObject path func)
                (fold (deprecatedFunction (extractPatchFromFilename path)) funcs st)"
  using assms
proof (induction funcs arbitrary: st)
  case Nil
  then show ?case by simp
next
  case (Cons f funcs)
  show ?case
  proof (cases "k \<in> set (map fullName funcs)")
    case True
    from Cons.IH[OF True, of "deprecatedFunction (extractPatchFromFilename path) f st"]
    show ?thesis by auto
  next
    case False
    with Cons.prems have fk: "fullName f = k" by auto
    have "holdsUpTo k (length (heap st)) (deprecatedObject path f)
            (deprecatedFunction (extractPatchFromFilename path) f st)"
      using fk holdsUpTo_indexFunction_same[of "f\<lparr>deprecatedInPatch := extractPatchFromFilename path, deprecated := True\<rparr>" k st "''deprecated''"]
      by (simp add: deprecatedFunction_def deprecatedObject_def)
    then have "holdsUpTo k (length (heap st)) (deprecatedObject path f)
            (fold (deprecatedFunction (extractPatchFromFilename path)) funcs
               (deprecatedFunction (extractPatchFromFilename path) f st))"
      using False by (intro holdsUpTo_fold) (auto intro: holdsUpTo_deprecatedFunction_other)
    with fk show ?thesis by auto
  qed
qed

lemma holdsUpTo_deprecatedFile_other:
  assumes "holdsUpTo k r g st" and "k \<notin> set (map fullName (p_functions (parseLuaFile (snd file))))"
  shows "holdsUpTo k r g (deprecatedFile file st)"
  unfolding deprecatedFile_def Let_def
  using assms by (intro holdsUpTo_fold) (auto intro: holdsUpTo_deprecatedFunction_other)

lemma deprecated_files_set:
  assumes "k \<in> set (map fullName (passFunctions files))"
  shows "\<exists>r file func. file \<in> set files \<and> func \<in> set (p_functions (parseLuaFile (snd file)))
           \<and> fullName func = k
           \<and> holdsUpTo k r (deprecatedObject (fst file) func) (fold deprecatedFile files st)"
  using assms
proof (induction files arbitrary: st)
  case Nil
  then show ?case by (simp add: passFunctions_def)
next
  case (Cons f files)
  show ?case
  proof (cases "k \<in> set (map fullName (passFunctions files))")
    case True
    from Cons.IH[OF True, of "deprecatedFile f st"]
    show ?thesis by auto
  next
    case False
    with Cons.prems have "k \<in> set (map fullName (p_functions (parseLuaFile (snd f))))"
      by (auto simp: passFunctions_def)
    from deprecated_functions_set[OF this, of "fst f" st]
    obtain r func where rf: "func \<in> set (p_functions (parseLuaFile (snd f)))" "fullName func = k"
        "holdsUpTo k r (deprecatedObject (fst f) func) (deprecatedFile f st)"
      by (auto simp: deprecatedFile_def Let_def)
    have "holdsUpTo k r (deprecatedObject (fst f) func) (fold deprecatedFile files (deprecatedFile f st))"
    proof (rule holdsUpTo_fold)
      show "holdsUpTo k r (deprecatedObject (fst f) func) (deprecatedFile f st)" by (rule rf(3))
    next
      fix x s
      assume "x \<in> set files" and "holdsUpTo k r (deprecatedObject (fst f) func) s"
      with False show "holdsUpTo k r (deprecatedObject (fst f) func) (deprecatedFile x s)"
        by (intro holdsUpTo_deprecatedFile_other) (auto simp: passFunctions_def)
    qed
    with rf show ?thesis
      by (intro exI[of _ r] exI[of _ f] exI[of _ func]) simp
  qed
qed

lemma deprecated_entry_after_load:
  assumes "k \<in> set (map fullName (passFunctions (deprecatedFiles c)))"
    and "k \<notin> set (map fullName (passFunctions (widgetFiles c)))"
  shows "\<exists>r file func. file \<in> set (deprecatedFiles c) \<and> func \<in> set (p_functions (parseLuaFile (snd file)))
           \<and> fullName func = k
           \<and> holdsUpTo k r (deprecatedObject (fst file) func) (loadFrom c st)"
proof -
  define s3 where "s3 = fold blizzardFile (blizzardDocFiles c) (loadDeprecatedList c (loadFlavor c (loadVersion c st)))"
  from deprecated_files_set[OF assms(1), of s3]
  obtain r fl func where rf: "fl \<in> set (deprecatedFiles c)" "func \<in> set (p_functions (parseLuaFile (snd fl)))"
      "fullName func = k" "holdsUpTo k r (deprecatedObject (fst fl) func) (fold deprecatedFile (deprecatedFiles c) s3)"
    by blast
  have "holdsUpTo k r (deprecatedObject (fst fl) func) (loadPasses c st)"
  proof -
    have a: "holdsUpTo k r (deprecatedObject (fst fl) func)
               (loadWiki c (fold deprecatedFile (deprecatedFiles c) s3))"
      using rf(4) by (rule holdsUpTo_loadWiki)
    have b: "holdsUpTo k r (deprecatedObject (fst fl) func)
               (fold widgetFile (widgetFiles c) (loadWiki c (fold deprecatedFile (deprecatedFiles c) s3)))"
      using a assms(2) by (rule holdsUpTo_widgetFiles)
    have "holdsUpTo k r (deprecatedObject (fst fl) func)
            (fold frameXmlFile (frameXmlFiles c)
               (fold widgetFile (widgetFiles c) (loadWiki c (fold deprecatedFile (deprecatedFiles c) s3))))"
      by (rule holdsUpTo_fold) (simp_all add: holdsUpTo_frameXmlFile b)
    then show ?thesis
      by (simp add: loadPasses_def s3_def)
  qed
  then have "holdsUpTo k r (deprecatedObject (fst fl) func) (loadFrom c st)"
    by (simp add: loadFrom_def holdsUpTo_applyFlavors holdsUpTo_loadData)
  with rf show ?thesis by blast
qed


lemma dropPrefix_SomeD: "dropPrefix p s = Some r \<Longrightarrow> s = p @ r"
  by (auto simp: dropPrefix_def prefix_def split: if_splits)

lemma not_digit_underscore [simp]: "\<not> isDigit (CHR ''_'')"
  by (simp add: isDigit_def)

lemma list_all_takeWhile: "list_all P (takeWhile P xs)"
  by (induction xs) auto

lemma matchPatchHere_form:
  assumes "matchPatchHere s = Some (a, b, d)"
  shows "\<exists>post. s = ''Deprecated_'' @ a @ ''_'' @ b @ ''_'' @ d @ post
           \<and> a \<noteq> [] \<and> b \<noteq> [] \<and> d \<noteq> []
           \<and> list_all isDigit a \<and> list_all isDigit b \<and> list_all isDigit d"
proof -
  from assms obtain r0 r1 r2 where
    r0: "dropPrefix ''Deprecated_'' s = Some r0"
    and r1: "dropPrefix ''_'' (dropWhile isDigit r0) = Some r1"
    and r2: "dropPrefix ''_'' (dropWhile isDigit r1) = Some r2"
    and abd: "a = takeWhile isDigit r0" "b = takeWhile isDigit r1" "d = takeWhile isDigit r2"
      "a \<noteq> []" "b \<noteq> []" "d \<noteq> []"
    by (auto simp: matchPatchHere_def Let_def split: option.splits if_splits)
  have "s = ''Deprecated_'' @ r0"
    using r0 by (rule dropPrefix_SomeD)
  moreover have "r0 = a @ ''_'' @ r1"
    using dropPrefix_SomeD[OF r1] abd(1) takeWhile_dropWhile_id[of isDigit r0] by simp
  moreover have "r1 = b @ ''_'' @ r2"
    using dropPrefix_SomeD[OF r2] abd(2) takeWhile_dropWhile_id[of isDigit r1] by simp
  moreover have "r2 = d @ dropWhile isDigit r2"
    using abd(3) by simp
  ultimately have "s = ''Deprecated_'' @ a @ ''_'' @ b @ ''_'' @ d @ dropWhile isDigit r2"
    by simp
  moreover have "list_all isDigit a \<and> list_all isDigit b \<and> list_all isDigit d"
    unfolding abd(1,2,3) by (simp add: list_all_takeWhile)
  ultimately show ?thesis
    using abd(4,5,6) by blast
qed

lemma extractPatch_form:
  "extractPatchFromFilename f = Some v \<Longrightarrow>
   \<exists>pre a b d post. f = pre @ ''Deprecated_'' @ a @ ''_'' @ b @ ''_'' @ d @ post
      \<and> a \<noteq> [] \<and> b \<noteq> [] \<and> d \<noteq> []
      \<and> list_all isDigit a \<and> list_all isDigit b \<and> list_all isDigit d
      \<and> v = a @ ''.'' @ b @ ''.'' @ d"
proof (induction f)
  case Nil
  then show ?case by simp
next
  case (Cons x xs)
  show ?case
  proof (cases "matchPatchHere (x # xs)")
    case None
    with Cons.prems have "extractPatchFromFilename xs = Some v" by simp
    from Cons.IH[OF this] obtain pre a b d post where
      "xs = pre @ ''Deprecated_'' @ a @ ''_'' @ b @ ''_'' @ d @ post
        \<and> a \<noteq> [] \<and> b \<noteq> [] \<and> d \<noteq> []
        \<and> list_all isDigit a \<and> list_all isDigit b \<and> list_all isDigit d
        \<and> v = a @ ''.'' @ b @ ''.'' @ d"
      by blast
    then have "x # xs = (x # pre) @ ''Deprecated_'' @ a @ ''_'' @ b @ ''_'' @ d @ post
        \<and> a \<noteq> [] \<and> b \<noteq> [] \<and> d \<noteq> []
        \<and> list_all isDigit a \<and> list_all isDigit b \<and> list_all isDigit d
        \<and> v = a @ ''.'' @ b @ ''.'' @ d"
      by simp
    then show ?thesis by blast
  next
    case (Some t)
    obtain a b d where t: "t = (a, b, d)" by (cases t)
    with Some Cons.prems have v: "v = a @ ''.'' @ b @ ''.'' @ d" by simp
    from matchPatchHere_form[OF Some[unfolded t]] obtain post where
      "x # xs = [] @ ''Deprecated_'' @ a @ ''_'' @ b @ ''_'' @ d @ post
        \<and> a \<noteq> [] \<and> b \<noteq> [] \<and> d \<noteq> []
        \<and> list_all isDigit a \<and> list_all isDigit b \<and> list_all isDigit d"
      by auto
    with v show ?thesis by blast
  qed
qed

lemma takeWhile_prefix_all: "list_all P xs \<Longrightarrow> takeWhile P (xs @ ys) = xs @ takeWhile P ys"
  by (induction xs) auto

lemma matchPatchHere_complete:
  assumes "a \<noteq> []" "b \<noteq> []" "d \<noteq> []" "list_all isDigit a" "list_all isDigit b" "list_all isDigit d"
  shows "matchPatchHere (''Deprecated_'' @ a @ ''_'' @ b @ ''_'' @ d @ post) \<noteq> None"
proof -
  have 1: "takeWhile isDigit (a @ CHR ''_'' # b @ ''_'' @ d @ post) = a"
    "dropWhile isDigit (a @ CHR ''_'' # b @ ''_'' @ d @ post) = CHR ''_'' # b @ ''_'' @ d @ post"
    using assms(4) by (simp_all add: takeWhile_stop dropWhile_stop)
  have 2: "takeWhile isDigit (b @ CHR ''_'' # d @ post) = b"
    "dropWhile isDigit (b @ CHR ''_'' # d @ post) = CHR ''_'' # d @ post"
    using assms(5) by (simp_all add: takeWhile_stop dropWhile_stop)
  have 3: "takeWhile isDigit (d @ post) \<noteq> []"
    using assms(3,6) by (simp add: takeWhile_prefix_all)
  show ?thesis
    using 1 2 3 assms(1,2)
    by (simp add: matchPatchHere_def dropPrefix_def Let_def)
qed

lemma extractPatch_complete:
  assumes "a \<noteq> []" "b \<noteq> []" "d \<noteq> []" "list_all isDigit a" "list_all isDigit b" "list_all isDigit d"
  shows "extractPatchFromFilename (pre @ ''Deprecated_'' @ a @ ''_'' @ b @ ''_'' @ d @ post) \<noteq> None"
proof (induction pre)
  case Nil
  have "matchPatchHere (''Deprecated_'' @ a @ ''_'' @ b @ ''_'' @ d @ post) \<noteq> None"
    using assms by (rule matchPatchHere_complete)
  then show ?case
    by (auto split: option.splits)
next
  case (Cons x pre)
  then show ?case
    by (auto split: option.splits)
qed

lemma dirName_baseName: "dirName path @ baseName path = path"
proof -
  have "rev (takeWhile (\<lambda>c. \<not> isPathSeparator c) (rev path) @ dropWhile (\<lambda>c. \<not> isPathSeparator c) (rev path)) = path"
    by simp
  then show ?thesis
    unfolding dirName_def baseName_def rev_append .
qed

lemma dirName_ends: "dirName path = [] \<or> isPathSeparator (last (dirName path))"
proof (cases "dropWhile (\<lambda>c. \<not> isPathSeparator c) (rev path)")
  case Nil
  then show ?thesis by (simp add: dirName_def)
next
  case (Cons x xs)
  then have "isPathSeparator x"
    using hd_dropWhile[of "\<lambda>c. \<not> isPathSeparator c" "rev path"] by auto
  with Cons show ?thesis by (simp add: dirName_def)
qed

lemma separator_facts: "isPathSeparator c \<Longrightarrow> \<not> isDigit c \<and> c \<notin> set ''Deprecated_''"
  by (auto simp: isPathSeparator_def isDigit_def)

lemma patch_part_before_separator:
  assumes "matchPatchHere (u @ c # nm) \<noteq> None" and "isPathSeparator c"
  shows "matchPatchHere (u @ [c]) \<noteq> None"
proof -
  from assms(1) obtain a b d where "matchPatchHere (u @ c # nm) = Some (a, b, d)"
    by auto
  from matchPatchHere_form[OF this] obtain post where
    f: "u @ c # nm = ''Deprecated_'' @ a @ ''_'' @ b @ ''_'' @ d @ post"
    and n: "a \<noteq> []" "b \<noteq> []" "d \<noteq> []"
    and g: "list_all isDigit a" "list_all isDigit b" "list_all isDigit d"
    by blast
  let ?W = "''Deprecated_'' @ a @ ''_'' @ b @ ''_'' @ d"
  have cW: "c \<notin> set ?W"
    using separator_facts[OF assms(2)] g by (auto simp: list_all_iff)
  from f have "u @ c # nm = ?W @ post" by simp
  then obtain us where "(u = ?W @ us \<and> us @ c # nm = post) \<or> (u @ us = ?W \<and> c # nm = us @ post)"
    unfolding append_eq_append_conv2 by blast
  then have "\<exists>us'. u @ [c] = ?W @ us'"
  proof
    assume "u = ?W @ us \<and> us @ c # nm = post"
    then have "u @ [c] = ?W @ (us @ [c])" by simp
    then show ?thesis by blast
  next
    assume a: "u @ us = ?W \<and> c # nm = us @ post"
    show ?thesis
    proof (cases us)
      case Nil
      with a have "u @ [c] = ?W @ [c]" by simp
      then show ?thesis by blast
    next
      case (Cons x xs)
      with a have "x = c" by simp
      with Cons a have "c \<in> set ?W"
        by (metis in_set_conv_decomp)
      with cW show ?thesis by simp
    qed
  qed
  then obtain us' where "u @ [c] = ''Deprecated_'' @ a @ ''_'' @ b @ ''_'' @ d @ us'"
    by auto
  then show ?thesis
    using matchPatchHere_complete[OF n g, of us'] by simp
qed

lemma matchPatchHere_separator: "isPathSeparator c \<Longrightarrow> matchPatchHere (c # nm) = None"
  by (auto simp: matchPatchHere_def dropPrefix_def isPathSeparator_def)

lemma extractPatch_snoc_separator:
  "isPathSeparator c \<Longrightarrow> extractPatchFromFilename (u @ [c]) = None \<Longrightarrow>
   extractPatchFromFilename (u @ c # nm) = extractPatchFromFilename nm"
proof (induction u)
  case Nil
  then show ?case
    by (cases nm) (simp_all add: matchPatchHere_separator)
next
  case (Cons x u)
  from Cons.prems(2) have m: "matchPatchHere ((x # u) @ [c]) = None"
      and e: "extractPatchFromFilename (u @ [c]) = None"
    by (auto split: option.splits)
  have "matchPatchHere ((x # u) @ c # nm) = None"
    using patch_part_before_separator[OF _ Cons.prems(1), of "x # u" nm] m by blast
  then have "extractPatchFromFilename ((x # u) @ c # nm) = extractPatchFromFilename (u @ c # nm)"
    by simp
  with Cons.IH[OF Cons.prems(1) e] show ?case by simp
qed

lemma extractPatch_of_name:
  assumes "extractPatchFromFilename (dirName path) = None"
  shows "extractPatchFromFilename path = extractPatchFromFilename (baseName path)"
proof (cases "dirName path = []")
  case True
  with dirName_baseName[of path] show ?thesis by simp
next
  case False
  then obtain u c where d: "dirName path = u @ [c]"
    by (metis rev_exhaust)
  with dirName_ends[of path] have c: "isPathSeparator c" by simp
  have "extractPatchFromFilename (u @ c # baseName path) = extractPatchFromFilename (baseName path)"
    using extractPatch_snoc_separator[OF c] assms d by simp
  moreover have "u @ c # baseName path = path"
    using dirName_baseName[of path] d by simp
  ultimately show ?thesis by simp
qed

lemma extractPatch_exact:
  assumes "a \<noteq> []" "b \<noteq> []" "d \<noteq> []" "list_all isDigit a" "list_all isDigit b" "list_all isDigit d"
    and "post = [] \<or> \<not> isDigit (hd post)"
  shows "extractPatchFromFilename (''Deprecated_'' @ a @ ''_'' @ b @ ''_'' @ d @ post)
         = Some (a @ ''.'' @ b @ ''.'' @ d)"
proof -
  have 1: "takeWhile isDigit (a @ CHR ''_'' # b @ ''_'' @ d @ post) = a"
    "dropWhile isDigit (a @ CHR ''_'' # b @ ''_'' @ d @ post) = CHR ''_'' # b @ ''_'' @ d @ post"
    using assms(4) by (simp_all add: takeWhile_stop dropWhile_stop)
  have 2: "takeWhile isDigit (b @ CHR ''_'' # d @ post) = b"
    "dropWhile isDigit (b @ CHR ''_'' # d @ post) = CHR ''_'' # d @ post"
    using assms(5) by (simp_all add: takeWhile_stop dropWhile_stop)
  have 3: "takeWhile isDigit (d @ post) = d"
    using run_then_stop[of isDigit d post] assms(6,7) by simp
  have "matchPatchHere (''Deprecated_'' @ a @ ''_'' @ b @ ''_'' @ d @ post) = Some (a, b, d)"
    using 1 2 3 assms(1,2,3)
    by (simp add: matchPatchHere_def dropPrefix_def Let_def)
  then show ?thesis
    by simp
qed

lemma extractPatch_None_iff:
  "(extractPatchFromFilename nm = None) =
   (\<nexists>pre a b d post. nm = pre @ ''Deprecated_'' @ a @ ''_'' @ b @ ''_'' @ d @ post
       \<and> a \<noteq> [] \<and> b \<noteq> [] \<and> d \<noteq> []
       \<and> list_all isDigit a \<and> list_all isDigit b \<and> list_all isDigit d)"
proof
  assume "extractPatchFromFilename nm = None"
  then show "\<nexists>pre a b d post. nm = pre @ ''Deprecated_'' @ a @ ''_'' @ b @ ''_'' @ d @ post
       \<and> a \<noteq> [] \<and> b \<noteq> [] \<and> d \<noteq> []
       \<and> list_all isDigit a \<and> list_all isDigit b \<and> list_all isDigit d"
    using extractPatch_complete by metis
next
  assume n: "\<nexists>pre a b d post. nm = pre @ ''Deprecated_'' @ a @ ''_'' @ b @ ''_'' @ d @ post
       \<and> a \<noteq> [] \<and> b \<noteq> [] \<and> d \<noteq> []
       \<and> list_all isDigit a \<and> list_all isDigit b \<and> list_all isDigit d"
  show "extractPatchFromFilename nm = None"
  proof (cases "extractPatchFromFilename nm")
    case None
    then show ?thesis .
  next
    case (Some v)
    from extractPatch_form[OF this] n show ?thesis by blast
  qed
qed

text \<open>
  C2, as the code has it. Let \<open>k\<close> be the qualified name of a function of the deprecated
  pass, whether the primary pass indexed \<open>k\<close> or not, and let no function of the widget
  pass have that name. After the load the index holds under \<open>k\<close> an object of the
  deprecated pass: a function \<open>func\<close> of a deprecated file \<open>fl\<close>, with every field as the
  parser gave it but the flag \<open>deprecated\<close>, which is true, the provenance
  \<^verbatim>\<open>deprecated\<close>, the version list and the patch version. When the directory part of
  the path of \<open>fl\<close> holds no part \<^verbatim>\<open>Deprecated_<a>_<b>_<d>\<close>, the patch version comes from the
  name of the file: it is \<open>a.b.d\<close> when the name is \<^verbatim>\<open>Deprecated_<a>_<b>_<d>\<close> and a rest that
  does not begin with a digit, and it is \<open>null\<close> exactly when the name holds no part of
  that form.
\<close>

theorem deprecated_pass_wins:
  assumes "k \<in> set (map fullName (passFunctions (deprecatedFiles c)))"
    and "k \<notin> set (map fullName (passFunctions (widgetFiles c)))"
  shows "\<exists>r fl func.
     fl \<in> set (deprecatedFiles c) \<and> func \<in> set (p_functions (parseLuaFile (snd fl)))
     \<and> fullName func = k
     \<and> map_get (functionIndex (loadFrom c st)) k = Some r \<and> r < length (heap (loadFrom c st))
     \<and> deprecated (obj (loadFrom c st) r)
     \<and> source (obj (loadFrom c st) r) = Some ''deprecated''
     \<and> (obj (loadFrom c st) r)\<lparr>gameVersions := None, deprecatedInPatch := None\<rparr>
         = func\<lparr>deprecated := True, source := Some ''deprecated'',
                 deprecatedInPatch := None, gameVersions := None\<rparr>
     \<and> (extractPatchFromFilename (dirName (fst fl)) = None \<longrightarrow>
          deprecatedInPatch (obj (loadFrom c st) r) = extractPatchFromFilename (baseName (fst fl))
          \<and> (\<forall>a b d post.
                baseName (fst fl) = ''Deprecated_'' @ a @ ''_'' @ b @ ''_'' @ d @ post
                \<and> a \<noteq> [] \<and> b \<noteq> [] \<and> d \<noteq> []
                \<and> list_all isDigit a \<and> list_all isDigit b \<and> list_all isDigit d
                \<and> (post = [] \<or> \<not> isDigit (hd post))
              \<longrightarrow> deprecatedInPatch (obj (loadFrom c st) r) = Some (a @ ''.'' @ b @ ''.'' @ d))
          \<and> ((deprecatedInPatch (obj (loadFrom c st) r) = None) =
              (\<nexists>pre a b d post.
                 baseName (fst fl) = pre @ ''Deprecated_'' @ a @ ''_'' @ b @ ''_'' @ d @ post
                 \<and> a \<noteq> [] \<and> b \<noteq> [] \<and> d \<noteq> []
                 \<and> list_all isDigit a \<and> list_all isDigit b \<and> list_all isDigit d)))"
proof -
  from deprecated_entry_after_load[OF assms, of st]
  obtain r fl func where rf: "fl \<in> set (deprecatedFiles c)" "func \<in> set (p_functions (parseLuaFile (snd fl)))"
      "fullName func = k" "holdsUpTo k r (deprecatedObject (fst fl) func) (loadFrom c st)"
    by blast
  let ?o = "obj (loadFrom c st) r"
  let ?pv = "extractPatchFromFilename (fst fl)"
  have e: "?o\<lparr>gameVersions := None\<rparr>
         = func\<lparr>deprecatedInPatch := ?pv, deprecated := True, source := Some ''deprecated'', gameVersions := None\<rparr>"
    using rf(4) by (simp add: holdsUpTo_def deprecatedObject_def stampSource_def)
  have "deprecated (?o\<lparr>gameVersions := None\<rparr>)" "deprecatedInPatch (?o\<lparr>gameVersions := None\<rparr>) = ?pv"
      "source (?o\<lparr>gameVersions := None\<rparr>) = Some ''deprecated''"
    unfolding e by simp_all
  then have f: "deprecated ?o" "deprecatedInPatch ?o = ?pv" "source ?o = Some ''deprecated''"
    by simp_all
  have "(?o\<lparr>gameVersions := None\<rparr>)\<lparr>deprecatedInPatch := None\<rparr>
         = func\<lparr>deprecated := True, source := Some ''deprecated'', deprecatedInPatch := None, gameVersions := None\<rparr>"
    unfolding e by simp
  then have e': "?o\<lparr>gameVersions := None, deprecatedInPatch := None\<rparr>
         = func\<lparr>deprecated := True, source := Some ''deprecated'', deprecatedInPatch := None, gameVersions := None\<rparr>"
    by simp
  have g: "extractPatchFromFilename (dirName (fst fl)) = None \<longrightarrow>
          deprecatedInPatch ?o = extractPatchFromFilename (baseName (fst fl))
          \<and> (\<forall>a b d post.
                baseName (fst fl) = ''Deprecated_'' @ a @ ''_'' @ b @ ''_'' @ d @ post
                \<and> a \<noteq> [] \<and> b \<noteq> [] \<and> d \<noteq> []
                \<and> list_all isDigit a \<and> list_all isDigit b \<and> list_all isDigit d
                \<and> (post = [] \<or> \<not> isDigit (hd post))
              \<longrightarrow> deprecatedInPatch ?o = Some (a @ ''.'' @ b @ ''.'' @ d))
          \<and> ((deprecatedInPatch ?o = None) =
              (\<nexists>pre a b d post.
                 baseName (fst fl) = pre @ ''Deprecated_'' @ a @ ''_'' @ b @ ''_'' @ d @ post
                 \<and> a \<noteq> [] \<and> b \<noteq> [] \<and> d \<noteq> []
                 \<and> list_all isDigit a \<and> list_all isDigit b \<and> list_all isDigit d))"
  proof
    assume "extractPatchFromFilename (dirName (fst fl)) = None"
    then have n: "deprecatedInPatch ?o = extractPatchFromFilename (baseName (fst fl))"
      using f(2) extractPatch_of_name by simp
    have x: "\<forall>a b d post.
                baseName (fst fl) = ''Deprecated_'' @ a @ ''_'' @ b @ ''_'' @ d @ post
                \<and> a \<noteq> [] \<and> b \<noteq> [] \<and> d \<noteq> []
                \<and> list_all isDigit a \<and> list_all isDigit b \<and> list_all isDigit d
                \<and> (post = [] \<or> \<not> isDigit (hd post))
              \<longrightarrow> deprecatedInPatch ?o = Some (a @ ''.'' @ b @ ''.'' @ d)"
      unfolding n using extractPatch_exact by metis
    show "deprecatedInPatch ?o = extractPatchFromFilename (baseName (fst fl))
          \<and> (\<forall>a b d post.
                baseName (fst fl) = ''Deprecated_'' @ a @ ''_'' @ b @ ''_'' @ d @ post
                \<and> a \<noteq> [] \<and> b \<noteq> [] \<and> d \<noteq> []
                \<and> list_all isDigit a \<and> list_all isDigit b \<and> list_all isDigit d
                \<and> (post = [] \<or> \<not> isDigit (hd post))
              \<longrightarrow> deprecatedInPatch ?o = Some (a @ ''.'' @ b @ ''.'' @ d))
          \<and> ((deprecatedInPatch ?o = None) =
              (\<nexists>pre a b d post.
                 baseName (fst fl) = pre @ ''Deprecated_'' @ a @ ''_'' @ b @ ''_'' @ d @ post
                 \<and> a \<noteq> [] \<and> b \<noteq> [] \<and> d \<noteq> []
                 \<and> list_all isDigit a \<and> list_all isDigit b \<and> list_all isDigit d))"
      using n x extractPatch_None_iff[of "baseName (fst fl)"] by simp
  qed
  from rf(4) have i: "map_get (functionIndex (loadFrom c st)) k = Some r" "r < length (heap (loadFrom c st))"
    by (simp_all add: holdsUpTo_def)
  show ?thesis
    apply (rule exI[of _ r])
    apply (rule exI[of _ fl])
    apply (rule exI[of _ func])
    apply (intro conjI rf(1) rf(2) rf(3) i f(1) f(3) e' g)
    done
qed


theorem deprecated_pass_wins_witness:
  "''IsSpellKnown'' \<in> set (map fullName (passFunctions (deprecatedFiles patchCorpus)))
   \<and> ''IsSpellKnown'' \<in> set (map fullName (passFunctions (blizzardDocFiles patchCorpus)))
   \<and> ''IsSpellKnown'' \<notin> set (map fullName (passFunctions (widgetFiles patchCorpus)))
   \<and> map fst (deprecatedFiles patchCorpus) = [''FrameXML/Blizzard_Deprecated/Deprecated_11_0_5.lua'']
   \<and> dirName ''FrameXML/Blizzard_Deprecated/Deprecated_11_0_5.lua'' = ''FrameXML/Blizzard_Deprecated/''
   \<and> baseName ''FrameXML/Blizzard_Deprecated/Deprecated_11_0_5.lua'' = ''Deprecated_11_0_5.lua''
   \<and> extractPatchFromFilename ''FrameXML/Blizzard_Deprecated/'' = None
   \<and> (\<exists>r. map_get (functionIndex (loadFrom patchCorpus emptyStore)) ''IsSpellKnown'' = Some r
          \<and> deprecated (obj (loadFrom patchCorpus emptyStore) r)
          \<and> source (obj (loadFrom patchCorpus emptyStore) r) = Some ''deprecated''
          \<and> deprecatedInPatch (obj (loadFrom patchCorpus emptyStore) r) = Some ''11.0.5'')
   \<and> (let st = loadFrom patchCorpus emptyStore in
        map (\<lambda>r. (deprecated (obj st r), deprecatedInPatch (obj st r), replacedBy (obj st r)))
          (lookupApi st ''IsSpellKnown''))
       = [(True, Some ''11.0.5'', Some ''C_SpellBook.IsSpellInSpellBook'')]"
proof -
  let ?path = "''FrameXML/Blizzard_Deprecated/Deprecated_11_0_5.lua''"
  have a: "''IsSpellKnown'' \<in> set (map fullName (passFunctions (deprecatedFiles patchCorpus)))"
    by code_simp
  have b: "''IsSpellKnown'' \<in> set (map fullName (passFunctions (blizzardDocFiles patchCorpus)))"
    by code_simp
  have c: "''IsSpellKnown'' \<notin> set (map fullName (passFunctions (widgetFiles patchCorpus)))"
    by code_simp
  have p: "map fst (deprecatedFiles patchCorpus) = [?path]"
    by (simp add: patchCorpus_def emptyCorpus_def)
  have d: "dirName ?path = ''FrameXML/Blizzard_Deprecated/''"
    by code_simp
  have e: "baseName ?path = ''Deprecated_11_0_5.lua''"
    by code_simp
  have f: "extractPatchFromFilename ''FrameXML/Blizzard_Deprecated/'' = None"
    by code_simp
  have g: "extractPatchFromFilename ''Deprecated_11_0_5.lua'' = Some ''11.0.5''"
    by code_simp
  have h: "(let st = loadFrom patchCorpus emptyStore in
        map (\<lambda>r. (deprecated (obj st r), deprecatedInPatch (obj st r), replacedBy (obj st r)))
          (lookupApi st ''IsSpellKnown''))
       = [(True, Some ''11.0.5'', Some ''C_SpellBook.IsSpellInSpellBook'')]"
    by code_simp
  from deprecated_pass_wins[OF a c, of emptyStore]
  have "\<exists>r fl. fl \<in> set (deprecatedFiles patchCorpus)
      \<and> map_get (functionIndex (loadFrom patchCorpus emptyStore)) ''IsSpellKnown'' = Some r
      \<and> deprecated (obj (loadFrom patchCorpus emptyStore) r)
      \<and> source (obj (loadFrom patchCorpus emptyStore) r) = Some ''deprecated''
      \<and> (extractPatchFromFilename (dirName (fst fl)) = None \<longrightarrow>
           deprecatedInPatch (obj (loadFrom patchCorpus emptyStore) r)
             = extractPatchFromFilename (baseName (fst fl)))"
    apply (elim exE conjE)
    subgoal for r fl func
      apply (rule exI[of _ r])
      apply (rule exI[of _ fl])
      apply (intro conjI impI)
          apply assumption
         apply assumption
        apply assumption
       apply assumption
      apply (drule (1) mp)
      apply (erule conjE)
      apply assumption
      done
    done
  then obtain r fl where fl: "fl \<in> set (deprecatedFiles patchCorpus)"
    and r: "map_get (functionIndex (loadFrom patchCorpus emptyStore)) ''IsSpellKnown'' = Some r"
      "deprecated (obj (loadFrom patchCorpus emptyStore) r)"
      "source (obj (loadFrom patchCorpus emptyStore) r) = Some ''deprecated''"
    and n: "extractPatchFromFilename (dirName (fst fl)) = None \<longrightarrow>
      deprecatedInPatch (obj (loadFrom patchCorpus emptyStore) r) = extractPatchFromFilename (baseName (fst fl))"
    by (elim exE conjE) (rule that)
  from fl have "fst fl \<in> set (map fst (deprecatedFiles patchCorpus))"
    by simp
  then have "fst fl = ?path"
    unfolding p by simp
  with n d e f g have "deprecatedInPatch (obj (loadFrom patchCorpus emptyStore) r) = Some ''11.0.5''"
    by simp
  with r have "\<exists>r. map_get (functionIndex (loadFrom patchCorpus emptyStore)) ''IsSpellKnown'' = Some r
          \<and> deprecated (obj (loadFrom patchCorpus emptyStore) r)
          \<and> source (obj (loadFrom patchCorpus emptyStore) r) = Some ''deprecated''
          \<and> deprecatedInPatch (obj (loadFrom patchCorpus emptyStore) r) = Some ''11.0.5''"
    by blast
  with a b c p d e f h show ?thesis by blast
qed

text \<open>
  C2, as it is stated, fails in two ways. The name of a deprecated file need not hold a
  patch version: then the object is flagged deprecated and its patch version is \<open>null\<close>.
  And the widget pass indexes unconditionally: a widget file that declares the name again
  replaces the object of the deprecated pass, and the object in the index is neither
  flagged nor has a patch version.
\<close>

theorem deprecated_pass_counterexample:
  "map fullName (passFunctions (blizzardDocFiles noPatchCorpus)) = [''IsSpellKnown'']
   \<and> map fullName (passFunctions (deprecatedFiles noPatchCorpus)) = [''IsSpellKnown'']
   \<and> map (\<lambda>fl. baseName (fst fl)) (deprecatedFiles noPatchCorpus) = [''Deprecated_SpellBook.lua'']
   \<and> (let st = loadFrom noPatchCorpus emptyStore in
        map (\<lambda>r. (deprecated (obj st r), deprecatedInPatch (obj st r), source (obj st r)))
          (lookupApi st ''IsSpellKnown''))
       = [(True, None, Some ''deprecated'')]
   \<and> map fullName (passFunctions (blizzardDocFiles widgetOverCorpus)) = [''IsSpellKnown'']
   \<and> map fullName (passFunctions (deprecatedFiles widgetOverCorpus)) = [''IsSpellKnown'']
   \<and> map (\<lambda>fl. baseName (fst fl)) (deprecatedFiles widgetOverCorpus) = [''Deprecated_11_0_5.lua'']
   \<and> (let st = loadFrom widgetOverCorpus emptyStore in
        map (\<lambda>r. (deprecated (obj st r), deprecatedInPatch (obj st r), source (obj st r)))
          (lookupApi st ''IsSpellKnown''))
       = [(False, None, Some ''widget'')]"
  by code_simp

section \<open>Loading twice\<close>

subsection \<open>The passes refine steps on the entries of the function index\<close>

lemma update_append_heap:
  "list_all (\<lambda>e. snd e < length h) fi \<Longrightarrow>
   map (\<lambda>e. (fst e, (h @ [x]) ! snd e)) (AList.update k (length h) fi)
     = AList.update k x (map (\<lambda>e. (fst e, h ! snd e)) fi)"
  by (induction fi) (auto simp: nth_append list_all_iff)

lemma index_ok_refs: "index_ok st \<Longrightarrow> list_all (\<lambda>e. snd e < length (heap st)) (functionIndex st)"
  by (simp add: index_ok_def list_all_iff)

lemma fview_indexFunction:
  "index_ok st \<Longrightarrow> fview (indexFunction func src st) = applyOp (False, stampSource func src) (fview st)"
  using update_append_heap[OF index_ok_refs, of st "stampSource func src" "fullName func"]
  by (simp add: fview_def obj_def map_set_def applyOp_def)

lemma map_of_fview: "(map_of (fview st) k = None) = (map_of (functionIndex st) k = None)"
  by (simp add: fview_def map_of_eq_None_iff image_image)

lemma fview_conditional:
  "index_ok st \<Longrightarrow>
   fview (if \<not> map_has (functionIndex st) (fullName func) then indexFunction func src st else st)
     = applyOp (True, stampSource func src) (fview st)"
  by (simp add: fview_indexFunction map_has_def map_of_fview applyOp_def)

lemma fview_cong:
  "heap st' = heap st \<Longrightarrow> functionIndex st' = functionIndex st \<Longrightarrow> fview st' = fview st"
  by (simp add: fview_def obj_def)

lemma fold_refines:
  assumes "\<And>x s. I s \<Longrightarrow> I (F x s) \<and> fview (F x s) = G x (fview s)" and "I st"
  shows "I (fold F xs st) \<and> fview (fold F xs st) = fold G xs (fview st)"
  using assms(2) by (induction xs arbitrary: st) (simp_all add: assms(1))

lemma fold_keeps:
  assumes "\<And>x s. I s \<Longrightarrow> I (F x s) \<and> fview (F x s) = fview s" and "I st"
  shows "I (fold F xs st) \<and> fview (fold F xs st) = fview st"
  using assms(2) by (induction xs arbitrary: st) (simp_all add: assms(1))

lemma passInv_cong:
  "heap st' = heap st \<Longrightarrow> functionIndex st' = functionIndex st \<Longrightarrow>
   deprecatedList st' = deprecatedList st \<Longrightarrow> flavorMap st' = flavorMap st \<Longrightarrow>
   passInv D fm st' = passInv D fm st"
  by (simp add: passInv_def index_ok_def obj_def)

lemma runOps_append: "runOps (a @ b) m = runOps b (runOps a m)"
  by (simp add: runOps_def)

lemma runOps_Cons: "runOps (op # ops) m = runOps ops (applyOp op m)"
  by (simp add: runOps_def)

lemma runOps_Nil [simp]: "runOps [] m = m"
  by (simp add: runOps_def)

lemma functions_refine:
  assumes "\<And>x s. passInv D fm s \<Longrightarrow> passInv D fm (F x s) \<and> fview (F x s) = applyOp (h x) (fview s)"
    and "passInv D fm st"
  shows "passInv D fm (fold F xs st) \<and> fview (fold F xs st) = runOps (map h xs) (fview st)"
  using assms(2) by (induction xs arbitrary: st) (simp_all add: assms(1) runOps_Cons)

lemma files_refine:
  assumes "\<And>x s. passInv D fm s \<Longrightarrow> passInv D fm (P x s) \<and> fview (P x s) = runOps (map h (fs x)) (fview s)"
    and "passInv D fm st"
  shows "passInv D fm (fold P files st)
         \<and> fview (fold P files st) = runOps (map h (concat (map fs files))) (fview st)"
  using assms(2) by (induction files arbitrary: st) (simp_all add: assms(1) runOps_append)

lemma classes_keep:
  assumes "passInv D fm st"
  shows "passInv D fm (fold indexClass cs st) \<and> fview (fold indexClass cs st) = fview st"
proof (rule fold_keeps[where I = "passInv D fm"])
  show "passInv D fm st" by (rule assms)
next
  fix x s
  assume "passInv D fm s"
  moreover have "deprecatedList (indexClass x s) = deprecatedList s" "flavorMap (indexClass x s) = flavorMap s"
    by (simp_all add: indexClass_def split: option.splits)
  ultimately show "passInv D fm (indexClass x s) \<and> fview (indexClass x s) = fview s"
    by (simp add: passInv_cong[of "indexClass x s" s] fview_cong[of "indexClass x s" s])
qed

lemma indexFunction_refines:
  "passInv D fm s \<Longrightarrow>
   passInv D fm (indexFunction func src s)
   \<and> fview (indexFunction func src s) = applyOp (False, stampSource func src) (fview s)"
  by (simp add: passInv_def index_ok_indexFunction fview_indexFunction)

lemma conditional_refines:
  "passInv D fm s \<Longrightarrow>
   passInv D fm (if \<not> map_has (functionIndex s) (fullName func) then indexFunction func src s else s)
   \<and> fview (if \<not> map_has (functionIndex s) (fullName func) then indexFunction func src s else s)
       = applyOp (True, stampSource func src) (fview s)"
  using fview_conditional[of s func src]
  by (simp add: passInv_def index_ok_indexFunction)

lemma blizzardFile_refines:
  assumes "passInv D fm s"
  shows "passInv D fm (blizzardFile file s)
         \<and> fview (blizzardFile file s)
             = runOps (map (\<lambda>f. (False, stampSource f ''blizzard'')) (p_functions (parseLuaFile (snd file)))) (fview s)"
  using classes_keep[of D fm _ "p_classes (parseLuaFile (snd file))"]
    functions_refine[where F = "\<lambda>func. indexFunction func ''blizzard''" and h = "\<lambda>f. (False, stampSource f ''blizzard'')",
      OF indexFunction_refines assms, of "p_functions (parseLuaFile (snd file))"]
  by (simp add: blizzardFile_def Let_def)

lemma blizzard_pass_refines:
  assumes "passInv D fm st"
  shows "passInv D fm (fold blizzardFile files st)
         \<and> fview (fold blizzardFile files st)
             = runOps (map (\<lambda>f. (False, stampSource f ''blizzard'')) (passFunctions files)) (fview st)"
  unfolding passFunctions_def
  using assms by (intro files_refine blizzardFile_refines)

lemma deprecatedFile_refines:
  assumes "passInv D fm s"
  shows "passInv D fm (deprecatedFile file s)
         \<and> fview (deprecatedFile file s)
             = runOps (map (\<lambda>f. (False, stampSource f ''deprecated''))
                 (map (\<lambda>func. func\<lparr>deprecatedInPatch := extractPatchFromFilename (fst file), deprecated := True\<rparr>)
                    (p_functions (parseLuaFile (snd file))))) (fview s)"
  using functions_refine[where F = "deprecatedFunction (extractPatchFromFilename (fst file))"
      and h = "\<lambda>func. (False, stampSource (func\<lparr>deprecatedInPatch := extractPatchFromFilename (fst file), deprecated := True\<rparr>) ''deprecated'')",
      OF _ assms, of "p_functions (parseLuaFile (snd file))"]
    indexFunction_refines[of D fm]
  by (simp add: deprecatedFile_def Let_def deprecatedFunction_def comp_def)

lemma deprecated_pass_refines:
  assumes "passInv D fm st"
  shows "passInv D fm (fold deprecatedFile files st)
         \<and> fview (fold deprecatedFile files st)
             = runOps (map (\<lambda>f. (False, stampSource f ''deprecated'')) (deprecatedPassFunctions files)) (fview st)"
  unfolding deprecatedPassFunctions_def
  using assms by (intro files_refine deprecatedFile_refines)

lemma markDeprecated_fullName [simp]: "fullName (markDeprecated D func) = fullName func"
  by (simp add: markDeprecated_def)

lemma wikiFunction_refines:
  assumes "passInv D fm s"
  shows "passInv D fm (wikiFunction func s)
         \<and> fview (wikiFunction func s) = applyOp (True, stampSource (markDeprecated D func) ''wiki'') (fview s)"
proof -
  have d: "deprecatedList s = D"
    using assms by (simp add: passInv_def)
  have "wikiFunction func s =
      (if \<not> map_has (functionIndex s) (fullName (markDeprecated D func))
       then indexFunction (markDeprecated D func) ''wiki'' s else s)"
    by (simp add: wikiFunction_def Let_def markDeprecated_def d)
  then show ?thesis
    using conditional_refines[OF assms, of "markDeprecated D func" "''wiki''"] by simp
qed

lemma wiki_pass_refines:
  assumes "passInv D fm st"
  shows "passInv D fm (loadWiki c st)
         \<and> fview (loadWiki c st)
             = runOps (map (\<lambda>f. (True, stampSource (markDeprecated D f) ''wiki'')) (wikiFunctions c)) (fview st)"
proof (cases "wikiLua c")
  case None
  with assms show ?thesis by (simp add: loadWiki_def wikiFunctions_def)
next
  case (Some content)
  then show ?thesis
    using functions_refine[where F = wikiFunction and h = "\<lambda>f. (True, stampSource (markDeprecated D f) ''wiki'')",
        OF wikiFunction_refines assms, of "p_functions (parseLuaFile content)"]
    by (simp add: loadWiki_def wikiFunctions_def wikiFile_def)
qed

lemma widgetFunction_refines:
  assumes "passInv D fm s"
  shows "passInv D fm (widgetFunction func s)
         \<and> fview (widgetFunction func s) = applyOp (False, stampSource func ''widget'') (fview s)"
  using indexFunction_refines[OF assms, of func "''widget''"]
    passInv_cong[of "(indexFunction func ''widget'' s)\<lparr>widgets := w\<rparr>" "indexFunction func ''widget'' s" D fm for w]
    fview_cong[of "(indexFunction func ''widget'' s)\<lparr>widgets := w\<rparr>" "indexFunction func ''widget'' s" for w]
  by (simp add: widgetFunction_def Let_def)

lemma widgetFile_refines:
  assumes "passInv D fm s"
  shows "passInv D fm (widgetFile file s)
         \<and> fview (widgetFile file s)
             = runOps (map (\<lambda>f. (False, stampSource f ''widget'')) (p_functions (parseLuaFile (snd file)))) (fview s)"
proof -
  define s1 where "s1 = fold indexClass (p_classes (parseLuaFile (snd file))) s"
  have 1: "passInv D fm s1 \<and> fview s1 = fview s"
    unfolding s1_def using assms by (rule classes_keep)
  then have "passInv D fm s1" by simp
  from functions_refine[where F = widgetFunction and h = "\<lambda>f. (False, stampSource f ''widget'')",
      OF widgetFunction_refines this, of "p_functions (parseLuaFile (snd file))"] 1
  show ?thesis
    by (simp add: widgetFile_def Let_def s1_def)
qed

lemma widget_pass_refines:
  assumes "passInv D fm st"
  shows "passInv D fm (fold widgetFile files st)
         \<and> fview (fold widgetFile files st)
             = runOps (map (\<lambda>f. (False, stampSource f ''widget'')) (passFunctions files)) (fview st)"
  unfolding passFunctions_def
  using assms by (intro files_refine widgetFile_refines)

lemma frameXmlFile_refines:
  assumes "passInv D fm s"
  shows "passInv D fm (frameXmlFile file s)
         \<and> fview (frameXmlFile file s)
             = runOps (map (\<lambda>f. (True, stampSource f ''framexml'')) (p_functions (parseLuaFile (snd file)))) (fview s)"
proof -
  define s1 where "s1 = fold indexClass (p_classes (parseLuaFile (snd file))) s"
  have 1: "passInv D fm s1 \<and> fview s1 = fview s"
    unfolding s1_def using assms by (rule classes_keep)
  then have "passInv D fm s1" by simp
  from functions_refine[where F = frameXmlFunction and h = "\<lambda>f. (True, stampSource f ''framexml'')",
      OF _ this, of "p_functions (parseLuaFile (snd file))"] 1 conditional_refines[of D fm]
  show ?thesis
    by (simp add: frameXmlFile_def Let_def s1_def frameXmlFunction_def)
qed

lemma frameXml_pass_refines:
  assumes "passInv D fm st"
  shows "passInv D fm (fold frameXmlFile files st)
         \<and> fview (fold frameXmlFile files st)
             = runOps (map (\<lambda>f. (True, stampSource f ''framexml'')) (passFunctions files)) (fview st)"
  unfolding passFunctions_def
  using assms by (intro files_refine frameXmlFile_refines)

lemma addDeprecatedName_rest [simp]:
  "flavorMap (addDeprecatedName nm st) = flavorMap st"
  "extensionVersion (addDeprecatedName nm st) = extensionVersion st"
  "widgets (addDeprecatedName nm st) = widgets st"
  "enums (addDeprecatedName nm st) = enums st"
  "events (addDeprecatedName nm st) = events st"
  "cvars (addDeprecatedName nm st) = cvars st"
  by (simp_all add: addDeprecatedName_def)

lemma fold_addDeprecatedName_core:
  "heap (fold addDeprecatedName nms st) = heap st
   \<and> functionIndex (fold addDeprecatedName nms st) = functionIndex st
   \<and> flavorMap (fold addDeprecatedName nms st) = flavorMap st"
  by (induction nms arbitrary: st) simp_all

lemma sideStore_core:
  "heap (sideStore c st) = heap st \<and> functionIndex (sideStore c st) = functionIndex st"
  by (simp add: sideStore_def loadDeprecatedList_def loadFlavor_def loadVersion_def
      fold_addDeprecatedName_core split: option.splits)

lemma passInv_sideStore:
  "index_ok st \<Longrightarrow> passInv (deprecatedList (sideStore c st)) (flavorMap (sideStore c st)) (sideStore c st)"
  using sideStore_core[of c st] by (simp add: passInv_def index_ok_def obj_def)

lemma fview_sideStore: "fview (sideStore c st) = fview st"
  using sideStore_core[of c st] by (intro fview_cong) simp_all

lemma loadPasses_refines:
  assumes "index_ok st"
  shows "passInv (deprecatedList (sideStore c st)) (flavorMap (sideStore c st)) (loadPasses c st)
         \<and> fview (loadPasses c st) = runOps (loadOps c (deprecatedList (sideStore c st))) (fview st)"
proof -
  let ?D = "deprecatedList (sideStore c st)"
  let ?fm = "flavorMap (sideStore c st)"
  let ?s0 = "sideStore c st"
  let ?s1 = "fold blizzardFile (blizzardDocFiles c) ?s0"
  let ?s2 = "fold deprecatedFile (deprecatedFiles c) ?s1"
  let ?s3 = "loadWiki c ?s2"
  let ?s4 = "fold widgetFile (widgetFiles c) ?s3"
  let ?s5 = "fold frameXmlFile (frameXmlFiles c) ?s4"
  have 0: "passInv ?D ?fm ?s0"
    using assms by (rule passInv_sideStore)
  have 1: "passInv ?D ?fm ?s1 \<and> fview ?s1
      = runOps (map (\<lambda>f. (False, stampSource f ''blizzard'')) (passFunctions (blizzardDocFiles c))) (fview ?s0)"
    using 0 by (rule blizzard_pass_refines)
  then have i1: "passInv ?D ?fm ?s1" by simp
  have 2: "passInv ?D ?fm ?s2 \<and> fview ?s2
      = runOps (map (\<lambda>f. (False, stampSource f ''deprecated'')) (deprecatedPassFunctions (deprecatedFiles c))) (fview ?s1)"
    using i1 by (rule deprecated_pass_refines)
  then have i2: "passInv ?D ?fm ?s2" by simp
  have 3: "passInv ?D ?fm ?s3 \<and> fview ?s3
      = runOps (map (\<lambda>f. (True, stampSource (markDeprecated ?D f) ''wiki'')) (wikiFunctions c)) (fview ?s2)"
    using i2 by (rule wiki_pass_refines)
  then have i3: "passInv ?D ?fm ?s3" by simp
  have 4: "passInv ?D ?fm ?s4 \<and> fview ?s4
      = runOps (map (\<lambda>f. (False, stampSource f ''widget'')) (passFunctions (widgetFiles c))) (fview ?s3)"
    using i3 by (rule widget_pass_refines)
  then have i4: "passInv ?D ?fm ?s4" by simp
  have 5: "passInv ?D ?fm ?s5 \<and> fview ?s5
      = runOps (map (\<lambda>f. (True, stampSource f ''framexml'')) (passFunctions (frameXmlFiles c))) (fview ?s4)"
    using i4 by (rule frameXml_pass_refines)
  have e: "loadPasses c st = ?s5"
    by (simp add: loadPasses_def sideStore_def)
  show ?thesis
    unfolding e using 1 2 3 4 5
    by (simp add: loadOps_def runOps_append fview_sideStore)
qed

lemma loadData_core:
  "heap (loadData c st) = heap st \<and> functionIndex (loadData c st) = functionIndex st
   \<and> deprecatedList (loadData c st) = deprecatedList st \<and> flavorMap (loadData c st) = flavorMap st"
  by (simp add: loadData_def Let_def split: option.splits)

lemma applyFlavor_enrich:
  "applyFlavor e st = st\<lparr>heap := (heap st)[snd e := enrich (flavorMap st) (fst e) (heap st ! snd e)]\<rparr>"
  by (simp add: applyFlavor_def enrich_def Let_def obj_def split: option.splits)

lemma fold_applyFlavor_heap:
  "fold applyFlavor es st
     = st\<lparr>heap := fold (\<lambda>e h. h[snd e := enrich (flavorMap st) (fst e) (h ! snd e)]) es (heap st)\<rparr>"
proof (induction es arbitrary: st)
  case Nil
  show ?case by simp
next
  case (Cons e es)
  show ?case
    by (simp add: Cons[of "applyFlavor e st"]) (simp add: applyFlavor_enrich)
qed

lemma fold_update_nth:
  assumes "distinct (map snd es)" and "list_all (\<lambda>e. snd e < length h) es"
  shows "length (fold (\<lambda>e h. h[snd e := g e (h ! snd e)]) es h) = length h
         \<and> (\<forall>r. fold (\<lambda>e h. h[snd e := g e (h ! snd e)]) es h ! r
                = (case find (\<lambda>e. snd e = r) es of Some e \<Rightarrow> g e (h ! r) | None \<Rightarrow> h ! r))"
  using assms
proof (induction es arbitrary: h)
  case Nil
  show ?case by simp
next
  case (Cons x es)
  let ?h = "h[snd x := g x (h ! snd x)]"
  have ih: "length (fold (\<lambda>e h. h[snd e := g e (h ! snd e)]) es ?h) = length ?h
         \<and> (\<forall>r. fold (\<lambda>e h. h[snd e := g e (h ! snd e)]) es ?h ! r
                = (case find (\<lambda>e. snd e = r) es of Some e \<Rightarrow> g e (?h ! r) | None \<Rightarrow> ?h ! r))"
    using Cons.prems by (intro Cons.IH) simp_all
  have nf: "find (\<lambda>e. snd e = snd x) es = None"
  proof -
    have "snd x \<notin> set (map snd es)"
      using Cons.prems(1) by simp
    then have "\<forall>e \<in> set es. snd e \<noteq> snd x"
      by (metis image_eqI set_map)
    then show ?thesis
      by (force simp: find_None_iff)
  qed
  have lt: "snd x < length h"
    using Cons.prems(2) by simp
  show ?case
  proof (intro conjI allI)
    show "length (fold (\<lambda>e h. h[snd e := g e (h ! snd e)]) (x # es) h) = length h"
      using ih by simp
  next
    fix r
    show "fold (\<lambda>e h. h[snd e := g e (h ! snd e)]) (x # es) h ! r
        = (case find (\<lambda>e. snd e = r) (x # es) of Some e \<Rightarrow> g e (h ! r) | None \<Rightarrow> h ! r)"
    proof (cases "r = snd x")
      case True
      with ih nf lt show ?thesis by simp
    next
      case False
      with ih show ?thesis by (simp split: option.splits)
    qed
  qed
qed

subsection \<open>Repeating the steps\<close>

lemma distinct_refs:
  assumes "index_ok st" and "distinct (map fst (functionIndex st))"
  shows "distinct (map snd (functionIndex st))"
proof -
  have d: "distinct (functionIndex st)"
    using assms(2) by (simp add: distinct_map)
  have ok: "\<And>x. x \<in> set (functionIndex st) \<Longrightarrow> fullName (obj st (snd x)) = fst x"
    using assms(1) by (simp add: index_ok_def list_all_iff)
  have "inj_on snd (set (functionIndex st))"
  proof (rule inj_onI)
    fix e e'
    assume e: "e \<in> set (functionIndex st)" and e': "e' \<in> set (functionIndex st)"
      and s: "snd e = snd e'"
    have "fst e = fst e'"
      using ok[OF e] ok[OF e'] s by metis
    with s show "e = e'"
      by (simp add: prod_eq_iff)
  qed
  with d show ?thesis
    by (simp add: distinct_map)
qed

lemma find_own_ref:
  "distinct (map snd es) \<Longrightarrow> e \<in> set es \<Longrightarrow> find (\<lambda>e'. snd e' = snd e) es = Some e"
proof (induction es)
  case Nil
  then show ?case by simp
next
  case (Cons x es)
  show ?case
  proof (cases "e = x")
    case True
    then show ?thesis by simp
  next
    case False
    with Cons.prems have "e \<in> set es" by simp
    with Cons.prems(1) have "snd x \<noteq> snd e"
      by (metis distinct.simps(2) image_eqI list.simps(9) set_map)
    with Cons \<open>e \<in> set es\<close> show ?thesis by simp
  qed
qed

lemma fview_applyFlavors:
  assumes "index_ok st" and "distinct (map fst (functionIndex st))"
  shows "fview (applyFlavors st) = enrichAll (flavorMap st) (fview st)"
proof -
  let ?g = "\<lambda>e. enrich (flavorMap st) (fst e)"
  let ?h = "fold (\<lambda>e h. h[snd e := ?g e (h ! snd e)]) (functionIndex st) (heap st)"
  have a: "applyFlavors st = st\<lparr>heap := ?h\<rparr>"
    by (simp add: applyFlavors_def fold_applyFlavor_heap)
  have dr: "distinct (map snd (functionIndex st))"
    using assms by (rule distinct_refs)
  have n: "\<forall>r. ?h ! r = (case find (\<lambda>e. snd e = r) (functionIndex st) of
                           Some e \<Rightarrow> ?g e (heap st ! r) | None \<Rightarrow> heap st ! r)"
    using fold_update_nth[OF dr index_ok_refs[OF assms(1)], of ?g] by blast
  have "(fst e, ?h ! snd e) = (fst e, enrich (flavorMap st) (fst e) (heap st ! snd e))"
    if "e \<in> set (functionIndex st)" for e
    using n find_own_ref[OF dr that] by simp
  then show ?thesis
    unfolding a by (simp add: fview_def enrichAll_def obj_def)
qed

lemma keys_fview: "map fst (fview st) = map fst (functionIndex st)"
  by (simp add: fview_def)

lemma update_present_map:
  "distinct (map fst m) \<Longrightarrow> k \<in> set (map fst m) \<Longrightarrow>
   AList.update k v m = map (\<lambda>e. (fst e, if fst e = k then v else snd e)) m"
proof (induction m)
  case Nil
  then show ?case by simp
next
  case (Cons x m)
  show ?case
  proof (cases "fst x = k")
    case True
    from Cons.prems(1) have "fst x \<notin> fst ` set m" by simp
    with True have "\<forall>e \<in> set m. fst e \<noteq> k" by (auto simp: image_iff)
    then have "map (\<lambda>e. (fst e, if fst e = k then v else snd e)) m = m"
      by (induction m) auto
    with True show ?thesis by simp
  next
    case False
    with Cons show ?thesis by simp
  qed
qed

lemma update_absent:
  "k \<notin> fst ` set m \<Longrightarrow> AList.update k v m = m @ [(k, v)]"
  by (induction m) auto

lemma keys_applyOp:
  "map fst (applyOp op m)
     = (if fullName (snd op) \<in> set (map fst m) then map fst m else map fst m @ [fullName (snd op)])"
  by (auto simp: applyOp_def update_keys map_of_eq_None_iff)

lemma distinct_applyOp: "distinct (map fst m) \<Longrightarrow> distinct (map fst (applyOp op m))"
  by (simp add: keys_applyOp)

lemma distinct_runOps: "distinct (map fst m) \<Longrightarrow> distinct (map fst (runOps ops m))"
  by (induction ops arbitrary: m) (simp_all add: runOps_Cons distinct_applyOp)

lemma keys_runOps_mono: "set (map fst m) \<subseteq> set (map fst (runOps ops m))"
proof (induction ops arbitrary: m)
  case Nil
  show ?case by simp
next
  case (Cons op ops)
  have "set (map fst m) \<subseteq> set (map fst (applyOp op m))"
    by (auto simp: keys_applyOp)
  with Cons[of "applyOp op m"] show ?case
    by (auto simp: runOps_Cons)
qed

lemma op_keys_present: "fullName ` snd ` set ops \<subseteq> set (map fst (runOps ops m))"
proof (induction ops arbitrary: m)
  case Nil
  show ?case by simp
next
  case (Cons op ops)
  have "fullName (snd op) \<in> set (map fst (applyOp op m))"
    by (auto simp: keys_applyOp)
  with keys_runOps_mono[of "applyOp op m" ops] Cons[of "applyOp op m"] show ?case
    by (auto simp: runOps_Cons)
qed

lemma final_Nil [simp]: "final [] k v = v"
  by (simp add: final_def)

lemma final_Cons: "final (op # ops) k v = final ops k (if fullName (snd op) = k \<and> \<not> fst op then snd op else v)"
  by (simp add: final_def)

lemma final_snoc: "final (ops @ [op]) k v = (if fullName (snd op) = k \<and> \<not> fst op then snd op else final ops k v)"
  by (simp add: final_def)

lemma runOps_present:
  "distinct (map fst m) \<Longrightarrow> fullName ` snd ` set ops \<subseteq> set (map fst m) \<Longrightarrow>
   runOps ops m = map (\<lambda>e. (fst e, final ops (fst e) (snd e))) m"
proof (induction ops arbitrary: m)
  case Nil
  show ?case by simp
next
  case (Cons op ops)
  let ?k = "fullName (snd op)"
  have kin: "?k \<in> set (map fst m)"
    using Cons.prems(2) by auto
  then have some: "map_of m ?k \<noteq> None"
    by (simp add: map_of_eq_None_iff)
  have a: "applyOp op m = map (\<lambda>e. (fst e, if fst e = ?k \<and> \<not> fst op then snd op else snd e)) m"
  proof (cases "fst op")
    case True
    with some show ?thesis by (simp add: applyOp_def)
  next
    case False
    then show ?thesis
      using update_present_map[OF Cons.prems(1) kin] by (simp add: applyOp_def)
  qed
  have k: "map fst (applyOp op m) = map fst m"
    unfolding a by simp
  have "runOps ops (applyOp op m) = map (\<lambda>e. (fst e, final ops (fst e) (snd e))) (applyOp op m)"
    using Cons.prems by (intro Cons.IH) (auto simp: k)
  then show ?case
    unfolding runOps_Cons by (simp add: a final_Cons comp_def)
qed

lemma final_fixed:
  assumes "distinct (map fst m)"
  shows "list_all (\<lambda>e. final ops (fst e) (snd e) = snd e) (runOps ops m)"
proof (induction ops rule: rev_induct)
  case Nil
  show ?case by (simp add: list_all_iff)
next
  case (snoc op ops)
  let ?m = "runOps ops m"
  let ?k = "fullName (snd op)"
  have d: "distinct (map fst ?m)"
    using assms by (rule distinct_runOps)
  have r: "runOps (ops @ [op]) m = applyOp op ?m"
    by (simp add: runOps_append runOps_Cons)
  have ih: "\<And>e. e \<in> set ?m \<Longrightarrow> final ops (fst e) (snd e) = snd e"
    using snoc by (simp add: list_all_iff)
  show ?case
  proof (cases "fst op \<and> map_of ?m ?k \<noteq> None")
    case True
    then have "applyOp op ?m = ?m" by (simp add: applyOp_def)
    with True ih show ?thesis
      unfolding r by (simp add: list_all_iff final_snoc)
  next
    case False
    then have u: "applyOp op ?m = AList.update ?k (snd op) ?m"
      by (auto simp: applyOp_def)
    show ?thesis
    proof (cases "?k \<in> set (map fst ?m)")
      case True
      with False have nc: "\<not> fst op"
        by (auto simp: map_of_eq_None_iff)
      have "applyOp op ?m = map (\<lambda>e. (fst e, if fst e = ?k then snd op else snd e)) ?m"
        unfolding u using d True by (rule update_present_map)
      then show ?thesis
        unfolding r using ih nc by (auto simp: list_all_iff final_snoc)
    next
      case False
      then have "applyOp op ?m = ?m @ [(?k, snd op)]"
        unfolding u by (simp add: update_absent)
      moreover have "final ops ?k (snd op) = snd op"
      proof -
        have "?k \<notin> fullName ` snd ` set ops"
          using False op_keys_present[of ops m] by auto
        then have "\<And>v. final ops ?k v = v"
          by (induction ops) (auto simp: final_Cons)
        then show ?thesis by simp
      qed
      ultimately show ?thesis
        unfolding r using ih False by (auto simp: list_all_iff final_snoc)
    qed
  qed
qed

lemma final_cases: "(\<forall>v. final ops k v = v) \<or> (\<forall>v v'. final ops k v = final ops k v')"
proof (induction ops rule: rev_induct)
  case Nil
  show ?case by simp
next
  case (snoc op ops)
  then show ?case
    by (cases "fullName (snd op) = k \<and> \<not> fst op") (auto simp: final_snoc)
qed

lemma shortNameOf_gameVersions [simp]: "shortNameOf (func\<lparr>gameVersions := v\<rparr>) k = shortNameOf func k"
  by (simp add: shortNameOf_def)

lemma enrich_idem: "enrich fm k (enrich fm k func) = enrich fm k func"
  by (simp add: enrich_def split: option.splits)

lemma keys_enrichAll [simp]: "map fst (enrichAll fm m) = map fst m"
  by (simp add: enrichAll_def comp_def)

lemma reload_values:
  assumes "distinct (map fst m0)"
  shows "enrichAll fm (runOps ops (enrichAll fm (runOps ops m0))) = enrichAll fm (runOps ops m0)"
proof -
  let ?m1 = "runOps ops m0"
  have d1: "distinct (map fst (enrichAll fm ?m1))"
    using assms by (simp add: distinct_runOps)
  have k1: "fullName ` snd ` set ops \<subseteq> set (map fst (enrichAll fm ?m1))"
    using op_keys_present[of ops m0] by simp
  have r: "runOps ops (enrichAll fm ?m1)
      = map (\<lambda>e. (fst e, final ops (fst e) (snd e))) (enrichAll fm ?m1)"
    using d1 k1 by (rule runOps_present)
  have fx: "\<And>e. e \<in> set ?m1 \<Longrightarrow> final ops (fst e) (snd e) = snd e"
    using final_fixed[OF assms, of ops] by (simp add: list_all_iff)
  have "enrich fm (fst e) (final ops (fst e) (enrich fm (fst e) (snd e))) = enrich fm (fst e) (snd e)"
    if "e \<in> set ?m1" for e
  proof -
    from final_cases[of ops "fst e"] show ?thesis
    proof
      assume "\<forall>v. final ops (fst e) v = v"
      then show ?thesis by (simp add: enrich_idem)
    next
      assume "\<forall>v v'. final ops (fst e) v = final ops (fst e) v'"
      then have "final ops (fst e) (enrich fm (fst e) (snd e)) = final ops (fst e) (snd e)"
        by blast
      with fx[OF that] show ?thesis by simp
    qed
  qed
  then show ?thesis
    unfolding r by (simp add: enrichAll_def comp_def)
qed

lemma applyFlavors_rest:
  "functionIndex (applyFlavors st) = functionIndex st"
  "flavorMap (applyFlavors st) = flavorMap st"
  "deprecatedList (applyFlavors st) = deprecatedList st"
  "events (applyFlavors st) = events st"
  "cvars (applyFlavors st) = cvars st"
  "extensionVersion (applyFlavors st) = extensionVersion st"
  "namespaces (applyFlavors st) = namespaces st"
  "widgets (applyFlavors st) = widgets st"
  by (subst applyFlavors_heap_only, simp)+

lemma fview_loadFrom:
  assumes "index_ok st" and "distinct (map fst (functionIndex st))"
  shows "fview (loadFrom c st)
           = enrichAll (flavorMap (sideStore c st)) (runOps (loadOps c (deprecatedList (sideStore c st))) (fview st))
         \<and> flavorMap (loadFrom c st) = flavorMap (sideStore c st)
         \<and> deprecatedList (loadFrom c st) = deprecatedList (sideStore c st)
         \<and> distinct (map fst (functionIndex (loadFrom c st)))"
proof -
  let ?D = "deprecatedList (sideStore c st)"
  let ?fm = "flavorMap (sideStore c st)"
  let ?p = "loadPasses c st"
  let ?d = "loadData c ?p"
  have p: "passInv ?D ?fm ?p" "fview ?p = runOps (loadOps c ?D) (fview st)"
    using loadPasses_refines[OF assms(1), of c] by simp_all
  have core: "heap ?d = heap ?p" "functionIndex ?d = functionIndex ?p"
      "deprecatedList ?d = deprecatedList ?p" "flavorMap ?d = flavorMap ?p"
    using loadData_core[of c ?p] by simp_all
  have i: "index_ok ?d" "deprecatedList ?d = ?D" "flavorMap ?d = ?fm"
    using p(1) core by (simp_all add: passInv_def index_ok_def obj_def)
  have fv: "fview ?d = fview ?p"
    using core by (intro fview_cong) simp_all
  have "distinct (map fst (fview ?p))"
    unfolding p(2) using assms(2) by (intro distinct_runOps) (simp add: keys_fview)
  then have dk: "distinct (map fst (functionIndex ?d))"
    by (simp add: keys_fview core)
  have "fview (applyFlavors ?d) = enrichAll ?fm (fview ?d)"
    using fview_applyFlavors[OF i(1) dk] i(3) by simp
  then show ?thesis
    using i dk by (simp add: loadFrom_def fv p(2) applyFlavors_rest)
qed

lemma fold_addDeprecatedName_members:
  "set nms \<subseteq> set (deprecatedList (fold addDeprecatedName nms st))
   \<and> set (deprecatedList st) \<subseteq> set (deprecatedList (fold addDeprecatedName nms st))"
proof (induction nms arbitrary: st)
  case Nil
  show ?case by simp
next
  case (Cons nm nms)
  have "nm \<in> set (deprecatedList (addDeprecatedName nm st))"
      "set (deprecatedList st) \<subseteq> set (deprecatedList (addDeprecatedName nm st))"
    by (auto simp: addDeprecatedName_def)
  with Cons[of "addDeprecatedName nm st"] show ?case by auto
qed

lemma fold_addDeprecatedName_again:
  "set nms \<subseteq> set (deprecatedList st) \<Longrightarrow> deprecatedList (fold addDeprecatedName nms st) = deprecatedList st"
proof (induction nms arbitrary: st)
  case Nil
  show ?case by simp
next
  case (Cons nm nms)
  then have "addDeprecatedName nm st = st"
    by (auto simp: addDeprecatedName_def)
  with Cons show ?case by simp
qed

lemma loadFlavor_loadVersion_deprecatedList [simp]:
  "deprecatedList (loadFlavor c (loadVersion c st)) = deprecatedList st"
  by (simp add: loadFlavor_def loadVersion_def split: option.splits)

lemma sideStore_deprecatedList:
  "deprecatedList (sideStore c st)
     = (case deprecatedJs c of None \<Rightarrow> deprecatedList st
        | Some content \<Rightarrow> deprecatedList (fold addDeprecatedName (parseDeprecatedFile content)
                                            (loadFlavor c (loadVersion c st))))"
  by (simp add: sideStore_def loadDeprecatedList_def split: option.splits)

lemma sideStore_again:
  assumes "deprecatedList st1 = deprecatedList (sideStore c st0)"
  shows "deprecatedList (sideStore c st1) = deprecatedList (sideStore c st0)"
proof (cases "deprecatedJs c")
  case None
  with assms show ?thesis by (simp add: sideStore_deprecatedList)
next
  case (Some content)
  let ?n = "parseDeprecatedFile content"
  have "set ?n \<subseteq> set (deprecatedList (sideStore c st0))"
    using Some fold_addDeprecatedName_members[of ?n "loadFlavor c (loadVersion c st0)"]
    by (simp add: sideStore_deprecatedList)
  then have "set ?n \<subseteq> set (deprecatedList (loadFlavor c (loadVersion c st1)))"
    using assms by simp
  then have "deprecatedList (fold addDeprecatedName ?n (loadFlavor c (loadVersion c st1)))
      = deprecatedList (loadFlavor c (loadVersion c st1))"
    by (rule fold_addDeprecatedName_again)
  with Some assms show ?thesis
    by (simp add: sideStore_deprecatedList)
qed

lemma sideStore_flavorMap:
  "flavorMap (sideStore c st) = (case flavorJs c of None \<Rightarrow> flavorMap st | Some content \<Rightarrow> parseFlavorFile content)"
proof -
  have "flavorMap (fold addDeprecatedName nms s) = flavorMap s" for nms s
    using fold_addDeprecatedName_core by blast
  then show ?thesis
    by (simp add: sideStore_def loadDeprecatedList_def loadFlavor_def loadVersion_def split: option.splits)
qed

lemma reload_fview:
  assumes "wf_store st0" and "distinct (map fst (functionIndex st0))"
  shows "fview (loadFrom c (loadFrom c st0)) = fview (loadFrom c st0)
         \<and> flavorMap (loadFrom c (loadFrom c st0)) = flavorMap (loadFrom c st0)
         \<and> deprecatedList (loadFrom c (loadFrom c st0)) = deprecatedList (loadFrom c st0)"
proof -
  let ?st1 = "loadFrom c st0"
  let ?D = "deprecatedList (sideStore c st0)"
  let ?fm = "flavorMap (sideStore c st0)"
  have i0: "index_ok st0"
    using assms(1) by (simp add: wf_store_def)
  note l1 = fview_loadFrom[OF i0 assms(2), of c]
  have i1: "index_ok ?st1"
    using wf_store_loadFrom[OF assms(1), of c] by (simp add: wf_store_def)
  have d1: "distinct (map fst (functionIndex ?st1))"
    using l1 by simp
  note l2 = fview_loadFrom[OF i1 d1, of c]
  have D: "deprecatedList (sideStore c ?st1) = ?D"
    using l1 by (intro sideStore_again) simp
  have F: "flavorMap (sideStore c ?st1) = ?fm"
    using l1 by (simp add: sideStore_flavorMap split: option.splits)
  have "fview (loadFrom c ?st1) = enrichAll ?fm (runOps (loadOps c ?D) (enrichAll ?fm (runOps (loadOps c ?D) (fview st0))))"
    using l1 l2 D F by simp
  also have "\<dots> = enrichAll ?fm (runOps (loadOps c ?D) (fview st0))"
    using assms(2) by (intro reload_values) (simp add: keys_fview)
  also have "\<dots> = fview ?st1"
    using l1 by simp
  finally show ?thesis
    using l1 l2 D F by simp
qed

subsection \<open>The queries on the function index\<close>

lemma map_of_map_values: "map_of (map (\<lambda>e. (fst e, g (snd e))) xs) k = map_option g (map_of xs k)"
  by (induction xs) auto

lemma find_map_list: "find P (map f xs) = map_option f (find (\<lambda>x. P (f x)) xs)"
  by (induction xs) auto

lemma map_of_fview_eq: "map_of (fview st) k = map_option (obj st) (map_of (functionIndex st) k)"
  by (simp add: fview_def map_of_map_values)

lemma lookupApi_view: "map (obj st) (lookupApi st nm) = lookupRecords (fview st) nm"
proof (cases "map_of (functionIndex st) nm")
  case (Some r)
  then show ?thesis
    by (simp add: lookupApi_def lookupRecords_def map_get_def map_of_fview_eq)
next
  case None
  have f: "find (\<lambda>e. toLowerCase (fst e) = toLowerCase nm) (fview st)
      = map_option (\<lambda>e. (fst e, obj st (snd e))) (find (\<lambda>e. toLowerCase (fst e) = toLowerCase nm) (functionIndex st))"
    by (simp add: fview_def find_map_list)
  show ?thesis
  proof (cases "find (\<lambda>e. toLowerCase (fst e) = toLowerCase nm) (functionIndex st)")
    case (Some e)
    with None f show ?thesis
      by (simp add: lookupApi_def lookupRecords_def map_get_def map_of_fview_eq)
  next
    case n: None
    have m: "map_of (fview st) nm = None"
      using None by (simp add: map_of_fview_eq)
    have fn: "find (\<lambda>e. toLowerCase (fst e) = toLowerCase nm) (fview st) = None"
      using n f by simp
    have "lookupRecords (fview st) nm
        = take 25 (map snd (filter
               (\<lambda>e. toLowerCase (shortNameOf (snd e) (fst e)) = toLowerCase nm
                    \<or> includesStr (toLowerCase (fst e)) (toLowerCase nm)) (fview st)))"
      by (simp add: lookupRecords_def m fn)
    also have "\<dots> = map (obj st) (take 25 (map snd (filter
               (\<lambda>e. toLowerCase (shortNameOf (obj st (snd e)) (fst e)) = toLowerCase nm
                    \<or> includesStr (toLowerCase (fst e)) (toLowerCase nm))
               (functionIndex st))))"
      by (simp add: fview_def filter_map comp_def take_map)
    also have "\<dots> = map (obj st) (lookupApi st nm)"
      using None n by (simp add: lookupApi_def map_get_def)
    finally show ?thesis by simp
  qed
qed

lemma searchApi_view: "map (obj st) (searchApi st q) = searchRecords (fview st) q"
  by (simp add: searchApi_def searchRecords_def fview_def filter_map comp_def take_map)

lemma listDeprecated_view: "map (obj st) (listDeprecated st nf) = deprecatedRecords (fview st) nf"
  by (simp add: listDeprecated_def deprecatedRecords_def fview_def filter_map comp_def Let_def)

lemma deprecated_count_view:
  "length (filter (\<lambda>e. deprecated (obj st (snd e))) (functionIndex st))
     = length (filter (\<lambda>e. deprecated (snd e)) (fview st))"
  by (simp add: fview_def filter_map comp_def)

lemma length_fview: "length (fview st) = length (functionIndex st)"
  by (simp add: fview_def)

subsection \<open>The keys of the maps\<close>

lemma keys_update: "map fst (AList.update k v m) = addKey k (map fst m)"
  by (induction m) (auto simp: addKey_def)

lemma set_addKey [simp]: "set (addKey k ks) = insert k (set ks)"
  by (auto simp: addKey_def)

lemma addKey_present: "k \<in> set ks \<Longrightarrow> addKey k ks = ks"
  by (simp add: addKey_def)

lemma settled_fixed: "settled op s \<Longrightarrow> keyStep op s = s"
  by (cases op; cases s) (auto simp: addKey_present)

lemma settled_after: "settled op (keyStep op s)"
  by (cases op; cases s) auto

lemma settled_mono: "settled op s \<Longrightarrow> settled op (keyStep op' s)"
  by (cases op; cases op'; cases s) auto

lemma settled_fold: "settled op s \<Longrightarrow> settled op (fold keyStep ops s)"
  by (induction ops arbitrary: s) (simp_all add: settled_mono)

lemma all_settled: "op \<in> set ops \<Longrightarrow> settled op (fold keyStep ops s)"
proof (induction ops arbitrary: s)
  case Nil
  then show ?case by simp
next
  case (Cons a ops)
  show ?case
  proof (cases "op = a")
    case True
    then show ?thesis
      using settled_fold[OF settled_after[of a s], of ops] by simp
  next
    case False
    with Cons.prems have "op \<in> set ops" by simp
    from Cons.IH[OF this, of "keyStep a s"] show ?thesis by simp
  qed
qed

lemma fold_settled: "(\<And>op. op \<in> set ops \<Longrightarrow> settled op s) \<Longrightarrow> fold keyStep ops s = s"
  by (induction ops) (simp_all add: settled_fixed)

lemma keyOps_idem: "fold keyStep ops (fold keyStep ops s) = fold keyStep ops s"
  by (rule fold_settled) (rule all_settled)

lemma keyPass_again: "keyPass F \<Longrightarrow> keysOf (F (F st)) = keysOf (F st)"
  unfolding keyPass_def using keyOps_idem by metis

lemma keyPass_same: "(\<And>st. keysOf (F st) = keysOf st) \<Longrightarrow> keyPass F"
  unfolding keyPass_def by (rule exI[of _ "[]"]) simp

lemma keyPass_step: "(\<And>st. keysOf (F st) = keyStep op (keysOf st)) \<Longrightarrow> keyPass F"
  unfolding keyPass_def by (rule exI[of _ "[op]"]) simp

lemma keyPass_comp:
  assumes "keyPass F" and "keyPass G"
  shows "keyPass (\<lambda>st. G (F st))"
proof -
  from assms obtain a b where a: "\<And>st. keysOf (F st) = fold keyStep a (keysOf st)"
    and b: "\<And>st. keysOf (G st) = fold keyStep b (keysOf st)"
    unfolding keyPass_def by blast
  have "\<forall>st. keysOf (G (F st)) = fold keyStep (a @ b) (keysOf st)"
    by (simp add: a b)
  then show ?thesis
    unfolding keyPass_def by blast
qed

lemma keyPass_fold:
  assumes "\<And>x. keyPass (P x)"
  shows "keyPass (fold P xs)"
proof (induction xs)
  case Nil
  show ?case by (rule keyPass_same) simp
next
  case (Cons x xs)
  have "keyPass (\<lambda>st. fold P xs (P x st))"
    using assms[of x] Cons by (rule keyPass_comp)
  then show ?case by (simp add: comp_def)
qed

lemma map_has_keys: "map_has m k = (k \<in> set (map fst m))"
  by (simp add: map_has_def map_of_eq_None_iff)

lemma keysOf_indexFunction:
  "keysOf (indexFunction func src st) = keyStep (KFunction False func) (keysOf st)"
  by (simp add: keysOf_def indexFunction_namespaces pushNamespace_def map_set_def keys_update
      namespaceKey_def split: option.splits)

lemma keysOf_conditional:
  "keysOf (if \<not> map_has (functionIndex st) (fullName func) then indexFunction func src st else st)
     = keyStep (KFunction True func) (keysOf st)"
proof (cases "map_has (functionIndex st) (fullName func)")
  case True
  then show ?thesis
    by (simp add: keysOf_def map_has_keys)
next
  case False
  then have "fullName func \<notin> set (map fst (functionIndex st))"
    by (simp add: map_has_keys)
  with False show ?thesis
    using keysOf_indexFunction[of func src st] by (simp add: keysOf_def)
qed

lemma keysOf_indexClass: "keysOf (indexClass cls st) = keyStep (KClass (cname cls)) (keysOf st)"
  by (simp add: keysOf_def indexClass_def map_set_def keys_update split: option.splits)

lemma keyPass_indexFunction: "keyPass (indexFunction func src)"
  by (rule keyPass_step) (rule keysOf_indexFunction)

lemma keyPass_indexClass: "keyPass (indexClass cls)"
  by (rule keyPass_step) (rule keysOf_indexClass)

lemma keyPass_deprecatedFunction: "keyPass (deprecatedFunction pv func)"
  unfolding deprecatedFunction_def by (rule keyPass_indexFunction)

lemma keyStep_deprecated:
  "keyStep (KFunction cond (func\<lparr>deprecated := True\<rparr>)) s = keyStep (KFunction cond func) s"
  by (cases s) (simp add: namespaceKey_def)

lemma keyPass_wikiFunction: "keyPass (wikiFunction func)"
proof (rule keyPass_step)
  fix st
  show "keysOf (wikiFunction func st) = keyStep (KFunction True func) (keysOf st)"
  proof (cases "shortNameOf func (fullName func) \<in> set (deprecatedList st)")
    case True
    then have "wikiFunction func st
        = (if \<not> map_has (functionIndex st) (fullName (func\<lparr>deprecated := True\<rparr>))
           then indexFunction (func\<lparr>deprecated := True\<rparr>) ''wiki'' st else st)"
      by (simp add: wikiFunction_def Let_def)
    then show ?thesis
      using keysOf_conditional[of st "func\<lparr>deprecated := True\<rparr>" "''wiki''"]
      by (simp only: keyStep_deprecated)
  next
    case False
    then have "wikiFunction func st
        = (if \<not> map_has (functionIndex st) (fullName func) then indexFunction func ''wiki'' st else st)"
      by (simp add: wikiFunction_def Let_def)
    then show ?thesis
      using keysOf_conditional[of st func "''wiki''"] by simp
  qed
qed

lemma keyPass_frameXmlFunction: "keyPass (frameXmlFunction func)"
proof (rule keyPass_step)
  fix st
  show "keysOf (frameXmlFunction func st) = keyStep (KFunction True func) (keysOf st)"
    using keysOf_conditional[of st func "''framexml''"] by (simp add: frameXmlFunction_def)
qed

lemma keysOf_pushMethod:
  "keysOf (st\<lparr>widgets := pushMethod (namespaceKey func) r (widgets st)\<rparr>)
     = (fst (keysOf st), fst (snd (keysOf st)), addKey (namespaceKey func) (snd (snd (keysOf st))))"
  by (simp add: keysOf_def pushMethod_def map_set_def keys_update split: option.splits)

lemma keyPass_widgetFunction: "keyPass (widgetFunction func)"
proof -
  have "keyPass (\<lambda>st. (if isMethod func \<and> truthy (namespace func)
          then st\<lparr>widgets := pushMethod (namespaceKey func) (length (heap st) - 1) (widgets st)\<rparr>
          else st))"
  proof (rule keyPass_step)
    fix st
    show "keysOf (if isMethod func \<and> truthy (namespace func)
          then st\<lparr>widgets := pushMethod (namespaceKey func) (length (heap st) - 1) (widgets st)\<rparr>
          else st) = keyStep (KMethod func) (keysOf st)"
      using keysOf_pushMethod[where st = st and func = func and r = "length (heap st) - 1"]
      by (cases "keysOf st") (auto simp: keysOf_def)
  qed
  from keyPass_comp[OF keyPass_indexFunction[of func "''widget''"] this]
  have "keyPass (\<lambda>st. (if isMethod func \<and> truthy (namespace func)
          then (indexFunction func ''widget'' st)\<lparr>widgets :=
                 pushMethod (namespaceKey func) (length (heap (indexFunction func ''widget'' st)) - 1)
                   (widgets (indexFunction func ''widget'' st))\<rparr>
          else indexFunction func ''widget'' st))" .
  moreover have "widgetFunction func = (\<lambda>st. (if isMethod func \<and> truthy (namespace func)
          then (indexFunction func ''widget'' st)\<lparr>widgets :=
                 pushMethod (namespaceKey func) (length (heap (indexFunction func ''widget'' st)) - 1)
                   (widgets (indexFunction func ''widget'' st))\<rparr>
          else indexFunction func ''widget'' st))"
    by (rule ext) (simp add: widgetFunction_def Let_def newRef_def namespaceKey_def)
  ultimately show ?thesis by simp
qed

lemma keyPass_blizzardFile: "keyPass (blizzardFile file)"
proof -
  have 1: "keyPass (fold (\<lambda>func. indexFunction func ''blizzard'') (p_functions (parseLuaFile (snd file))))"
    by (rule keyPass_fold) (rule keyPass_indexFunction)
  have 2: "keyPass (fold indexClass (p_classes (parseLuaFile (snd file))))"
    by (rule keyPass_fold) (rule keyPass_indexClass)
  have "blizzardFile file = (\<lambda>st. fold indexClass (p_classes (parseLuaFile (snd file)))
          (fold (\<lambda>func. indexFunction func ''blizzard'') (p_functions (parseLuaFile (snd file))) st))"
    by (rule ext) (simp add: blizzardFile_def Let_def)
  with keyPass_comp[OF 1 2] show ?thesis by simp
qed

lemma keyPass_deprecatedFile: "keyPass (deprecatedFile file)"
proof -
  have "keyPass (fold (deprecatedFunction (extractPatchFromFilename (fst file)))
          (p_functions (parseLuaFile (snd file))))"
    by (rule keyPass_fold) (rule keyPass_deprecatedFunction)
  moreover have "deprecatedFile file = fold (deprecatedFunction (extractPatchFromFilename (fst file)))
          (p_functions (parseLuaFile (snd file)))"
    by (rule ext) (simp add: deprecatedFile_def Let_def)
  ultimately show ?thesis by simp
qed

lemma keyPass_widgetFile: "keyPass (widgetFile file)"
proof -
  have 1: "keyPass (fold indexClass (p_classes (parseLuaFile (snd file))))"
    by (rule keyPass_fold) (rule keyPass_indexClass)
  have 2: "keyPass (fold widgetFunction (p_functions (parseLuaFile (snd file))))"
    by (rule keyPass_fold) (rule keyPass_widgetFunction)
  have "widgetFile file = (\<lambda>st. fold widgetFunction (p_functions (parseLuaFile (snd file)))
          (fold indexClass (p_classes (parseLuaFile (snd file))) st))"
    by (rule ext) (simp add: widgetFile_def Let_def)
  with keyPass_comp[OF 1 2] show ?thesis by simp
qed

lemma keyPass_frameXmlFile: "keyPass (frameXmlFile file)"
proof -
  have 1: "keyPass (fold indexClass (p_classes (parseLuaFile (snd file))))"
    by (rule keyPass_fold) (rule keyPass_indexClass)
  have 2: "keyPass (fold frameXmlFunction (p_functions (parseLuaFile (snd file))))"
    by (rule keyPass_fold) (rule keyPass_frameXmlFunction)
  have "frameXmlFile file = (\<lambda>st. fold frameXmlFunction (p_functions (parseLuaFile (snd file)))
          (fold indexClass (p_classes (parseLuaFile (snd file))) st))"
    by (rule ext) (simp add: frameXmlFile_def Let_def)
  with keyPass_comp[OF 1 2] show ?thesis by simp
qed

lemma keyPass_loadWiki: "keyPass (loadWiki c)"
proof (cases "wikiLua c")
  case None
  then show ?thesis
    by (intro keyPass_same) (simp add: loadWiki_def)
next
  case (Some content)
  have "keyPass (fold wikiFunction (p_functions (parseLuaFile content)))"
    by (rule keyPass_fold) (rule keyPass_wikiFunction)
  moreover have "loadWiki c = fold wikiFunction (p_functions (parseLuaFile content))"
    using Some by (auto simp: loadWiki_def wikiFile_def)
  ultimately show ?thesis by simp
qed

lemma keysOf_cong:
  "functionIndex st' = functionIndex st \<Longrightarrow> namespaces st' = namespaces st \<Longrightarrow> widgets st' = widgets st \<Longrightarrow>
   keysOf st' = keysOf st"
  by (simp add: keysOf_def)

lemma keysOf_fold_addDeprecatedName: "keysOf (fold addDeprecatedName nms st) = keysOf st"
proof (induction nms arbitrary: st)
  case Nil
  show ?case by simp
next
  case (Cons nm nms)
  have "keysOf (addDeprecatedName nm st) = keysOf st"
    by (simp add: keysOf_def)
  with Cons[of "addDeprecatedName nm st"] show ?case by simp
qed

lemma keyPass_sideStore: "keyPass (sideStore c)"
proof (rule keyPass_same)
  fix st
  have "keysOf (loadFlavor c (loadVersion c st)) = keysOf st"
    by (simp add: keysOf_def loadFlavor_def loadVersion_def split: option.splits)
  then show "keysOf (sideStore c st) = keysOf st"
    by (simp add: sideStore_def loadDeprecatedList_def keysOf_fold_addDeprecatedName split: option.splits)
qed

lemma keyPass_loadData: "keyPass (loadData c)"
  by (rule keyPass_same) (simp add: keysOf_def loadData_def Let_def split: option.splits)

lemma keyPass_applyFlavors: "keyPass applyFlavors"
  by (rule keyPass_same) (simp add: keysOf_def applyFlavors_rest)

lemma keyPass_loadFrom: "keyPass (loadFrom c)"
proof -
  have 1: "keyPass (fold blizzardFile (blizzardDocFiles c))"
    by (rule keyPass_fold) (rule keyPass_blizzardFile)
  have 2: "keyPass (fold deprecatedFile (deprecatedFiles c))"
    by (rule keyPass_fold) (rule keyPass_deprecatedFile)
  have 3: "keyPass (fold widgetFile (widgetFiles c))"
    by (rule keyPass_fold) (rule keyPass_widgetFile)
  have 4: "keyPass (fold frameXmlFile (frameXmlFiles c))"
    by (rule keyPass_fold) (rule keyPass_frameXmlFile)
  note a = keyPass_comp[OF keyPass_sideStore[of c] 1]
  note b = keyPass_comp[OF a 2]
  note d = keyPass_comp[OF b keyPass_loadWiki[of c]]
  note e = keyPass_comp[OF d 3]
  note f = keyPass_comp[OF e 4]
  note g = keyPass_comp[OF f keyPass_loadData[of c]]
  note h = keyPass_comp[OF g keyPass_applyFlavors]
  have "loadFrom c = (\<lambda>st. applyFlavors (loadData c
          (fold frameXmlFile (frameXmlFiles c)
            (fold widgetFile (widgetFiles c)
              (loadWiki c
                (fold deprecatedFile (deprecatedFiles c)
                  (fold blizzardFile (blizzardDocFiles c) (sideStore c st))))))))"
    by (rule ext) (simp add: loadFrom_def loadPasses_def sideStore_def)
  with h show ?thesis by simp
qed

lemma reload_keys: "keysOf (loadFrom c (loadFrom c st)) = keysOf (loadFrom c st)"
  using keyPass_loadFrom by (rule keyPass_again)

subsection \<open>The tables\<close>

lemma tablePass_comp: "tablePass F \<Longrightarrow> tablePass G \<Longrightarrow> tablePass (\<lambda>st. G (F st))"
  by (simp add: tablePass_def)

lemma tablePass_fold: "(\<And>x. tablePass (P x)) \<Longrightarrow> tablePass (fold P xs)"
  by (induction xs) (simp_all add: tablePass_def)

lemma tablePass_indexFunction: "tablePass (indexFunction func src)"
  by (simp add: tablePass_def tablesOf_def)

lemma tablePass_indexClass: "tablePass (indexClass cls)"
  by (simp add: tablePass_def tablesOf_def indexClass_def split: option.splits)

lemma tablePass_deprecatedFunction: "tablePass (deprecatedFunction pv func)"
  by (simp add: tablePass_def tablesOf_def deprecatedFunction_def)

lemma tablePass_wikiFunction: "tablePass (wikiFunction func)"
  by (simp add: tablePass_def tablesOf_def wikiFunction_def Let_def)

lemma tablePass_frameXmlFunction: "tablePass (frameXmlFunction func)"
  by (simp add: tablePass_def tablesOf_def frameXmlFunction_def)

lemma tablePass_widgetFunction: "tablePass (widgetFunction func)"
  by (simp add: tablePass_def tablesOf_def widgetFunction_def Let_def)

lemma tablePass_blizzardFile: "tablePass (blizzardFile file)"
proof -
  have 1: "tablePass (fold (\<lambda>func. indexFunction func ''blizzard'') (p_functions (parseLuaFile (snd file))))"
    by (rule tablePass_fold) (rule tablePass_indexFunction)
  have 2: "tablePass (fold indexClass (p_classes (parseLuaFile (snd file))))"
    by (rule tablePass_fold) (rule tablePass_indexClass)
  from 1 2 show ?thesis
    by (simp add: tablePass_def blizzardFile_def Let_def)
qed

lemma tablePass_deprecatedFile: "tablePass (deprecatedFile file)"
proof -
  have "tablePass (fold (deprecatedFunction (extractPatchFromFilename (fst file)))
          (p_functions (parseLuaFile (snd file))))"
    by (rule tablePass_fold) (rule tablePass_deprecatedFunction)
  then show ?thesis
    by (simp add: tablePass_def deprecatedFile_def Let_def)
qed

lemma tablePass_widgetFile: "tablePass (widgetFile file)"
proof -
  have 1: "tablePass (fold indexClass (p_classes (parseLuaFile (snd file))))"
    by (rule tablePass_fold) (rule tablePass_indexClass)
  have 2: "tablePass (fold widgetFunction (p_functions (parseLuaFile (snd file))))"
    by (rule tablePass_fold) (rule tablePass_widgetFunction)
  from 1 2 show ?thesis
    by (simp add: tablePass_def widgetFile_def Let_def)
qed

lemma tablePass_frameXmlFile: "tablePass (frameXmlFile file)"
proof -
  have 1: "tablePass (fold indexClass (p_classes (parseLuaFile (snd file))))"
    by (rule tablePass_fold) (rule tablePass_indexClass)
  have 2: "tablePass (fold frameXmlFunction (p_functions (parseLuaFile (snd file))))"
    by (rule tablePass_fold) (rule tablePass_frameXmlFunction)
  from 1 2 show ?thesis
    by (simp add: tablePass_def frameXmlFile_def Let_def)
qed

lemma tablePass_loadWiki: "tablePass (loadWiki c)"
proof (cases "wikiLua c")
  case None
  then show ?thesis by (simp add: tablePass_def loadWiki_def)
next
  case (Some content)
  have "tablePass (fold wikiFunction (p_functions (parseLuaFile content)))"
    by (rule tablePass_fold) (rule tablePass_wikiFunction)
  with Some show ?thesis
    by (simp add: tablePass_def loadWiki_def wikiFile_def)
qed

lemma tablePass_addDeprecatedName: "tablePass (addDeprecatedName nm)"
  by (simp add: tablePass_def tablesOf_def)

lemma tablesOf_sideStore:
  "tablesOf (sideStore c st)
     = (enums st, events st, cvars st, case packageVersion c of None \<Rightarrow> Some ''unknown'' | Some v \<Rightarrow> v)"
proof -
  have "tablePass (fold addDeprecatedName nms)" for nms
    by (rule tablePass_fold) (rule tablePass_addDeprecatedName)
  then have "tablesOf (loadDeprecatedList c s) = tablesOf s" for s
    by (simp add: tablePass_def loadDeprecatedList_def split: option.splits)
  then show ?thesis
    by (simp add: sideStore_def) (simp add: tablesOf_def loadFlavor_def loadVersion_def split: option.splits)
qed

lemma tablesOf_loadPasses:
  "tablesOf (loadPasses c st)
     = (enums st, events st, cvars st, case packageVersion c of None \<Rightarrow> Some ''unknown'' | Some v \<Rightarrow> v)"
proof -
  have 1: "tablePass (fold blizzardFile (blizzardDocFiles c))"
    by (rule tablePass_fold) (rule tablePass_blizzardFile)
  have 2: "tablePass (fold deprecatedFile (deprecatedFiles c))"
    by (rule tablePass_fold) (rule tablePass_deprecatedFile)
  have 3: "tablePass (fold widgetFile (widgetFiles c))"
    by (rule tablePass_fold) (rule tablePass_widgetFile)
  have 4: "tablePass (fold frameXmlFile (frameXmlFiles c))"
    by (rule tablePass_fold) (rule tablePass_frameXmlFile)
  have "tablesOf (loadPasses c st) = tablesOf (sideStore c st)"
    using 1 2 3 4 tablePass_loadWiki[of c]
    by (simp add: tablePass_def loadPasses_def sideStore_def)
  then show ?thesis
    by (simp add: tablesOf_sideStore)
qed

lemma tablesOf_loadFrom:
  "tablesOf (loadFrom c st)
     = (case enumLua c of None \<Rightarrow> enums st | Some content \<Rightarrow> parseEnumFile content,
        case eventLua c of None \<Rightarrow> events st | Some content \<Rightarrow> parseEventFile content,
        case cvarLua c of None \<Rightarrow> cvars st | Some content \<Rightarrow> parseCVarFile content,
        case packageVersion c of None \<Rightarrow> Some ''unknown'' | Some v \<Rightarrow> v)"
proof -
  have "tablesOf (applyFlavors s) = tablesOf s" for s
    by (simp add: tablesOf_def applyFlavors_rest enums_applyFlavors)
  then have "tablesOf (loadFrom c st) = tablesOf (loadData c (loadPasses c st))"
    by (simp add: loadFrom_def)
  also have "\<dots> = (case enumLua c of None \<Rightarrow> enums st | Some content \<Rightarrow> parseEnumFile content,
        case eventLua c of None \<Rightarrow> events st | Some content \<Rightarrow> parseEventFile content,
        case cvarLua c of None \<Rightarrow> cvars st | Some content \<Rightarrow> parseCVarFile content,
        case packageVersion c of None \<Rightarrow> Some ''unknown'' | Some v \<Rightarrow> v)"
    using tablesOf_loadPasses[of c st]
    by (simp add: tablesOf_def loadData_def Let_def split: option.splits)
  finally show ?thesis .
qed

lemma reload_tables: "tablesOf (loadFrom c (loadFrom c st)) = tablesOf (loadFrom c st)"
proof -
  have "enums (loadFrom c st) = (case enumLua c of None \<Rightarrow> enums st | Some content \<Rightarrow> parseEnumFile content)"
    "events (loadFrom c st) = (case eventLua c of None \<Rightarrow> events st | Some content \<Rightarrow> parseEventFile content)"
    "cvars (loadFrom c st) = (case cvarLua c of None \<Rightarrow> cvars st | Some content \<Rightarrow> parseCVarFile content)"
    using tablesOf_loadFrom[of c st] by (simp_all add: tablesOf_def)
  then show ?thesis
    by (simp add: tablesOf_loadFrom[of c "loadFrom c st"] tablesOf_loadFrom[of c st] split: option.splits)
qed

lemma queries_of_tables:
  assumes "tablesOf st' = tablesOf st"
  shows "getEnum st' q = getEnum st q" "searchEnums st' q = searchEnums st q" "getEvent st' q = getEvent st q"
proof -
  from assms have e: "enums st' = enums st" "events st' = events st"
    by (simp_all add: tablesOf_def)
  show "getEnum st' q = getEnum st q"
    by (simp add: getEnum_def e cong: option.case_cong)
  show "searchEnums st' q = searchEnums st q"
    by (simp add: searchEnums_def e)
  show "getEvent st' q = getEvent st q"
    by (simp add: getEvent_def e cong: option.case_cong)
qed

lemma getStats_of_views:
  assumes "fview st' = fview st" and "keysOf st' = keysOf st" and "tablesOf st' = tablesOf st"
  shows "getStats st' = getStats st"
proof -
  have 1: "length (functionIndex st') = length (functionIndex st)"
    using assms(1) length_fview[of st'] length_fview[of st] by simp
  have 2: "length (filter (\<lambda>e. deprecated (obj st' (snd e))) (functionIndex st'))
      = length (filter (\<lambda>e. deprecated (obj st (snd e))) (functionIndex st))"
    using assms(1) by (simp add: deprecated_count_view)
  have "map fst (namespaces st') = map fst (namespaces st)" "map fst (widgets st') = map fst (widgets st)"
    using assms(2) by (simp_all add: keysOf_def)
  then have 3: "length (namespaces st') = length (namespaces st)" "length (widgets st') = length (widgets st)"
    using length_map by metis+
  have 4: "enums st' = enums st" "events st' = events st" "cvars st' = cvars st"
      "extensionVersion st' = extensionVersion st"
    using assms(3) by (simp_all add: tablesOf_def)
  show ?thesis
    by (simp add: getStats_def 1 2 3 4)
qed

lemma lists_of_keys:
  assumes "keysOf st' = keysOf st"
  shows "listNamespaces st' = listNamespaces st" "listWidgets st' = listWidgets st"
  using assms by (simp_all add: keysOf_def listNamespaces_def listWidgets_def map_keys_def)

subsection \<open>The answers after a second load\<close>

text \<open>
  C9, as the code has it. \<^verbatim>\<open>load\<close> does not reset the store: a second load works on the
  maps and lists that the first load left. For every corpus, on a store that was new
  before the first load, the second load leaves the function index with the same keys in
  the same order and an equal object under every key, the namespaces and the widgets with
  the same keys, and the tables of enums, events and console variables and the version as
  they were. So \<^verbatim>\<open>lookupApi\<close>, \<^verbatim>\<open>searchApi\<close> and \<^verbatim>\<open>listDeprecated\<close> return equal objects in
  the same order, and \<^verbatim>\<open>listNamespaces\<close>, \<^verbatim>\<open>listWidgets\<close>, \<^verbatim>\<open>getEnum\<close>, \<^verbatim>\<open>searchEnums\<close>,
  \<^verbatim>\<open>getEvent\<close> and \<^verbatim>\<open>getStats\<close> return equal values, after the second load as after the
  first.
\<close>

theorem reload_same_answers:
  "(let st1 = loadFrom c emptyStore; st2 = loadFrom c st1 in
      map (obj st2) (lookupApi st2 q) = map (obj st1) (lookupApi st1 q)
      \<and> map (obj st2) (searchApi st2 q) = map (obj st1) (searchApi st1 q)
      \<and> map (obj st2) (listDeprecated st2 nf) = map (obj st1) (listDeprecated st1 nf)
      \<and> listNamespaces st2 = listNamespaces st1
      \<and> listWidgets st2 = listWidgets st1
      \<and> getEnum st2 q = getEnum st1 q
      \<and> searchEnums st2 q = searchEnums st1 q
      \<and> getEvent st2 q = getEvent st1 q
      \<and> getStats st2 = getStats st1)"
proof -
  let ?st1 = "loadFrom c emptyStore"
  let ?st2 = "loadFrom c ?st1"
  have w: "wf_store emptyStore" "distinct (map fst (functionIndex emptyStore))"
    by (rule wf_store_empty) (simp add: emptyStore_def)
  have f: "fview ?st2 = fview ?st1"
    using reload_fview[OF w, of c] by simp
  have k: "keysOf ?st2 = keysOf ?st1"
    by (rule reload_keys)
  have t: "tablesOf ?st2 = tablesOf ?st1"
    by (rule reload_tables)
  have "map (obj ?st2) (lookupApi ?st2 q) = map (obj ?st1) (lookupApi ?st1 q)"
    by (simp add: lookupApi_view f)
  moreover have "map (obj ?st2) (searchApi ?st2 q) = map (obj ?st1) (searchApi ?st1 q)"
    by (simp add: searchApi_view f)
  moreover have "map (obj ?st2) (listDeprecated ?st2 nf) = map (obj ?st1) (listDeprecated ?st1 nf)"
    by (simp add: listDeprecated_view f)
  moreover note lists_of_keys[OF k] queries_of_tables[OF t, of q] getStats_of_views[OF f k t]
  ultimately show ?thesis
    unfolding Let_def by (intro conjI)
qed

text \<open>
  C9, as it is stated, fails: a load does not replace the prior index. The list of a
  namespace and the method list of a widget keep the entries of the first load, and the
  second load adds its own to them: after two loads of the same corpus
  \<^verbatim>\<open>getNamespace("Frame")\<close> returns the function \<^verbatim>\<open>Frame.Create\<close> twice, and the widget
  \<^verbatim>\<open>Frame\<close> has the method \<^verbatim>\<open>Frame:Show\<close> twice.
\<close>

theorem reload_grows_lists:
  "(let st1 = loadFrom frameCorpus emptyStore; st2 = loadFrom frameCorpus st1 in
      (map (\<lambda>r. fullName (obj st1 r)) (getNamespace st1 ''Frame''),
       map (\<lambda>r. fullName (obj st2 r)) (getNamespace st2 ''Frame''),
       map_option (\<lambda>w. map (\<lambda>r. fullName (obj st1 r)) (methods w)) (getWidgetMethods st1 ''Frame''),
       map_option (\<lambda>w. map (\<lambda>r. fullName (obj st2 r)) (methods w)) (getWidgetMethods st2 ''Frame'')))
   = ([''Frame.Create''], [''Frame.Create'', ''Frame.Create''],
      Some [''Frame:Show''], Some [''Frame:Show'', ''Frame:Show''])"
  by code_simp

end
